(* ===== verification/Go_Base.thy ===== *)
theory Go_Base
  imports Main "HOL-Library.Word" "HOL-Library.AList" "HOL-Library.Monad_Syntax"
    "HOL-Library.Char_ord" "HOL-Library.List_Lexorder"
begin

text \<open>
  The Go the operator is written in, as far as its source uses it: error values,
  string functions of the package \<open>strings\<close>, the decimal and hexadecimal conversions of
  the package \<open>strconv\<close>, machine integers, and maps as association lists.

  Conventions of the whole development:
  \<^item> a Go function returning \<open>(T, error)\<close> whose value is dropped by every caller on an
    error is a HOL function into \<open>gerr + T\<close>; one whose value is read on an error too
    returns the pair;
  \<^item> a Go \<open>error\<close> alone is \<open>gerr option\<close>, with \<open>None\<close> for \<open>nil\<close>;
  \<^item> a function that can panic or end the process returns an \<open>option\<close> around all of this,
    with \<open>None\<close> for the crash, and is written in the option monad;
  \<^item> \<open>int\<close> is a 64-bit word, \<open>uint32\<close> and \<open>int32\<close> are 32-bit words;
  \<^item> a \<open>map[string]T\<close> is an association list read by \<open>map_of\<close> and written by
    \<open>AList.update\<close> and \<open>AList.delete\<close>; a list stands for the order in which one
    \<open>range\<close> loop visits the map.
\<close>

section \<open>Error values\<close>

text \<open>
  What the code observes of an error is whether \<open>errors.IsNotFound\<close> holds for it, and the
  constructor that built it.
\<close>

datatype gerr =
    NotFound string
  | ServiceUnavailable string
  | BadRequest string
  | GoError string

fun IsNotFound :: "gerr \<Rightarrow> bool" where
  "IsNotFound (NotFound _) = True"
| "IsNotFound _ = False"

type_synonym int64 = "64 word"
type_synonym uint32 = "32 word"
type_synonym int32 = "32 word"
type_synonym 'v smap = "(string \<times> 'v) list"

section \<open>Lemma collections\<close>

named_theorems go_err \<open>facts about error results\<close>
named_theorems go_str \<open>facts about strings\<close>
named_theorems trace_ext \<open>operations that only extend the trace\<close>

lemma isl_sum_case [go_err]: "(case r of Inl e \<Rightarrow> Inl e | Inr x \<Rightarrow> Inr (f x)) = map_sum id f r"
  by (cases r) simp_all

lemma ex_Inr_iff_not_isl [go_err]: "(\<exists>x. r = Inr x) \<longleftrightarrow> \<not> isl r"
  by (cases r) simp_all

section \<open>The package strings\<close>

definition HasPrefix :: "string \<Rightarrow> string \<Rightarrow> bool" where
  "HasPrefix s p \<longleftrightarrow> take (length p) s = p"

definition HasSuffix :: "string \<Rightarrow> string \<Rightarrow> bool" where
  "HasSuffix s p \<longleftrightarrow> length p \<le> length s \<and> drop (length s - length p) s = p"

fun Contains :: "string \<Rightarrow> string \<Rightarrow> bool" where
  "Contains [] p \<longleftrightarrow> p = []"
| "Contains (c # s) p \<longleftrightarrow> HasPrefix (c # s) p \<or> Contains s p"

text \<open>\<open>strings.ReplaceAll\<close> for a pattern that is not empty: every call site passes a literal.\<close>

function ReplaceAll :: "string \<Rightarrow> string \<Rightarrow> string \<Rightarrow> string" where
  "ReplaceAll [] old new = []"
| "ReplaceAll (c # s) old new =
     (if old \<noteq> [] \<and> HasPrefix (c # s) old
      then new @ ReplaceAll (drop (length old) (c # s)) old new
      else c # ReplaceAll s old new)"
  by pat_completeness auto
termination
  by (relation "measure (\<lambda>(s, _, _). length s)") auto

fun Join :: "string list \<Rightarrow> string \<Rightarrow> string" where
  "Join [] sep = []"
| "Join [x] sep = x"
| "Join (x # y # xs) sep = x @ sep @ Join (y # xs) sep"

lemma HasPrefix_append [simp, go_str]: "HasPrefix (p @ s) p"
  by (simp add: HasPrefix_def)

lemma HasPrefix_iff [go_str]: "HasPrefix s p \<longleftrightarrow> (\<exists>t. s = p @ t)"
  by (metis HasPrefix_append HasPrefix_def append_take_drop_id)

lemma HasSuffix_iff [go_str]: "HasSuffix s p \<longleftrightarrow> (\<exists>t. s = t @ p)"
proof
  assume "HasSuffix s p"
  then have "s = take (length s - length p) s @ p"
    by (metis HasSuffix_def append_take_drop_id)
  then show "\<exists>t. s = t @ p" ..
next
  assume "\<exists>t. s = t @ p"
  then show "HasSuffix s p" by (auto simp: HasSuffix_def)
qed

lemma Contains_iff [go_str]: "Contains s p \<longleftrightarrow> (\<exists>u v. s = u @ p @ v)"
proof (induction s)
  case Nil
  then show ?case by auto
next
  case (Cons c s)
  show ?case
  proof
    assume "Contains (c # s) p"
    then consider "HasPrefix (c # s) p" | "Contains s p" by auto
    then show "\<exists>u v. c # s = u @ p @ v"
      by cases (metis HasPrefix_iff append_Nil, metis Cons.IH append_Cons)
  next
    assume "\<exists>u v. c # s = u @ p @ v"
    then obtain u v where uv: "c # s = u @ p @ v" by blast
    show "Contains (c # s) p"
    proof (cases u)
      case Nil
      with uv have "HasPrefix (c # s) p" by (simp add: HasPrefix_iff)
      then show ?thesis by simp
    next
      case (Cons d u')
      with uv have "s = u' @ p @ v" by simp
      then show ?thesis using Cons.IH by auto
    qed
  qed
qed

lemma ReplaceAll_not_Contains [go_str]: "\<not> Contains s old \<Longrightarrow> ReplaceAll s old new = s"
  by (induction s) auto

lemma ReplaceAll_prefix [go_str]:
  assumes "old \<noteq> []"
  shows "ReplaceAll (old @ s) old new = new @ ReplaceAll s old new"
proof -
  obtain c t where "old = c # t" using assms by (cases old) auto
  then show ?thesis using HasPrefix_append [of old s] by simp
qed

section \<open>Digits: strconv.Itoa, Atoi, ParseInt and the verb d\<close>

definition digit_char :: "nat \<Rightarrow> char" where
  "digit_char d = char_of (if d < 10 then 48 + d else 87 + d)"

definition digit_value :: "char \<Rightarrow> nat option" where
  "digit_value c =
     (let n = of_char c :: nat in
      if 48 \<le> n \<and> n \<le> 57 then Some (n - 48)
      else if 97 \<le> n \<and> n \<le> 122 then Some (n - 87)
      else if 65 \<le> n \<and> n \<le> 90 then Some (n - 55)
      else None)"

function show_base :: "nat \<Rightarrow> nat \<Rightarrow> string" where
  "show_base b n =
     (if b < 2 \<or> n < b then [digit_char n] else show_base b (n div b) @ [digit_char (n mod b)])"
  by pat_completeness auto
termination
  by (relation "measure snd") auto

declare show_base.simps [simp del]

text \<open>The digits of a numeral, most significant first; \<open>None\<close> is a character that is no digit.\<close>

fun read_base_acc :: "nat \<Rightarrow> nat \<Rightarrow> string \<Rightarrow> nat option" where
  "read_base_acc b acc [] = Some acc"
| "read_base_acc b acc (c # s) =
     (case digit_value c of
        None \<Rightarrow> None
      | Some d \<Rightarrow> if d < b then read_base_acc b (acc * b + d) s else None)"

definition read_base :: "nat \<Rightarrow> string \<Rightarrow> nat option" where
  "read_base b s = (if s = [] then None else read_base_acc b 0 s)"

definition show_int :: "int \<Rightarrow> string" where
  "show_int i = (if i < 0 then CHR ''-'' # show_base 10 (nat (- i)) else show_base 10 (nat i))"

definition read_int :: "nat \<Rightarrow> string \<Rightarrow> int option" where
  "read_int b s =
     (case s of
        [] \<Rightarrow> None
      | c # t \<Rightarrow>
          if c = CHR ''+'' then map_option int (read_base b t)
          else if c = CHR ''-'' then map_option (\<lambda>n. - int n) (read_base b t)
          else map_option int (read_base b s))"

text \<open>
  \<open>strconv.Itoa\<close> of an \<open>int\<close>, \<open>strconv.ParseInt\<close> with a 64-bit result, and \<open>strconv.Atoi\<close>,
  which is \<open>ParseInt\<close> in base 10: a malformed or an out-of-range numeral is an error.
\<close>

definition Itoa :: "int64 \<Rightarrow> string" where
  "Itoa i = show_int (sint i)"

definition ParseInt64 :: "nat \<Rightarrow> string \<Rightarrow> gerr + int64" where
  "ParseInt64 b s =
     (case read_int b s of
        None \<Rightarrow> Inl (GoError ''strconv: invalid syntax'')
      | Some i \<Rightarrow>
          if - (2 ^ 63) \<le> i \<and> i < 2 ^ 63 then Inr (word_of_int i)
          else Inl (GoError ''strconv: value out of range''))"

definition Atoi :: "string \<Rightarrow> gerr + int64" where
  "Atoi s = ParseInt64 10 s"

definition show_int32 :: "int32 \<Rightarrow> string" where
  "show_int32 i = show_int (sint i)"

lemma digit_value_char [simp]: "d < 36 \<Longrightarrow> digit_value (digit_char d) = Some d"
  by (auto simp: digit_value_def digit_char_def Let_def)

lemma digit_char_inject: "d < 36 \<Longrightarrow> e < 36 \<Longrightarrow> digit_char d = digit_char e \<longleftrightarrow> d = e"
  by (metis digit_value_char option.inject)

lemma digit_char_not_sign [simp]:
  "d < 36 \<Longrightarrow> digit_char d \<noteq> CHR ''+''" "d < 36 \<Longrightarrow> digit_char d \<noteq> CHR ''-''"
proof -
  have "digit_value CHR ''+'' = None" "digit_value CHR ''-'' = None"
    by (simp_all add: digit_value_def)
  then show "d < 36 \<Longrightarrow> digit_char d \<noteq> CHR ''+''" "d < 36 \<Longrightarrow> digit_char d \<noteq> CHR ''-''"
    by (metis digit_value_char option.distinct(1))+
qed

lemma show_base_nonempty [simp]: "show_base b n \<noteq> []"
  by (subst show_base.simps) simp

lemma read_base_acc_append:
  "read_base_acc b acc (s @ t) =
     (case read_base_acc b acc s of None \<Rightarrow> None | Some m \<Rightarrow> read_base_acc b m t)"
  by (induction s arbitrary: acc) (auto split: option.splits)

lemma read_base_acc_show:
  assumes "2 \<le> b" "b \<le> 36"
  shows "read_base_acc b 0 (show_base b n) = Some n"
  using assms
proof (induction b n rule: show_base.induct)
  case (1 b n)
  show ?case
  proof (cases "n < b")
    case True
    with "1.prems" show ?thesis by (simp add: show_base.simps [of b n])
  next
    case False
    with "1.prems" have "read_base_acc b 0 (show_base b (n div b)) = Some (n div b)"
      using "1.IH" by simp
    moreover have "n mod b < b" using "1.prems" by simp
    moreover have "n mod b < 36" using "1.prems" calculation(2) by linarith
    ultimately show ?thesis
      using False "1.prems"
      by (simp add: show_base.simps [of b n] read_base_acc_append)
  qed
qed

lemma read_base_show [simp]: "2 \<le> b \<Longrightarrow> b \<le> 36 \<Longrightarrow> read_base b (show_base b n) = Some n"
  by (simp add: read_base_def read_base_acc_show)

lemma show_base_hd:
  assumes "2 \<le> b"
  shows "\<exists>d < b. \<exists>t. show_base b n = digit_char d # t"
  using assms
proof (induction b n rule: show_base.induct)
  case (1 b n)
  show ?case
  proof (cases "n < b")
    case True
    then show ?thesis by (subst show_base.simps) auto
  next
    case False
    with "1.prems" obtain d t where "d < b" "show_base b (n div b) = digit_char d # t"
      using "1.IH" by auto
    with False "1.prems" show ?thesis by (auto simp: show_base.simps [of b n])
  qed
qed

lemma read_int_show_int [simp]: "read_int 10 (show_int i) = Some i"
proof -
  obtain d t where dt: "show_base 10 (nat i) = digit_char d # t" "d < 10"
    using show_base_hd [of 10 "nat i"] by auto
  show ?thesis
  proof (cases "i < 0")
    case True
    then show ?thesis by (simp add: show_int_def read_int_def)
  next
    case False
    have "read_base 10 (digit_char d # t) = Some (nat i)"
      by (simp add: dt(1) [symmetric])
    with False dt show ?thesis by (simp add: show_int_def read_int_def)
  qed
qed

lemma Atoi_Itoa [simp]: "Atoi (Itoa i) = Inr i"
  using sint_greater_eq [of i] sint_less [of i]
  by (simp add: Atoi_def ParseInt64_def Itoa_def)

lemma show_base_inject: "2 \<le> b \<Longrightarrow> b \<le> 36 \<Longrightarrow> show_base b m = show_base b n \<longleftrightarrow> m = n"
  by (metis option.inject read_base_show)

lemma show_int_inject [simp]: "show_int i = show_int j \<longleftrightarrow> i = j"
  by (metis option.inject read_int_show_int)

lemma Itoa_inject [simp]: "Itoa i = Itoa j \<longleftrightarrow> i = j"
  by (metis Atoi_Itoa sum.inject(2))

section \<open>Maps\<close>

text \<open>
  \<open>reflect.DeepEqual\<close> of two maps: a \<open>nil\<close> map (\<open>None\<close>) equals only a \<open>nil\<close> map, and two
  others are equal when they agree at every key.
\<close>

definition same_map :: "'v smap \<Rightarrow> 'v smap \<Rightarrow> bool" where
  "same_map m n \<longleftrightarrow> list_all (\<lambda>k. map_of m k = map_of n k) (map fst m @ map fst n)"

fun DeepEqualMap :: "'v smap option \<Rightarrow> 'v smap option \<Rightarrow> bool" where
  "DeepEqualMap None None \<longleftrightarrow> True"
| "DeepEqualMap (Some m) (Some n) \<longleftrightarrow> same_map m n"
| "DeepEqualMap _ _ \<longleftrightarrow> False"

lemma same_map_iff: "same_map m n \<longleftrightarrow> map_of m = map_of n"
proof
  assume same: "same_map m n"
  show "map_of m = map_of n"
  proof
    fix k
    show "map_of m k = map_of n k"
    proof (cases "k \<in> set (map fst m @ map fst n)")
      case True
      with same show ?thesis by (auto simp: same_map_def list_all_iff)
    next
      case False
      then have "map_of m k = None" "map_of n k = None"
        by (auto simp: map_of_eq_None_iff)
      then show ?thesis by simp
    qed
  qed
qed (simp add: same_map_def list_all_iff)

lemma DeepEqualMap_refl [simp]: "DeepEqualMap m m"
  by (cases m) (simp_all add: same_map_iff)

end
