(* ===== verification/Go_Values.thy ===== *)
theory Go_Values
  imports Go_Base
begin

text \<open>
  The values that reach the operator as \<open>interface{}\<close>: 64-bit floats with
  \<open>strconv.ParseFloat\<close> and the verb \<open>f\<close>, and what \<open>encoding/json\<close> decodes into an
  \<open>interface{}\<close>, with the verbs \<open>f\<close> and \<open>v\<close> of \<open>fmt.Sprintf\<close> on it.
\<close>

section \<open>float64\<close>

text \<open>
  \<open>FFin neg m e\<close> is \<open>(-1)^neg * m * 2^e\<close>, with \<open>m < 2^53\<close> and \<open>-1074 \<le> e \<le> 971\<close>; zero
  has the mantissa 0.
\<close>

datatype float64 = FNaN | FInf bool | FFin bool nat int

fun is_finite :: "float64 \<Rightarrow> bool" where
  "is_finite (FFin _ _ _) = True"
| "is_finite _ = False"

text \<open>The comparison \<open>x != 0\<close>: a NaN differs from every number.\<close>

fun float_nonzero :: "float64 \<Rightarrow> bool" where
  "float_nonzero FNaN = True"
| "float_nonzero (FInf _) = True"
| "float_nonzero (FFin _ m _) = (m \<noteq> 0)"

fun bitlen :: "nat \<Rightarrow> nat" where
  "bitlen n = (if n = 0 then 0 else Suc (bitlen (n div 2)))"

declare bitlen.simps [simp del]

definition div_half_even :: "nat \<Rightarrow> nat \<Rightarrow> nat" where
  "div_half_even n d =
     (let q = n div d; r = n mod d in
      if 2 * r < d \<or> (2 * r = d \<and> even q) then q else Suc q)"

text \<open>\<open>num / den * 2^(-e)\<close>, rounded to the nearest integer, ties to even.\<close>

definition scaled :: "nat \<Rightarrow> nat \<Rightarrow> int \<Rightarrow> nat" where
  "scaled num den e = div_half_even (num * 2 ^ nat (- e)) (den * 2 ^ nat e)"

definition ratio_log2 :: "nat \<Rightarrow> nat \<Rightarrow> int" where
  "ratio_log2 num den =
     (let k = int (bitlen num) - int (bitlen den) in
      if den * 2 ^ nat k \<le> num * 2 ^ nat (- k) then k else k - 1)"

text \<open>
  The float nearest to \<open>num / den\<close>, ties to even; \<open>None\<close> when it is out of range.
\<close>

definition round_ratio :: "bool \<Rightarrow> nat \<Rightarrow> nat \<Rightarrow> float64 option" where
  "round_ratio neg num den =
     (if num = 0 then Some (FFin neg 0 (- 1074))
      else
        let e = max (- 1074) (ratio_log2 num den - 52);
            m = scaled num den e;
            (m', e') = (if m = 2 ^ 53 then (2 ^ 52, e + 1) else (m, e))
        in if 971 < e' then None else Some (FFin neg m' e'))"

section \<open>strconv.ParseFloat\<close>

definition lower :: "char \<Rightarrow> char" where
  "lower c = (let n = of_char c :: nat in if 65 \<le> n \<and> n \<le> 90 then char_of (n + 32) else c)"

definition is_digit :: "char \<Rightarrow> bool" where
  "is_digit c \<longleftrightarrow> (let n = of_char c :: nat in 48 \<le> n \<and> n \<le> 57)"

definition strip_sign :: "string \<Rightarrow> bool \<times> string" where
  "strip_sign s =
     (case s of
        [] \<Rightarrow> (False, [])
      | c # t \<Rightarrow> if c = CHR ''+'' then (False, t) else if c = CHR ''-'' then (True, t) else (False, s))"

text \<open>\<open>inf\<close> and \<open>infinity\<close> may carry a sign, \<open>nan\<close> may not; the case of letters is ignored.\<close>

definition special_float :: "string \<Rightarrow> float64 option" where
  "special_float s =
     (let (neg, t) = strip_sign s; w = List.map lower t in
      if w = ''inf'' \<or> w = ''infinity'' then Some (FInf neg)
      else if List.map lower s = ''nan'' then Some FNaN
      else None)"

text \<open>
  The mantissa: \<open>(mantissa, digits after the point, a digit was seen, an underscore was
  seen, rest)\<close>. The scan stops at the first character that cannot belong to it.
\<close>

fun scan_mantissa ::
  "nat \<Rightarrow> string \<Rightarrow> bool \<Rightarrow> bool \<Rightarrow> bool \<Rightarrow> nat \<Rightarrow> nat \<Rightarrow> nat \<times> nat \<times> bool \<times> bool \<times> string"
where
  "scan_mantissa b [] dot dig us m fr = (m, fr, dig, us, [])"
| "scan_mantissa b (c # s) dot dig us m fr =
     (if c = CHR ''_'' then scan_mantissa b s dot dig True m fr
      else if c = CHR ''.'' then
        (if dot then (m, fr, dig, us, c # s) else scan_mantissa b s True dig us m fr)
      else case digit_value c of
        Some d \<Rightarrow>
          if d < b then scan_mantissa b s dot True us (m * b + d) (if dot then Suc fr else fr)
          else (m, fr, dig, us, c # s)
      | None \<Rightarrow> (m, fr, dig, us, c # s))"

text \<open>The exponent's digits: the value stops growing at 10000, as in the source of Go.\<close>

fun scan_exponent :: "string \<Rightarrow> bool \<Rightarrow> nat \<Rightarrow> nat \<times> bool \<times> string" where
  "scan_exponent [] us e = (e, us, [])"
| "scan_exponent (c # s) us e =
     (if c = CHR ''_'' then scan_exponent s True e
      else if is_digit c then
        scan_exponent s us (if e < 10000 then e * 10 + (of_char c - 48) else e)
      else (e, us, c # s))"

text \<open>Underscores must separate digits; a base prefix counts as a digit.\<close>

fun underscores_ok :: "bool \<Rightarrow> char \<Rightarrow> string \<Rightarrow> bool" where
  "underscores_ok hex saw [] = (saw \<noteq> CHR ''_'')"
| "underscores_ok hex saw (c # s) =
     (if is_digit c \<or> (hex \<and> CHR ''a'' \<le> lower c \<and> lower c \<le> CHR ''f'')
      then underscores_ok hex CHR ''0'' s
      else if c = CHR ''_'' then saw = CHR ''0'' \<and> underscores_ok hex CHR ''_'' s
      else saw \<noteq> CHR ''_'' \<and> underscores_ok hex CHR ''!'' s)"

definition is_hex_float :: "string \<Rightarrow> bool" where
  "is_hex_float t \<longleftrightarrow> 2 < length t \<and> List.map lower (take 2 t) = ''0x''"

definition underscoreOK :: "string \<Rightarrow> bool" where
  "underscoreOK s =
     (let t = snd (strip_sign s); p = List.map lower (take 2 t) in
      if p = ''0b'' \<or> p = ''0o'' \<or> p = ''0x''
      then underscores_ok (p = ''0x'') CHR ''0'' (drop 2 t)
      else underscores_ok False CHR ''^'' t)"

definition read_exponent :: "bool \<Rightarrow> string \<Rightarrow> (int \<times> bool \<times> string) option" where
  "read_exponent hex s =
     (case s of
        [] \<Rightarrow> if hex then None else Some (0, False, [])
      | c # t \<Rightarrow>
          if lower c = (if hex then CHR ''p'' else CHR ''e'') then
            (let (neg, u) = strip_sign t in
             case u of
               [] \<Rightarrow> None
             | d # _ \<Rightarrow>
                 if is_digit d then
                   (let (e, us, rest) = scan_exponent u False 0
                    in Some (if neg then - int e else int e, us, rest))
                 else None)
          else if hex then None
          else Some (0, False, s))"

definition float_syntax :: gerr where
  "float_syntax = GoError ''strconv.ParseFloat: invalid syntax''"

definition float_range :: gerr where
  "float_range = GoError ''strconv.ParseFloat: value out of range''"

definition ParseFloat :: "string \<Rightarrow> gerr + float64" where
  "ParseFloat s =
     (case special_float s of
        Some f \<Rightarrow> Inr f
      | None \<Rightarrow>
        let (neg, t) = strip_sign s;
            hex = is_hex_float t;
            (m, fr, dig, us, rest) =
              scan_mantissa (if hex then 16 else 10) (if hex then drop 2 t else t) False False False 0 0
        in if \<not> dig then Inl float_syntax
           else case read_exponent hex rest of
             None \<Rightarrow> Inl float_syntax
           | Some (e, us', rest') \<Rightarrow>
               if rest' \<noteq> [] \<or> ((us \<or> us') \<and> \<not> underscoreOK s) then Inl float_syntax
               else
                 let x = (if hex then e - 4 * int fr else e - int fr);
                     b = (if hex then 2 else 10)
                 in case round_ratio neg (m * b ^ nat x) (b ^ nat (- x)) of
                      None \<Rightarrow> Inl float_range
                    | Some f \<Rightarrow> Inr f)"

section \<open>The verb f\<close>

definition pad6 :: "nat \<Rightarrow> string" where
  "pad6 n = (let s = show_base 10 n in replicate (6 - length s) CHR ''0'' @ s)"

fun format_f :: "float64 \<Rightarrow> string" where
  "format_f FNaN = ''NaN''"
| "format_f (FInf neg) = (if neg then ''-Inf'' else ''+Inf'')"
| "format_f (FFin neg m e) =
     (let n = div_half_even (m * 10 ^ 6 * 2 ^ nat e) (2 ^ nat (- e))
      in (if neg then ''-'' else '''') @ show_base 10 (n div 10 ^ 6) @ ''.'' @ pad6 (n mod 10 ^ 6))"

section \<open>Decoded JSON\<close>

text \<open>
  What \<open>json.Unmarshal\<close> stores in an \<open>interface{}\<close>: \<open>nil\<close>, \<open>bool\<close>, \<open>float64\<close>, \<open>string\<close>,
  \<open>[]interface{}\<close> or \<open>map[string]interface{}\<close>.
\<close>

datatype json =
    JNull
  | JBool bool
  | JNum float64
  | JStr string
  | JArr "json list"
  | JObj "(string \<times> json) list"

text \<open>
  \<open>fmt.Sprintf\<close> with the verb \<open>f\<close>: an operand the verb does not fit is printed as
  \<open>%!f(type=value)\<close>; slices and maps apply the verb to their elements, maps in the order
  of their keys.
\<close>

definition bad_verb_f :: "string \<Rightarrow> string \<Rightarrow> string" where
  "bad_verb_f ty v = ''%!f('' @ ty @ ''='' @ v @ '')''"

definition show_bool :: "bool \<Rightarrow> string" where
  "show_bool b = (if b then ''true'' else ''false'')"

fun sprintf_f :: "json \<Rightarrow> string" where
  "sprintf_f JNull = ''%!f(<nil>)''"
| "sprintf_f (JBool b) = bad_verb_f ''bool'' (show_bool b)"
| "sprintf_f (JNum x) = format_f x"
| "sprintf_f (JStr s) = bad_verb_f ''string'' s"
| "sprintf_f (JArr xs) = ''['' @ Join (List.map sprintf_f xs) '' '' @ '']''"
| "sprintf_f (JObj kvs) =
     ''map['' @
     Join (List.map snd (sort_key fst (List.map (\<lambda>(k, v). (k, bad_verb_f ''string'' k @ '':'' @ sprintf_f v)) kvs))) '' ''
     @ '']''"

text \<open>
  \<open>fmt.Sprintf\<close> with the verb \<open>v\<close>. Go prints a float with the fewest digits that read back
  as the same float; that conversion is the argument \<open>fmt_g\<close>.
\<close>

fun sprintf_v :: "(float64 \<Rightarrow> string) \<Rightarrow> json \<Rightarrow> string" where
  "sprintf_v fmt_g JNull = ''<nil>''"
| "sprintf_v fmt_g (JBool b) = show_bool b"
| "sprintf_v fmt_g (JNum x) = fmt_g x"
| "sprintf_v fmt_g (JStr s) = s"
| "sprintf_v fmt_g (JArr xs) = ''['' @ Join (List.map (sprintf_v fmt_g) xs) '' '' @ '']''"
| "sprintf_v fmt_g (JObj kvs) =
     ''map['' @
     Join (List.map snd (sort_key fst (List.map (\<lambda>(k, v). (k, k @ '':'' @ sprintf_v fmt_g v)) kvs))) '' ''
     @ '']''"

text \<open>
  \<open>json.Marshal\<close> refuses a float that is not finite; \<open>json.Unmarshal\<close> of what it wrote
  gives the value back.
\<close>

fun marshalable :: "json \<Rightarrow> bool" where
  "marshalable (JNum x) = is_finite x"
| "marshalable (JArr xs) = list_all marshalable xs"
| "marshalable (JObj kvs) = list_all (\<lambda>(k, v). marshalable v) kvs"
| "marshalable _ = True"

type_synonym plugins = "json smap smap"

definition plugins_marshalable :: "plugins \<Rightarrow> bool" where
  "plugins_marshalable ps \<longleftrightarrow> list_all (\<lambda>(_, m). list_all (\<lambda>(_, v). marshalable v) m) ps"

definition unsupported_value :: gerr where
  "unsupported_value = GoError ''json: unsupported value''"

definition json_plugins_round_trip :: "plugins \<Rightarrow> gerr + plugins" where
  "json_plugins_round_trip ps = (if plugins_marshalable ps then Inr ps else Inl unsupported_value)"

end
