(* ===== verification/Api_Types.thy ===== *)
theory Api_Types
  imports Go_Values
begin

text \<open>
  The data the operator works on: the custom resources of \<open>pkg/apis/intel/v1alpha1\<close>, the
  Kubernetes objects and the workloads of the RMD service, each with the fields the
  operator's code reads or writes. A field keeps the name the source gives it, with a prefix
  where two structs share one.
\<close>

section \<open>pkg/apis/intel/v1alpha1\<close>

record Cache =
  cacheMax :: int64
  cacheMin :: int64

record Mba =
  Percentage :: int64
  Mbps :: int64

record Rdt =
  rdtCache :: Cache
  rdtMba :: Mba

record Pstate =
  Ratio :: string
  Monitoring :: string

record Plugins =
  pstate :: Pstate

record WorkloadState =
  Response :: string
  stateID :: string
  stateCosName :: string
  stateStatus :: string
  stateCoreIds :: "string list"
  statePolicy :: string
  stateRdt :: Rdt
  statePlugins :: Plugins

record RmdWorkloadSpec =
  AllCores :: bool
  CoreIds :: "string list"
  ReservedCoreIds :: "string list"
  Policy :: string
  specRdt :: Rdt
  specPlugins :: Plugins
  NodeSelector :: "string smap"
  Nodes :: "string list"

text \<open>
  \<open>wlOwner\<close> is the controller reference of the object's metadata, \<open>wlVersion\<close> its resource
  version. \<open>WorkloadStates\<close> is written only after it has been made when empty, so that a
  \<open>nil\<close> map and an empty one are not told apart.
\<close>

record RmdWorkload =
  wlName :: string
  wlNamespace :: string
  wlOwner :: "string option"
  wlVersion :: nat
  wlSpec :: RmdWorkloadSpec
  WorkloadStates :: "WorkloadState smap"

record RmdConfigSpec =
  RmdImage :: string
  DeployNodeAgent :: bool
  RmdNodeSelector :: "string smap option"

record RmdConfig =
  cfgName :: string
  cfgNamespace :: string
  cfgSpec :: RmdConfigSpec
  cfgStatusNodes :: "string list"

type_synonym WorkloadMap = "string smap"

record RmdNodeStateSpec =
  nsNode :: string
  nsNodeUID :: string

record RmdNodeState =
  nsName :: string
  nsNamespace :: string
  nsOwner :: "string option"
  nsSpec :: RmdNodeStateSpec
  nsWorkloads :: "WorkloadMap smap"

text \<open>The zero values of the structs.\<close>

definition zero_Rdt :: Rdt where
  "zero_Rdt = \<lparr>rdtCache = \<lparr>cacheMax = 0, cacheMin = 0\<rparr>, rdtMba = \<lparr>Percentage = 0, Mbps = 0\<rparr>\<rparr>"

definition zero_Plugins :: Plugins where
  "zero_Plugins = \<lparr>pstate = \<lparr>Ratio = '''', Monitoring = ''''\<rparr>\<rparr>"

definition zero_WorkloadState :: WorkloadState where
  "zero_WorkloadState =
     \<lparr>Response = '''', stateID = '''', stateCosName = '''', stateStatus = '''', stateCoreIds = [],
      statePolicy = '''', stateRdt = zero_Rdt, statePlugins = zero_Plugins\<rparr>"

definition zero_RmdWorkload :: RmdWorkload where
  "zero_RmdWorkload =
     \<lparr>wlName = '''', wlNamespace = '''', wlOwner = None, wlVersion = 0,
      wlSpec = \<lparr>AllCores = False, CoreIds = [], ReservedCoreIds = [], Policy = '''',
        specRdt = zero_Rdt, specPlugins = zero_Plugins, NodeSelector = [], Nodes = []\<rparr>,
      WorkloadStates = []\<rparr>"

section \<open>Kubernetes objects\<close>

text \<open>
  A \<open>resource.Quantity\<close> is seen through the three accessors the code calls: \<open>String()\<close>,
  \<open>Value()\<close> and \<open>MilliValue()\<close>.
\<close>

record Quantity =
  qString :: string
  qValue :: int64
  qMilliValue :: int64

record Container =
  cName :: string
  cPorts :: "int32 list"
  cLimits :: "Quantity smap"
  cRequests :: "Quantity smap"

record Pod =
  podName :: string
  podNamespace :: string
  podUID :: string
  podAnnotations :: "string smap"
  podNodeName :: string
  podInitContainers :: "Container list"
  podContainers :: "Container list"
  podPhase :: string
  podHostIP :: string
  podIP :: string
  podIPs :: "string list"

record Node =
  nodeName :: string
  nodeLabels :: "string smap"
  nodeAddresses :: "string list"

record DaemonSet =
  dsName :: string
  dsNamespace :: string
  dsOwner :: "string option"
  dsNodeSelector :: "string smap option"
  dsContainers :: "Container list"

section \<open>Workloads of the RMD service\<close>

text \<open>
  \<open>rmdtypes.RDTWorkLoad\<close>; the four numbers are pointers to \<open>uint32\<close>. Of a cache of
  \<open>rmdCache.Infos\<close> the code reads the NUMA node, the CPU list and the two ways fields.
\<close>

record RDTWorkLoad =
  UUID :: string
  rdtID :: string
  CoreIDs :: "string list"
  rdtStatus :: string
  CosName :: string
  rdtPolicy :: string
  Origin :: string
  rdtCacheMax :: "uint32 option"
  rdtCacheMin :: "uint32 option"
  rdtPercentage :: "uint32 option"
  rdtMbps :: "uint32 option"
  rdtPlugins :: plugins

definition zero_RDTWorkLoad :: RDTWorkLoad where
  "zero_RDTWorkLoad =
     \<lparr>UUID = '''', rdtID = '''', CoreIDs = [], rdtStatus = '''', CosName = '''', rdtPolicy = '''',
      Origin = '''', rdtCacheMax = None, rdtCacheMin = None, rdtPercentage = None, rdtMbps = None,
      rdtPlugins = []\<rparr>"

record CacheInfo =
  cacheNode :: string
  ShareCPUList :: string
  AvailableWays :: string
  AvailableWaysPool :: "string smap"

end
