(* ===== verification/Cluster_Env.thy ===== *)
theory Cluster_Env
  imports Api_Types
begin

text \<open>
  What the operator calls and does not contain: the Kubernetes API server behind the
  controller-runtime client, the RMD service behind HTTP, the kubelet, and the third-party
  functions of \<open>cpuset\<close>, \<open>labels\<close> and \<open>controllerutil\<close>. All of them are arguments of the
  model, gathered in the record \<open>env\<close>.

  A handler is a function of the \<open>env\<close> and of the trace of calls made so far; it returns
  its result and the extended trace. A remote call is answered by a function of that trace,
  so that an answer may depend on everything done before, and nothing is assumed of it: a
  theorem over all \<open>env\<close> holds for every behaviour of the cluster, failing calls included.
  The order of the calls of a handler is the order of its trace.
\<close>

section \<open>Calls\<close>

datatype call =
    HttpGet string
  | HttpSend string string "RDTWorkLoad option"
  | GetWorkloadCR string string
  | CreateWorkloadCR RmdWorkload
  | UpdateWorkloadCR RmdWorkload
  | UpdateWorkloadStatus RmdWorkload
  | GetConfigCR string string
  | UpdateConfigStatus RmdConfig
  | GetNodeStateCR string string
  | CreateNodeStateCR RmdNodeState
  | UpdateNodeStateStatus RmdNodeState
  | GetNodeObj string
  | ListNodes "string smap"
  | GetPodObj string string
  | ListPods "string smap"
  | GetDaemonSetObj string string
  | CreateDaemonSetObj DaemonSet
  | UpdateDaemonSetObj DaemonSet
  | DeleteDaemonSetObj DaemonSet
  | ListNamespaces
  | GetOwnPod string
  | ListPodResources
  | ReadManifest string

type_synonym trace = "call list"

text \<open>
  The answer to a request with a method: the client's \<open>Do\<close> failed, the body of the answer
  could not be read, or a status code and a body.
\<close>

datatype send_result = DoFailed gerr | ReadFailed gerr | Answer int string

text \<open>
  The containers of a pod as the kubelet's pod resources endpoint lists them: name and
  CPU ids, which are \<open>int64\<close>.
\<close>

type_synonym pod_resources = "(string \<times> (string \<times> int64 list) list) list"

text \<open>A manifest decodes to an object of the kind \<open>DaemonSet\<close> or of another kind.\<close>

datatype manifest = DaemonSetManifest DaemonSet | OtherKind

section \<open>The environment\<close>

text \<open>
  \<open>'c\<close> is the type of \<open>cpuset.CPUSet\<close>. \<open>new_request\<close> is the check of a URL by
  \<open>http.NewRequest\<close>; \<open>http_get\<close> covers \<open>Get\<close> and the reading of the body; the two decoders
  are \<open>json.Unmarshal\<close> into the types of the RMD repository, the workloads into a list of
  pointers, in which the entry \<open>null\<close> is a nil pointer: \<open>None\<close>. \<open>update_workload_status\<close>
  returns the object as the server sends it back, which the client stores into its argument.
  \<open>set_controller_reference\<close> takes the owner's name and the present controller reference.
  \<open>get_own_pod\<close> is \<open>k8sutil.GetPod\<close>, whose pointer the code uses even after an error: it
  returns the pod, or no object, and the error.
  \<open>format_g\<close> is the shortest decimal of a float (\<open>fmt.Sprintf\<close> with the verb \<open>v\<close>).
\<close>

record 'c env =
  http_get :: "trace \<Rightarrow> string \<Rightarrow> gerr + string"
  http_send :: "trace \<Rightarrow> string \<Rightarrow> string \<Rightarrow> RDTWorkLoad option \<Rightarrow> send_result"
  new_request :: "string \<Rightarrow> string \<Rightarrow> gerr option"
  decode_workloads :: "string \<Rightarrow> gerr + RDTWorkLoad option list"
  decode_infos :: "string \<Rightarrow> gerr + CacheInfo list"
  format_g :: "float64 \<Rightarrow> string"
  cpu_empty :: "'c"
  cpu_parse :: "string \<Rightarrow> gerr + 'c"
  cpu_union :: "'c \<Rightarrow> 'c \<Rightarrow> 'c"
  cpu_difference :: "'c \<Rightarrow> 'c \<Rightarrow> 'c"
  cpu_string :: "'c \<Rightarrow> string"
  cpu_slice :: "'c \<Rightarrow> int64 list"
  get_workload :: "trace \<Rightarrow> string \<Rightarrow> string \<Rightarrow> gerr + RmdWorkload"
  create_workload :: "trace \<Rightarrow> RmdWorkload \<Rightarrow> gerr option"
  update_workload :: "trace \<Rightarrow> RmdWorkload \<Rightarrow> gerr option"
  update_workload_status :: "trace \<Rightarrow> RmdWorkload \<Rightarrow> gerr + RmdWorkload"
  get_config :: "trace \<Rightarrow> string \<Rightarrow> string \<Rightarrow> gerr + RmdConfig"
  get_node_state :: "trace \<Rightarrow> string \<Rightarrow> string \<Rightarrow> gerr + RmdNodeState"
  create_node_state :: "trace \<Rightarrow> RmdNodeState \<Rightarrow> gerr option"
  update_node_state_status :: "trace \<Rightarrow> RmdNodeState \<Rightarrow> gerr option"
  get_node :: "trace \<Rightarrow> string \<Rightarrow> gerr + Node"
  list_nodes :: "trace \<Rightarrow> string smap \<Rightarrow> gerr + Node list"
  get_pod :: "trace \<Rightarrow> string \<Rightarrow> string \<Rightarrow> gerr + Pod"
  list_pods :: "trace \<Rightarrow> string smap \<Rightarrow> gerr + Pod list"
  get_daemon_set :: "trace \<Rightarrow> string \<Rightarrow> string \<Rightarrow> gerr + DaemonSet"
  create_daemon_set :: "trace \<Rightarrow> DaemonSet \<Rightarrow> gerr option"
  update_daemon_set :: "trace \<Rightarrow> DaemonSet \<Rightarrow> gerr option"
  delete_daemon_set :: "trace \<Rightarrow> DaemonSet \<Rightarrow> gerr option"
  list_namespaces :: "trace \<Rightarrow> gerr + string list"
  get_own_pod :: "trace \<Rightarrow> string \<Rightarrow> Pod option \<times> gerr option"
  list_pod_resources :: "trace \<Rightarrow> gerr + pod_resources"
  read_manifest :: "trace \<Rightarrow> string \<Rightarrow> gerr + manifest"
  set_controller_reference :: "string \<Rightarrow> string option \<Rightarrow> gerr + string option"
  labels_merge :: "string smap \<Rightarrow> string smap \<Rightarrow> string smap"
  labels_in_whitelist :: "string smap \<Rightarrow> string smap \<Rightarrow> bool"
  pod_qos :: "Pod \<Rightarrow> string"

text \<open>
  \<open>reconcile.Request\<close> and \<open>reconcile.Result\<close>; \<open>RequeueAfter\<close> is in seconds and 0 when the
  field is not set. A handler that returns an error is queued again by the framework.
\<close>

record Request =
  reqNamespace :: string
  reqName :: string

record Result =
  RequeueAfter :: nat

definition no_requeue :: Result where
  "no_requeue = \<lparr>RequeueAfter = 0\<rparr>"

definition requeue_after :: "nat \<Rightarrow> Result" where
  "requeue_after seconds = \<lparr>RequeueAfter = seconds\<rparr>"

section \<open>Traces\<close>

text \<open>
  \<open>extends P h h'\<close>: the trace \<open>h'\<close> is \<open>h\<close> followed by calls that satisfy \<open>P\<close>. Each
  operation of the model is shown to extend its trace by the calls it may make; the facts are
  collected in \<open>trace_ext\<close>.
\<close>

definition extends :: "(call \<Rightarrow> bool) \<Rightarrow> trace \<Rightarrow> trace \<Rightarrow> bool" where
  "extends P h h' \<longleftrightarrow> (\<exists>cs. h' = h @ cs \<and> list_all P cs)"

lemma extends_refl [simp, intro]: "extends P h h"
  by (simp add: extends_def)

lemma extends_snoc [simp, intro]: "P c \<Longrightarrow> extends P h (h @ [c])"
  by (simp add: extends_def)

lemma extends_trans [trans]: "extends P h h' \<Longrightarrow> extends P h' h'' \<Longrightarrow> extends P h h''"
  by (force simp: extends_def)

lemma extends_weaken: "extends P h h' \<Longrightarrow> (\<And>c. P c \<Longrightarrow> Q c) \<Longrightarrow> extends Q h h'"
  by (auto simp: extends_def list_all_iff)

lemma extends_filter: "extends P h h' \<Longrightarrow> (\<And>c. P c \<Longrightarrow> \<not> Q c) \<Longrightarrow> filter Q h' = filter Q h"
  by (auto simp: extends_def list_all_iff filter_empty_conv)

text \<open>Calls that change nothing on the cluster or on an RMD instance.\<close>

fun is_read :: "call \<Rightarrow> bool" where
  "is_read (HttpGet _) = True"
| "is_read (GetWorkloadCR _ _) = True"
| "is_read (GetConfigCR _ _) = True"
| "is_read (GetNodeStateCR _ _) = True"
| "is_read (GetNodeObj _) = True"
| "is_read (ListNodes _) = True"
| "is_read (GetPodObj _ _) = True"
| "is_read (ListPods _) = True"
| "is_read (GetDaemonSetObj _ _) = True"
| "is_read ListNamespaces = True"
| "is_read (GetOwnPod _) = True"
| "is_read ListPodResources = True"
| "is_read (ReadManifest _) = True"
| "is_read _ = False"

definition read_only :: "trace \<Rightarrow> trace \<Rightarrow> bool" where
  "read_only = extends is_read"

lemma read_only_refl [simp, intro]: "read_only h h"
  by (simp add: read_only_def)

lemma read_only_snoc [simp, intro]: "is_read c \<Longrightarrow> read_only h (h @ [c])"
  by (simp add: read_only_def)

lemma read_only_append [simp]: "read_only h (h @ cs) \<longleftrightarrow> list_all is_read cs"
  by (simp add: read_only_def extends_def)

lemma read_only_after: "read_only (h @ cs) h' \<Longrightarrow> list_all is_read cs \<Longrightarrow> read_only h h'"
  by (auto simp: read_only_def extends_def)

lemma read_only_trans [trans]: "read_only h h' \<Longrightarrow> read_only h' h'' \<Longrightarrow> read_only h h''"
  unfolding read_only_def by (rule extends_trans)

text \<open>The writes of a trace, in order.\<close>

definition writes :: "trace \<Rightarrow> call list" where
  "writes h = filter (\<lambda>c. \<not> is_read c) h"

lemma writes_Nil [simp]: "writes [] = []"
  by (simp add: writes_def)

lemma writes_append [simp]: "writes (h @ h') = writes h @ writes h'"
  by (simp add: writes_def)

lemma writes_Cons [simp]: "writes (c # h) = (if is_read c then writes h else c # writes h)"
  by (simp add: writes_def)

lemma read_only_writes: "read_only h h' \<Longrightarrow> writes h' = writes h"
  unfolding read_only_def writes_def by (rule extends_filter) auto

end
