(* ===== verification/Node_Data.thy ===== *)
theory Node_Data
  imports Go_Base
begin

text \<open>
  \<open>pkg/state/state.go\<close>: the list of node names the three controllers of the operator share.
  \<open>UpdateRmdNodeData\<close> adds a name once, \<open>DeleteRmdNodeData\<close> removes it with the in-place
  \<open>append\<close> of two sub-slices while it ranges over the list; the model of the latter keeps the
  backing array, because the loop reads the array that its own \<open>append\<close> shifts.
\<close>

section \<open>RmdNodeData\<close>

record RmdNodeData =
  RmdNodeList :: "string list"

definition NewRmdNodeData :: RmdNodeData where
  "NewRmdNodeData = \<lparr>RmdNodeList = []\<rparr>"

fun update_loop :: "string \<Rightarrow> string list \<Rightarrow> string list \<Rightarrow> string list" where
  "update_loop nodeName nodes [] = nodes @ [nodeName]"
| "update_loop nodeName nodes (node # rest) =
     (if nodeName = node then nodes else update_loop nodeName nodes rest)"

definition UpdateRmdNodeData :: "string \<Rightarrow> RmdNodeData \<Rightarrow> RmdNodeData" where
  "UpdateRmdNodeData nodeName nd =
     nd\<lparr>RmdNodeList := update_loop nodeName (RmdNodeList nd) (RmdNodeList nd)\<rparr>"

text \<open>
  A slice is its length and the array it lies in. \<open>append(s[:i], s[i+1:]...)\<close> panics when
  \<open>i + 1\<close> exceeds the length; otherwise it moves the cells after \<open>i\<close> one to the left inside
  the same array, whose last used cell keeps its old value behind the new length.
\<close>

record slice =
  backing :: "string list"
  slen :: nat

definition slice_list :: "slice \<Rightarrow> string list" where
  "slice_list s = take (slen s) (backing s)"

definition append_delete :: "nat \<Rightarrow> slice \<Rightarrow> slice option" where
  "append_delete i s =
     (if slen s < i + 1 then None
      else Some \<lparr>backing = take i (backing s) @ drop (i + 1) (take (slen s) (backing s))
                            @ drop (slen s - 1) (backing s),
                 slen = slen s - 1\<rparr>)"

text \<open>
  The loop: \<open>range\<close> fixes the number of iterations at the start and reads cell \<open>index\<close> of
  the array in iteration \<open>index\<close>.
\<close>

fun delete_loop :: "string \<Rightarrow> nat \<Rightarrow> nat \<Rightarrow> slice \<Rightarrow> slice option" where
  "delete_loop nodeName index 0 s = Some s"
| "delete_loop nodeName index (Suc k) s =
     (if backing s ! index = nodeName then
        do { s' \<leftarrow> append_delete index s; delete_loop nodeName (Suc index) k s' }
      else delete_loop nodeName (Suc index) k s)"

definition DeleteRmdNodeData :: "string \<Rightarrow> RmdNodeData \<Rightarrow> RmdNodeData option" where
  "DeleteRmdNodeData nodeName nd =
     (let xs = RmdNodeList nd in
      do {
        s \<leftarrow> delete_loop nodeName 0 (length xs) \<lparr>backing = xs, slen = length xs\<rparr>;
        Some (nd\<lparr>RmdNodeList := slice_list s\<rparr>)
      })"

section \<open>The loops\<close>

lemma update_loop_eq: "update_loop n nodes rest = (if n \<in> set rest then nodes else nodes @ [n])"
  by (induction rest) auto

lemma delete_loop_skip:
  assumes "\<And>j. index \<le> j \<Longrightarrow> j < index + k \<Longrightarrow> backing s ! j \<noteq> n"
  shows "delete_loop n index k s = Some s"
  using assms
proof (induction k arbitrary: index)
  case 0
  then show ?case by simp
next
  case (Suc k)
  from Suc.prems [of index] have "backing s ! index \<noteq> n" by simp
  moreover have "delete_loop n (Suc index) k s = Some s"
    by (rule Suc.IH) (rule Suc.prems, auto)
  ultimately show ?case by simp
qed

lemma delete_loop_add:
  "delete_loop n index (j + k) s = do { s' \<leftarrow> delete_loop n index j s; delete_loop n (index + j) k s' }"
proof (induction j arbitrary: index s)
  case 0
  then show ?case by simp
next
  case (Suc j)
  then show ?case by (cases "append_delete index s") auto
qed

lemma append_delete_found:
  "append_delete (length us) \<lparr>backing = us @ x # vs, slen = Suc (length us + length vs)\<rparr> =
     Some \<lparr>backing = us @ vs @ [last (x # vs)], slen = length us + length vs\<rparr>"
proof -
  have "drop (length us + length vs) (us @ x # vs) = [last (x # vs)]"
    by (cases vs rule: rev_cases) auto
  then show ?thesis by (simp add: append_delete_def)
qed

text \<open>The first occurrence: the loop skips what lies before it and shifts what follows.\<close>

lemma delete_loop_first:
  assumes "n \<notin> set us"
  shows "delete_loop n 0 (length (us @ n # vs)) \<lparr>backing = us @ n # vs, slen = length (us @ n # vs)\<rparr> =
    delete_loop n (Suc (length us)) (length vs)
      \<lparr>backing = us @ vs @ [last (n # vs)], slen = length us + length vs\<rparr>"
proof -
  let ?s = "\<lparr>backing = us @ n # vs, slen = Suc (length us + length vs)\<rparr>"
  have "delete_loop n 0 (length us) ?s = Some ?s"
    by (rule delete_loop_skip) (use assms in \<open>auto simp: nth_append\<close>)
  then have "delete_loop n 0 (length us + Suc (length vs)) ?s =
      delete_loop n (length us) (Suc (length vs)) ?s"
    by (simp only: delete_loop_add) simp
  then show ?thesis by (simp add: append_delete_found)
qed

lemma DeleteRmdNodeData_absent:
  assumes "n \<notin> set (RmdNodeList nd)"
  shows "DeleteRmdNodeData n nd = Some nd"
proof -
  have "delete_loop n 0 (length (RmdNodeList nd))
      \<lparr>backing = RmdNodeList nd, slen = length (RmdNodeList nd)\<rparr> =
    Some \<lparr>backing = RmdNodeList nd, slen = length (RmdNodeList nd)\<rparr>"
    by (rule delete_loop_skip) (use assms in auto)
  then show ?thesis by (simp add: DeleteRmdNodeData_def slice_list_def)
qed

lemma DeleteRmdNodeData_once:
  assumes "RmdNodeList nd = us @ n # vs" "n \<notin> set us" "n \<notin> set vs"
  shows "DeleteRmdNodeData n nd = Some (nd\<lparr>RmdNodeList := us @ vs\<rparr>)"
proof -
  let ?s = "\<lparr>backing = us @ vs @ [last (n # vs)], slen = length us + length vs\<rparr>"
  have "delete_loop n (Suc (length us)) (length vs) ?s = Some ?s"
  proof (rule delete_loop_skip)
    fix j
    assume j: "Suc (length us) \<le> j" "j < Suc (length us) + length vs"
    then have "(us @ vs @ [last (n # vs)]) ! j = (vs @ [last (n # vs)]) ! (j - length us)"
      by (simp add: nth_append)
    also have "\<dots> \<in> set vs"
      using j by (cases "j - length us < length vs") (auto simp: nth_append)
    finally show "backing ?s ! j \<noteq> n" using assms(3) by auto
  qed
  with delete_loop_first [OF assms(2), of vs] assms(1) show ?thesis
    by (simp add: DeleteRmdNodeData_def slice_list_def)
qed

lemma DeleteRmdNodeData_distinct:
  assumes "distinct (RmdNodeList nd)"
  shows "DeleteRmdNodeData n nd = Some (nd\<lparr>RmdNodeList := remove1 n (RmdNodeList nd)\<rparr>)"
proof (cases "n \<in> set (RmdNodeList nd)")
  case True
  then obtain us vs where "RmdNodeList nd = us @ n # vs" "n \<notin> set us"
    by (meson split_list_first)
  with assms show ?thesis
    by (simp add: DeleteRmdNodeData_once remove1_append)
next
  case False
  then show ?thesis by (simp add: DeleteRmdNodeData_absent remove1_idem)
qed

lemma DeleteRmdNodeData_filter:
  assumes "distinct (RmdNodeList nd)"
  shows "DeleteRmdNodeData n nd = Some (nd\<lparr>RmdNodeList := filter (\<lambda>m. m \<noteq> n) (RmdNodeList nd)\<rparr>)"
proof -
  have "removeAll n xs = filter (\<lambda>m. m \<noteq> n) xs" for xs :: "string list"
    by (induction xs) auto
  then show ?thesis
    using assms by (simp add: DeleteRmdNodeData_distinct distinct_remove1_removeAll)
qed

section \<open>Stale cells\<close>

text \<open>
  Behind the new length the array keeps copies of its last cell. If that is another name, no
  cell there matches; if it is the name, the loop comes to one and slices out of range.
\<close>

lemma append_delete_length:
  "append_delete i s = Some s' \<Longrightarrow> slen s \<le> length (backing s) \<Longrightarrow>
     length (backing s') = length (backing s) \<and> slen s' = slen s - 1"
  by (auto simp: append_delete_def split: if_splits)

lemma append_delete_stale:
  assumes "append_delete i s = Some s'" "slen s \<le> length (backing s)" "slen s - 1 \<le> j" "j < length (backing s)"
  shows "backing s' ! j = backing s ! j"
  using assms by (auto simp: append_delete_def nth_append min_def split: if_splits)

lemma append_delete_last:
  assumes "append_delete i s = Some s'" "slen s \<le> length (backing s)" "i + 1 < slen s"
  shows "backing s' ! (slen s - 2) = backing s ! (slen s - 1)"
proof -
  have "Suc (slen s - 2) = slen s - Suc 0" using assms(3) by simp
  then show ?thesis using assms by (auto simp: append_delete_def nth_append split: if_splits)
qed

lemma delete_loop_other_last:
  assumes "slen s \<le> length (backing s)" "index + k = length (backing s)"
    and "\<And>j. slen s - 1 \<le> j \<Longrightarrow> j < length (backing s) \<Longrightarrow> backing s ! j \<noteq> n"
  shows "delete_loop n index k s \<noteq> None"
  using assms
proof (induction k arbitrary: index s)
  case 0
  then show ?case by simp
next
  case (Suc k)
  show ?case
  proof (cases "backing s ! index = n")
    case False
    with Suc.IH [of s "Suc index"] Suc.prems show ?thesis by simp
  next
    case True
    with Suc.prems(3) [of index] Suc.prems(2) have i: "index < slen s - 1" by fastforce
    then have "append_delete index s \<noteq> None" by (simp add: append_delete_def)
    then obtain s' where s': "append_delete index s = Some s'" by blast
    have cell: "backing s' ! j \<noteq> n" if "slen s' - 1 \<le> j" "j < length (backing s')" for j
    proof (cases "j = slen s - 2")
      case True
      with append_delete_last [OF s' Suc.prems(1)] i Suc.prems(1,3) show ?thesis by simp
    next
      case False
      with append_delete_length [OF s' Suc.prems(1)] append_delete_stale [OF s' Suc.prems(1), of j]
        that Suc.prems(3) [of j] show ?thesis by simp
    qed
    have "delete_loop n (Suc index) k s' \<noteq> None"
      by (rule Suc.IH [OF _ _ cell]) (use append_delete_length [OF s' Suc.prems(1)] Suc.prems(1,2) in auto)
    with True s' show ?thesis by simp
  qed
qed

lemma delete_loop_stale_panics:
  assumes "slen s < length (backing s)" "index + k = length (backing s)" "index < length (backing s)"
    and "\<And>j. slen s \<le> j \<Longrightarrow> j < length (backing s) \<Longrightarrow> backing s ! j = n"
    and "index < slen s \<Longrightarrow> backing s ! (slen s - 1) = n"
  shows "delete_loop n index k s = None"
  using assms
proof (induction k arbitrary: index s)
  case 0
  then show ?case by simp
next
  case (Suc k)
  show ?case
  proof (cases "index < slen s")
    case False
    with Suc.prems(3) Suc.prems(4) [of index] show ?thesis by (simp add: append_delete_def)
  next
    case in_slice: True
    show ?thesis
    proof (cases "backing s ! index = n")
      case False
      have "delete_loop n (Suc index) k s = None"
        by (rule Suc.IH) (use Suc.prems in_slice in auto)
      with False show ?thesis by simp
    next
      case True
      from in_slice obtain s' where s': "append_delete index s = Some s'" by (auto simp: append_delete_def)
      note len = append_delete_length [OF s' less_imp_le [OF Suc.prems(1)]]
      have stale: "backing s' ! j = n" if "slen s' \<le> j" "j < length (backing s')" for j
        using append_delete_stale [OF s' less_imp_le [OF Suc.prems(1)], of j] that len
          Suc.prems(4) [of j] Suc.prems(5) [OF in_slice] by (cases "j = slen s - 1") auto
      have last: "backing s' ! (slen s' - 1) = n" if "Suc index < slen s'"
        using append_delete_last [OF s' less_imp_le [OF Suc.prems(1)]] that len Suc.prems(5) [OF in_slice]
        by (simp add: numeral_2_eq_2)
      have "delete_loop n (Suc index) k s' = None"
        by (rule Suc.IH [OF _ _ _ stale last]) (use len Suc.prems(1,2) in_slice in auto)
      with True s' show ?thesis by simp
    qed
  qed
qed

lemma DeleteRmdNodeData_None_iff:
  "DeleteRmdNodeData n nd = None \<longleftrightarrow> (\<exists>us. RmdNodeList nd = us @ [n] \<and> n \<in> set us)"
proof (cases "n \<in> set (RmdNodeList nd)")
  case False
  then show ?thesis by (auto simp: DeleteRmdNodeData_absent)
next
  case True
  then obtain us vs where xs: "RmdNodeList nd = us @ n # vs" and us: "n \<notin> set us"
    by (meson split_list_first)
  let ?s = "\<lparr>backing = us @ vs @ [last (n # vs)], slen = length us + length vs\<rparr>"
  have del: "DeleteRmdNodeData n nd = None \<longleftrightarrow> delete_loop n (Suc (length us)) (length vs) ?s = None"
    using delete_loop_first [OF us, of vs] xs by (auto simp: DeleteRmdNodeData_def bind_eq_None_conv)
  show ?thesis
  proof (cases vs rule: rev_cases)
    case Nil
    with del xs us show ?thesis by simp
  next
    case (snoc ws z)
    have stale: "(us @ vs @ [last (n # vs)]) ! j = z"
      if "length us + length vs - 1 \<le> j" "j < length us + length vs + 1" for j
    proof -
      have "j = length us + length ws \<or> j = length us + length ws + 1" using that snoc by auto
      then show ?thesis by (auto simp: snoc nth_append)
    qed
    have "delete_loop n (Suc (length us)) (length vs) ?s = None \<longleftrightarrow> z = n"
    proof
      assume "z = n"
      then show "delete_loop n (Suc (length us)) (length vs) ?s = None"
        using stale by (intro delete_loop_stale_panics) (auto simp: snoc)
    next
      assume none: "delete_loop n (Suc (length us)) (length vs) ?s = None"
      show "z = n"
      proof (rule ccontr)
        assume "z \<noteq> n"
        then have "delete_loop n (Suc (length us)) (length vs) ?s \<noteq> None"
          using stale by (intro delete_loop_other_last) auto
        with none show False by simp
      qed
    qed
    with del xs show ?thesis by (auto simp: snoc)
  qed
qed

section \<open>The registry interface\<close>

text \<open>
  What the controllers rely on: a set of names in the order they were first added, an
  \<open>add\<close> that is idempotent, a \<open>del\<close> that never fails on a registry the operations built.
\<close>

datatype registry_op = AddNode string | DelNode string

text \<open>A run of operations, in the order the controllers issued them.\<close>

fun run_registry ::
  "(string \<Rightarrow> 'r \<Rightarrow> 'r) \<Rightarrow> (string \<Rightarrow> 'r \<Rightarrow> 'r option) \<Rightarrow> registry_op list \<Rightarrow> 'r \<Rightarrow> 'r option"
where
  "run_registry add del [] r = Some r"
| "run_registry add del (AddNode n # ops) r = run_registry add del ops (add n r)"
| "run_registry add del (DelNode n # ops) r =
     do { r' \<leftarrow> del n r; run_registry add del ops r' }"

text \<open>The specification of one operation on the list of names.\<close>

fun spec_op :: "registry_op \<Rightarrow> string list \<Rightarrow> string list" where
  "spec_op (AddNode n) ns = (if n \<in> set ns then ns else ns @ [n])"
| "spec_op (DelNode n) ns = remove1 n ns"

locale node_registry =
  fixes empty_reg :: "'r"
    and add :: "string \<Rightarrow> 'r \<Rightarrow> 'r"
    and del :: "string \<Rightarrow> 'r \<Rightarrow> 'r option"
    and names :: "'r \<Rightarrow> string list"
    and wf :: "'r \<Rightarrow> bool"
  assumes wf_empty: "wf empty_reg"
    and names_empty: "names empty_reg = []"
    and wf_distinct: "wf r \<Longrightarrow> distinct (names r)"
    and wf_add: "wf r \<Longrightarrow> wf (add n r)"
    and names_add: "wf r \<Longrightarrow> names (add n r) = spec_op (AddNode n) (names r)"
    and del_works: "wf r \<Longrightarrow> \<exists>r'. del n r = Some r' \<and> wf r' \<and> names r' = spec_op (DelNode n) (names r)"
begin

lemma run_works:
  "wf r \<Longrightarrow> \<exists>r'. run_registry add del ops r = Some r' \<and> wf r' \<and> names r' = fold spec_op ops (names r)"
proof (induction ops arbitrary: r)
  case Nil
  then show ?case by simp
next
  case (Cons op ops)
  show ?case
  proof (cases op)
    case (AddNode n)
    from Cons.IH [OF wf_add, OF Cons.prems, of n] Cons.prems AddNode show ?thesis
      by (simp add: names_add)
  next
    case (DelNode n)
    obtain r' where "del n r = Some r'" "wf r'" "names r' = spec_op (DelNode n) (names r)"
      using del_works Cons.prems by blast
    with Cons.IH [of r'] DelNode show ?thesis by simp
  qed
qed

lemma run_from_empty:
  "\<exists>r. run_registry add del ops empty_reg = Some r \<and> distinct (names r) \<and> names r = fold spec_op ops []"
  using run_works [OF wf_empty, of ops] wf_distinct by (auto simp: names_empty)

lemma wf_add_all: "wf r \<Longrightarrow> wf (fold add ns r)"
  by (induction ns arbitrary: r) (auto intro: wf_add)

lemma names_add_all: "wf r \<Longrightarrow> set (names (fold add ns r)) = set (names r) \<union> set ns"
  by (induction ns arbitrary: r) (auto simp: names_add wf_add)

lemma del_absent: "wf r \<Longrightarrow> del n r = Some r' \<Longrightarrow> n \<notin> set (names r')"
  using del_works [of r n] wf_distinct [of r] by auto

end

interpretation reg: node_registry NewRmdNodeData UpdateRmdNodeData DeleteRmdNodeData RmdNodeList
  "\<lambda>nd. distinct (RmdNodeList nd)"
  by unfold_locales
    (auto simp: NewRmdNodeData_def UpdateRmdNodeData_def update_loop_eq DeleteRmdNodeData_distinct)

section \<open>Properties\<close>

text \<open>
  (C12) Any sequence of \<open>UpdateRmdNodeData\<close> and \<open>DeleteRmdNodeData\<close> calls on the registry
  the operator starts with runs without a panic, keeps the names distinct, and leaves exactly
  the names the sequence of set operations leaves, in the order they were added.
\<close>

theorem registry_refines_spec:
  "\<exists>nd. run_registry UpdateRmdNodeData DeleteRmdNodeData ops NewRmdNodeData = Some nd
     \<and> distinct (RmdNodeList nd) \<and> RmdNodeList nd = fold spec_op ops []"
  by (rule reg.run_from_empty)

text \<open>
  On a list with no name twice, the loop of \<open>DeleteRmdNodeData\<close> over the array it shifts
  removes the name, keeps the order of the others, and does not panic.
\<close>

theorem DeleteRmdNodeData_removes:
  assumes "distinct (RmdNodeList nd)"
  shows "\<exists>nd'. DeleteRmdNodeData n nd = Some nd' \<and> RmdNodeList nd' = filter (\<lambda>m. m \<noteq> n) (RmdNodeList nd)"
  using assms by (simp add: DeleteRmdNodeData_filter)

theorem DeleteRmdNodeData_removes_witness:
  "distinct [''n1'', ''n2''] \<and>
   (\<exists>nd'. DeleteRmdNodeData ''n1'' \<lparr>RmdNodeList = [''n1'', ''n2'']\<rparr> = Some nd' \<and>
     RmdNodeList nd' = [''n2''])"
  using DeleteRmdNodeData_removes [of "\<lparr>RmdNodeList = [''n1'', ''n2'']\<rparr>" "''n1''"] by simp

text \<open>
  (C13) The distinctness that \<open>UpdateRmdNodeData\<close> maintains is what keeps
  \<open>DeleteRmdNodeData\<close> from panicking: it panics exactly on a list that ends with the deleted name
  and holds it before, whatever the rest: the loop re-reads the stale last cell and slices out
  of range.
\<close>

theorem DeleteRmdNodeData_panics_on_duplicate:
  "DeleteRmdNodeData n nd = None \<longleftrightarrow> (\<exists>us. RmdNodeList nd = us @ [n] \<and> n \<in> set us)"
  by (rule DeleteRmdNodeData_None_iff)

end
