(* ===== verification/Config_Controller.thy ===== *)
theory Config_Controller
  imports Cluster_Env Node_Data
begin

text \<open>
  \<open>pkg/controller/rmdconfig\<close>: the reconciler of the \<open>RmdConfig\<close> resource. It creates or updates
  the daemon set of RMD, creates or deletes the one of the node agent, creates an
  \<open>RmdNodeState\<close> for every labelled node and adds the node to the registry. \<open>None\<close> is the panic
  of the type assertion on a manifest that is no daemon set.
\<close>

definition configNamespace :: string where
  "configNamespace = ''default''"

definition rmdNodeStateNameConst :: string where
  "rmdNodeStateNameConst = ''rmd-node-state-''"

definition nodeAgentNameConst :: string where
  "nodeAgentNameConst = ''rmd-node-agent''"

definition rmdDaemonSetPath :: string where
  "rmdDaemonSetPath = ''/rmd-manifests/rmd-ds.yaml''"

definition nodeAgentDaemonSetPath :: string where
  "nodeAgentDaemonSetPath = ''/rmd-manifests/rmd-node-agent-ds.yaml''"

section \<open>Daemon sets\<close>

definition newDaemonSet :: "'c env \<Rightarrow> string \<Rightarrow> trace \<Rightarrow> ((gerr + DaemonSet) \<times> trace) option" where
  "newDaemonSet env path h =
     (let resp = read_manifest env h path; h' = h @ [ReadManifest path] in
      case resp of
        Inl err \<Rightarrow> Some (Inl err, h')
      | Inr OtherKind \<Rightarrow> None
      | Inr (DaemonSetManifest rmdDaemonSet) \<Rightarrow> Some (Inr rmdDaemonSet, h'))"

text \<open>A selector with no entry leaves the selector of the manifest.\<close>

definition apply_selector :: "string smap option \<Rightarrow> DaemonSet \<Rightarrow> DaemonSet" where
  "apply_selector sel daemonSet =
     (case sel of
        Some (kv # kvs) \<Rightarrow> daemonSet\<lparr>dsNodeSelector := Some (kv # kvs)\<rparr>
      | _ \<Rightarrow> daemonSet)"

definition sync_selector ::
  "'c env \<Rightarrow> RmdConfig \<Rightarrow> DaemonSet \<Rightarrow> trace \<Rightarrow> gerr option \<times> trace"
where
  "sync_selector env rmdConfig daemonSet h =
     (let sel = RmdNodeSelector (cfgSpec rmdConfig) in
      if \<not> DeepEqualMap sel (dsNodeSelector daemonSet) then
        let daemonSet' = daemonSet\<lparr>dsNodeSelector := sel\<rparr> in
        (update_daemon_set env h daemonSet', h @ [UpdateDaemonSetObj daemonSet'])
      else (None, h))"

text \<open>
  The daemon set found on the cluster replaces the one of the manifest. An error other than
  "not found" is dropped and the manifest's object is compared.
\<close>

definition createDaemonSetIfNotPresent ::
  "'c env \<Rightarrow> RmdConfig \<Rightarrow> string \<Rightarrow> trace \<Rightarrow> (gerr option \<times> trace) option"
where
  "createDaemonSetIfNotPresent env rmdConfig path h =
     do {
       (manifest, h1) \<leftarrow> newDaemonSet env path h;
       Some (case manifest of
           Inl err \<Rightarrow> (Some err, h1)
         | Inr ds \<Rightarrow>
           let daemonSet = apply_selector (RmdNodeSelector (cfgSpec rmdConfig)) ds;
               resp = get_daemon_set env h1 (dsNamespace daemonSet) (dsName daemonSet);
               h2 = h1 @ [GetDaemonSetObj (dsNamespace daemonSet) (dsName daemonSet)]
           in case resp of
                Inl err \<Rightarrow>
                  if IsNotFound err then
                    (case set_controller_reference env (cfgName rmdConfig) (dsOwner daemonSet) of
                       Inl err \<Rightarrow> (Some err, h2)
                     | Inr owner \<Rightarrow>
                         let owned = daemonSet\<lparr>dsOwner := owner\<rparr>
                         in (create_daemon_set env h2 owned, h2 @ [CreateDaemonSetObj owned]))
                  else sync_selector env rmdConfig daemonSet h2
              | Inr found \<Rightarrow> sync_selector env rmdConfig found h2)
     }"

definition zero_DaemonSet :: DaemonSet where
  "zero_DaemonSet =
     \<lparr>dsName = '''', dsNamespace = '''', dsOwner = None, dsNodeSelector = None, dsContainers = []\<rparr>"

definition deleteDaemonSetIfPresent :: "'c env \<Rightarrow> string \<Rightarrow> trace \<Rightarrow> gerr option \<times> trace" where
  "deleteDaemonSetIfPresent env name h =
     (let resp = get_daemon_set env h configNamespace name;
          h1 = h @ [GetDaemonSetObj configNamespace name]
      in case resp of
           Inl err \<Rightarrow>
             if IsNotFound err then (None, h1)
             else (delete_daemon_set env h1 zero_DaemonSet, h1 @ [DeleteDaemonSetObj zero_DaemonSet])
         | Inr daemonSet \<Rightarrow> (delete_daemon_set env h1 daemonSet, h1 @ [DeleteDaemonSetObj daemonSet]))"

section \<open>Node states\<close>

definition new_node_state :: "string \<Rightarrow> RmdNodeState" where
  "new_node_state node =
     \<lparr>nsName = rmdNodeStateNameConst @ node, nsNamespace = configNamespace, nsOwner = None,
      nsSpec = \<lparr>nsNode = node, nsNodeUID = ''''\<rparr>, nsWorkloads = []\<rparr>"

definition createNodeStateIfNotPresent ::
  "'c env \<Rightarrow> string \<Rightarrow> RmdConfig \<Rightarrow> trace \<Rightarrow> gerr option \<times> trace"
where
  "createNodeStateIfNotPresent env node rmdConfig h =
     (let name = rmdNodeStateNameConst @ node;
          resp = get_node_state env h configNamespace name;
          h1 = h @ [GetNodeStateCR configNamespace name]
      in case resp of
           Inr _ \<Rightarrow> (None, h1)
         | Inl err \<Rightarrow>
             if IsNotFound err then
               (case set_controller_reference env (cfgName rmdConfig) (nsOwner (new_node_state node)) of
                  Inl err \<Rightarrow> (Some err, h1)
                | Inr owner \<Rightarrow>
                    let rmdNodeState = (new_node_state node)\<lparr>nsOwner := owner\<rparr>
                    in (create_node_state env h1 rmdNodeState, h1 @ [CreateNodeStateCR rmdNodeState]))
             else (None, h1))"

fun node_loop ::
  "'c env \<Rightarrow> RmdConfig \<Rightarrow> Node list \<Rightarrow> RmdNodeData \<Rightarrow> trace \<Rightarrow> gerr option \<times> RmdNodeData \<times> trace"
where
  "node_loop env rmdConfig [] rmdNodeData h = (None, rmdNodeData, h)"
| "node_loop env rmdConfig (node # nodes) rmdNodeData h =
     (case createNodeStateIfNotPresent env (nodeName node) rmdConfig h of
        (Some err, h') \<Rightarrow> (Some err, rmdNodeData, h')
      | (None, h') \<Rightarrow> node_loop env rmdConfig nodes (UpdateRmdNodeData (nodeName node) rmdNodeData) h')"

section \<open>Reconcile\<close>

definition sync_node_agent :: "'c env \<Rightarrow> RmdConfig \<Rightarrow> trace \<Rightarrow> (gerr option \<times> trace) option" where
  "sync_node_agent env rmdConfig h =
     (if DeployNodeAgent (cfgSpec rmdConfig)
      then createDaemonSetIfNotPresent env rmdConfig nodeAgentDaemonSetPath h
      else Some (deleteDaemonSetIfPresent env nodeAgentNameConst h))"

definition label_nodes ::
  "'c env \<Rightarrow> RmdConfig \<Rightarrow> RmdNodeData \<Rightarrow> trace \<Rightarrow> (Result \<times> gerr option) \<times> RmdNodeData \<times> trace"
where
  "label_nodes env rmdConfig rmdNodeData h =
     (let listOption = (case RmdNodeSelector (cfgSpec rmdConfig) of None \<Rightarrow> [] | Some m \<Rightarrow> m);
          resp = list_nodes env h listOption;
          h1 = h @ [ListNodes listOption]
      in case resp of
           Inl err \<Rightarrow> ((no_requeue, Some err), rmdNodeData, h1)
         | Inr labelledNodeList \<Rightarrow>
             if length labelledNodeList = 0 then ((requeue_after 5, None), rmdNodeData, h1)
             else
               case node_loop env rmdConfig labelledNodeList rmdNodeData h1 of
                 (Some err, nd, h2) \<Rightarrow> ((no_requeue, Some err), nd, h2)
               | (None, nd, h2) \<Rightarrow>
                   ((requeue_after 5, None), nd,
                    h2 @ [UpdateConfigStatus (rmdConfig\<lparr>cfgStatusNodes := RmdNodeList nd\<rparr>)]))"

definition ReconcileConfig ::
  "'c env \<Rightarrow> RmdNodeData \<Rightarrow> Request \<Rightarrow> trace \<Rightarrow> ((Result \<times> gerr option) \<times> RmdNodeData \<times> trace) option"
where
  "ReconcileConfig env rmdNodeData request h =
     (let resp = get_config env h (reqNamespace request) (reqName request);
          h0 = h @ [GetConfigCR (reqNamespace request) (reqName request)]
      in case resp of
           Inl err \<Rightarrow>
             Some ((no_requeue, if IsNotFound err then None else Some err), rmdNodeData, h0)
         | Inr rmdConfig \<Rightarrow>
             do {
               (err1, h1) \<leftarrow> createDaemonSetIfNotPresent env rmdConfig rmdDaemonSetPath h0;
               (case err1 of
                  Some err \<Rightarrow> Some ((no_requeue, Some err), rmdNodeData, h1)
                | None \<Rightarrow>
                  do {
                    (err2, h2) \<leftarrow> sync_node_agent env rmdConfig h1;
                    Some (case err2 of
                        Some err \<Rightarrow> ((no_requeue, Some err), rmdNodeData, h2)
                      | None \<Rightarrow> label_nodes env rmdConfig rmdNodeData h2)
                  })
             })"

end
