(* ===== verification/Rmd_Client.thy ===== *)
theory Rmd_Client
  imports Cluster_Env
begin

text \<open>
  \<open>pkg/rmd\<close>: the HTTP client of the RMD service. Its construction with the TLS check, the
  queries, the translation of an \<open>RmdWorkload\<close> into the workload RMD expects, the three
  requests that change an RMD instance, and the translation of a workload back into the map
  an \<open>RmdNodeState\<close> shows.
\<close>

section \<open>The client\<close>

text \<open>
  \<open>*http.Client\<close> is seen through what distinguishes the two clients the code builds: the
  default client has no transport of its own, the TLS client has one.
\<close>

record http_client =
  tlsTransport :: bool

record OperatorRmdClient =
  rcClient :: http_client

definition DefaultClient :: http_client where
  "DefaultClient = \<lparr>tlsTransport = False\<rparr>"

definition NewDefaultOperatorRmdClient :: OperatorRmdClient where
  "NewDefaultOperatorRmdClient = \<lparr>rcClient = \<lparr>tlsTransport = False\<rparr>\<rparr>"

datatype private_key = RsaKey int64 | EcdsaKey int64 | OtherKey

fun key_length_ok :: "int64 \<Rightarrow> gerr option" where
  "key_length_ok keyLength =
     (if sint keyLength < 2048 then Some (BadRequest ''key length less than 2048'') else None)"

fun verifyKeyLength :: "private_key \<Rightarrow> gerr option" where
  "verifyKeyLength (RsaKey bitLen) = key_length_ok bitLen"
| "verifyKeyLength (EcdsaKey bitSize) = key_length_ok bitSize"
| "verifyKeyLength OtherKey = Some (BadRequest ''unsupported private key'')"

text \<open>
  \<open>NewOperatorRmdClient\<close>, given what loading the key pair and reading the CA file return.
\<close>

definition NewOperatorRmdClient :: "gerr + private_key \<Rightarrow> gerr option \<Rightarrow> gerr + OperatorRmdClient" where
  "NewOperatorRmdClient cert caCert =
     (case cert of
        Inl err \<Rightarrow> Inl err
      | Inr key \<Rightarrow>
        case verifyKeyLength key of
          Some err \<Rightarrow> Inl err
        | None \<Rightarrow>
          case caCert of
            Some err \<Rightarrow> Inl err
          | None \<Rightarrow> Inr \<lparr>rcClient = \<lparr>tlsTransport = True\<rparr>\<rparr>)"

text \<open>
  \<open>isTLSEnabled\<close> reads the manifest of the RMD daemon set; the type assertion panics on a
  manifest of another kind.
\<close>

definition isTLSEnabled :: "gerr + manifest \<Rightarrow> (gerr + bool) option" where
  "isTLSEnabled m =
     (case m of
        Inl err \<Rightarrow> Some (Inl err)
      | Inr OtherKind \<Rightarrow> None
      | Inr (DaemonSetManifest rmdDS) \<Rightarrow>
        let err = ServiceUnavailable ''container not found in rmd ds manifest'' in
        case dsContainers rmdDS of
          [] \<Rightarrow> Some (Inl err)
        | c # _ \<Rightarrow>
          case cPorts c of
            [] \<Rightarrow> Some (Inl err)
          | p # _ \<Rightarrow> Some (Inr (p = 8443)))"

definition NewClient ::
  "gerr + manifest \<Rightarrow> gerr + private_key \<Rightarrow> gerr option \<Rightarrow> OperatorRmdClient option"
where
  "NewClient m cert caCert =
     do {
       tls \<leftarrow> isTLSEnabled m;
       Some (case tls of
           Inl err \<Rightarrow> NewDefaultOperatorRmdClient
         | Inr tlsEnabled \<Rightarrow>
             if tlsEnabled then
               (case NewOperatorRmdClient cert caCert of
                  Inl err \<Rightarrow> NewDefaultOperatorRmdClient
                | Inr operatorRmdClient \<Rightarrow> operatorRmdClient)
             else NewDefaultOperatorRmdClient)
     }"

definition GetAddressPrefix :: "OperatorRmdClient \<Rightarrow> string" where
  "GetAddressPrefix rc = (if rcClient rc = DefaultClient then ''http://'' else ''https://'')"

section \<open>Queries\<close>

text \<open>The URLs of the service, \<open>fmt.Sprintf\<close> of the address and a path.\<close>

definition infos_url :: "string \<Rightarrow> string" where
  "infos_url address = address @ ''/v1/cache/l3''"

definition workloads_url :: "string \<Rightarrow> string" where
  "workloads_url address = address @ ''/v1/workloads''"

definition workload_url :: "string \<Rightarrow> string \<Rightarrow> string" where
  "workload_url address workloadID = address @ ''/v1/workloads/'' @ workloadID"

definition GetInfos :: "'c env \<Rightarrow> string \<Rightarrow> trace \<Rightarrow> (gerr + CacheInfo list) \<times> trace" where
  "GetInfos env address h =
     (let httpString = infos_url address;
          resp = http_get env h httpString;
          h' = h @ [HttpGet httpString]
      in case resp of
           Inl err \<Rightarrow> (Inl err, h')
         | Inr receivedJSON \<Rightarrow> (decode_infos env receivedJSON, h'))"

definition GetWorkloads :: "'c env \<Rightarrow> string \<Rightarrow> trace \<Rightarrow> (gerr + RDTWorkLoad option list) \<times> trace" where
  "GetWorkloads env address h =
     (let httpString = workloads_url address;
          resp = http_get env h httpString;
          h' = h @ [HttpGet httpString]
      in case resp of
           Inl err \<Rightarrow> (Inl err, h')
         | Inr receivedJSON \<Rightarrow> (decode_workloads env receivedJSON, h'))"

text \<open>The search dereferences every entry up to the one it finds: \<open>None\<close> is the panic on a nil entry.\<close>

fun FindWorkloadByName :: "RDTWorkLoad option list \<Rightarrow> string \<Rightarrow> RDTWorkLoad option" where
  "FindWorkloadByName [] workloadName = Some zero_RDTWorkLoad"
| "FindWorkloadByName (entry # workloads) workloadName =
     do {
       workload \<leftarrow> entry;
       if UUID workload = workloadName then Some workload else FindWorkloadByName workloads workloadName
     }"

text \<open>The sum of the available ways fields, each read as a hexadecimal number.\<close>

fun available_ways_loop :: "CacheInfo list \<Rightarrow> int64 \<Rightarrow> gerr + int64" where
  "available_ways_loop [] availableWays = Inr availableWays"
| "available_ways_loop (cache # caches) availableWays =
     (case ParseInt64 16 (AvailableWays cache) of
        Inl err \<Rightarrow> Inl err
      | Inr availableWaysTemp \<Rightarrow> available_ways_loop caches (availableWays + availableWaysTemp))"

definition GetAvailableCacheWays :: "'c env \<Rightarrow> string \<Rightarrow> trace \<Rightarrow> (gerr + int64) \<times> trace" where
  "GetAvailableCacheWays env address h =
     (case GetInfos env address h of
        (Inl err, h') \<Rightarrow> (Inl err, h')
      | (Inr caches, h') \<Rightarrow> (available_ways_loop caches 0, h'))"

fun all_cpus_loop :: "'c env \<Rightarrow> CacheInfo list \<Rightarrow> 'c \<Rightarrow> gerr + 'c" where
  "all_cpus_loop env [] hostCPUSet = Inr hostCPUSet"
| "all_cpus_loop env (cache # caches) hostCPUSet =
     (case cpu_parse env (ShareCPUList cache) of
        Inl err \<Rightarrow> Inl err
      | Inr cacheCPUSet \<Rightarrow> all_cpus_loop env caches (cpu_union env hostCPUSet cacheCPUSet))"

definition getAllCPUs :: "'c env \<Rightarrow> string \<Rightarrow> trace \<Rightarrow> (gerr + string) \<times> trace" where
  "getAllCPUs env address h =
     (case GetInfos env address h of
        (Inl err, h') \<Rightarrow> (Inl err, h')
      | (Inr caches, h') \<Rightarrow>
          (case all_cpus_loop env caches (cpu_empty env) of
             Inl err \<Rightarrow> (Inl err, h')
           | Inr hostCPUSet \<Rightarrow> (Inr (cpu_string env hostCPUSet), h')))"

section \<open>Cache ways as devices\<close>

record Device =
  devID :: string
  Health :: string
  numaNodes :: "int64 list"

definition Healthy :: string where
  "Healthy = ''Healthy''"

text \<open>
  \<open>cpuset.MustParse\<close> ends the process on a malformed list: \<open>None\<close>. The inner loop over the
  pools looks for the key \<open>guaranteed\<close>.
\<close>

fun pool_loop :: "'c env \<Rightarrow> (string \<times> string) list \<Rightarrow> int64 list \<Rightarrow> int64 list option" where
  "pool_loop env [] cacheWaysSlice = Some cacheWaysSlice"
| "pool_loop env ((pool, cacheWays) # pools) cacheWaysSlice =
     (if pool = ''guaranteed'' then
        (case cpu_parse env cacheWays of
           Inl err \<Rightarrow> None
         | Inr c \<Rightarrow> pool_loop env pools (cpu_slice env c))
      else pool_loop env pools cacheWaysSlice)"

definition device_id :: "string \<Rightarrow> int64 \<Rightarrow> string" where
  "device_id node cacheWay = node @ Itoa cacheWay"

fun ways_loop :: "string \<Rightarrow> int64 list \<Rightarrow> Device smap \<Rightarrow> gerr + Device smap" where
  "ways_loop node [] devices = Inr devices"
| "ways_loop node (cacheWay # ways) devices =
     (case Atoi node of
        Inl err \<Rightarrow> Inl err
      | Inr numaNode \<Rightarrow>
          let i = device_id node cacheWay;
              dev = \<lparr>devID = i, Health = Healthy, numaNodes = [numaNode]\<rparr>
          in ways_loop node ways (AList.update i dev devices))"

fun pools_loop :: "'c env \<Rightarrow> CacheInfo list \<Rightarrow> Device smap \<Rightarrow> (gerr + Device smap) option" where
  "pools_loop env [] devices = Some (Inr devices)"
| "pools_loop env (cache # caches) devices =
     do {
       ways \<leftarrow> pool_loop env (AvailableWaysPool cache) [];
       case ways_loop (cacheNode cache) ways devices of
         Inl err \<Rightarrow> Some (Inl err)
       | Inr devices' \<Rightarrow> pools_loop env caches devices'
     }"

definition local_address :: "OperatorRmdClient \<Rightarrow> string" where
  "local_address rc =
     (let addressPrefix = GetAddressPrefix rc in
      if addressPrefix = ''http://'' then addressPrefix @ ''127.0.0.1'' @ '':'' @ ''8081''
      else if addressPrefix = ''https://'' then addressPrefix @ ''127.0.0.1'' @ '':'' @ ''8443''
      else '''')"

definition GetGuaranteedCacheWayPools ::
  "'c env \<Rightarrow> OperatorRmdClient \<Rightarrow> trace \<Rightarrow> ((gerr + Device smap) \<times> trace) option"
where
  "GetGuaranteedCacheWayPools env rc h =
     (case GetInfos env (local_address rc) h of
        (Inl err, h') \<Rightarrow> Some (Inl err, h')
      | (Inr caches, h') \<Rightarrow>
          do { r \<leftarrow> pools_loop env caches []; Some (r, h') })"

section \<open>From an RmdWorkload to a workload of RMD\<close>

text \<open>
  The CPU list of a request: all CPUs of the host without the reserved ones, as one string,
  or the list of the spec. \<open>MustParse\<close> of the reserved list ends the process on a malformed
  list.
\<close>

definition final_cpus :: "'c env \<Rightarrow> string list \<Rightarrow> string \<Rightarrow> string option" where
  "final_cpus env reserved allCores =
     (if length reserved \<noteq> 0 then
        (case cpu_parse env (Join reserved '','') of
           Inl err \<Rightarrow> None
         | Inr rsvdCPUSet \<Rightarrow>
           case cpu_parse env allCores of
             Inl err \<Rightarrow> None
           | Inr allCoresCPUSet \<Rightarrow>
               Some (cpu_string env (cpu_difference env allCoresCPUSet rsvdCPUSet)))
      else Some allCores)"

definition core_ids ::
  "'c env \<Rightarrow> RmdWorkloadSpec \<Rightarrow> string \<Rightarrow> trace \<Rightarrow> ((gerr + string list) \<times> trace) option"
where
  "core_ids env spec address h =
     (if AllCores spec then
        (case getAllCPUs env address h of
           (Inl err, h') \<Rightarrow> Some (Inl err, h')
         | (Inr allCores, h') \<Rightarrow>
             do { cpus \<leftarrow> final_cpus env (ReservedCoreIds spec) allCores; Some (Inr [cpus], h') })
      else Some (Inr (CoreIds spec), h))"

text \<open>
  A number of the spec as a pointer to \<open>uint32\<close>: the conversion keeps the low 32 bits. The
  MBA numbers are left out when they are 0 after the conversion.
\<close>

definition to_uint32 :: "int64 \<Rightarrow> uint32" where
  "to_uint32 x = ucast x"

definition nonzero_uint32 :: "int64 \<Rightarrow> uint32 option" where
  "nonzero_uint32 x = (if to_uint32 x \<noteq> 0 then Some (to_uint32 x) else None)"

text \<open>The plugins of the request: the P-State ratio as a float, the monitoring mode as it is.\<close>

definition format_plugins :: "Pstate \<Rightarrow> gerr + plugins" where
  "format_plugins p =
     (let ratio_result =
        (if length (Ratio p) \<noteq> 0 then
           (case ParseFloat (Ratio p) of
              Inl err \<Rightarrow> Inl err
            | Inr ratio \<Rightarrow> if float_nonzero ratio then Inr [(''ratio'', JNum ratio)] else Inr [])
         else Inr [])
      in case ratio_result of
           Inl err \<Rightarrow> Inl err
         | Inr ps \<Rightarrow>
             let ps' = (if length (Monitoring p) \<noteq> 0
                        then AList.update ''monitoring'' (JStr (Monitoring p)) ps else ps)
             in Inr (if ps' = [] then [] else [(''pstate'', ps')]))"

definition formatWorkload ::
  "'c env \<Rightarrow> RmdWorkload \<Rightarrow> string \<Rightarrow> trace \<Rightarrow> ((gerr + RDTWorkLoad) \<times> trace) option"
where
  "formatWorkload env workloadCR address h =
     do {
       let spec = wlSpec workloadCR;
       (cores, h') \<leftarrow> core_ids env spec address h;
       Some (case cores of
           Inl err \<Rightarrow> Inl err
         | Inr coreIDs \<Rightarrow>
           case format_plugins (pstate (specPlugins spec)) of
             Inl err \<Rightarrow> Inl err
           | Inr ps \<Rightarrow>
             Inr (zero_RDTWorkLoad\<lparr>
               UUID := wlName workloadCR,
               rdtPolicy := Policy spec,
               CoreIDs := coreIDs,
               rdtCacheMax := Some (to_uint32 (cacheMax (rdtCache (specRdt spec)))),
               rdtCacheMin := Some (to_uint32 (cacheMin (rdtCache (specRdt spec)))),
               rdtPercentage := nonzero_uint32 (Percentage (rdtMba (specRdt spec))),
               rdtMbps := nonzero_uint32 (Mbps (rdtMba (specRdt spec))),
               rdtPlugins := ps\<rparr>), h')
     }"

section \<open>The requests that change an RMD instance\<close>

definition status_error :: gerr where
  "status_error = ServiceUnavailable ''Response status code error''"

text \<open>
  \<open>json.Marshal\<close> of the request; the body of the request carries the workload it encodes.
\<close>

definition marshal_workload :: "RDTWorkLoad \<Rightarrow> gerr + RDTWorkLoad" where
  "marshal_workload w = (if plugins_marshalable (rdtPlugins w) then Inr w else Inl unsupported_value)"

definition PostWorkload ::
  "'c env \<Rightarrow> RmdWorkload \<Rightarrow> string \<Rightarrow> trace \<Rightarrow> ((string \<times> gerr option) \<times> trace) option"
where
  "PostWorkload env workloadCR address h =
     do {
       (data, h1) \<leftarrow> formatWorkload env workloadCR address h;
       Some (case data of
           Inl err \<Rightarrow> (('''', Some err), h1)
         | Inr w \<Rightarrow>
           case marshal_workload w of
             Inl err \<Rightarrow> ((''Failed to marshal payload data'', Some err), h1)
           | Inr body \<Rightarrow>
             let httpString = workloads_url address in
             case new_request env ''POST'' httpString of
               Some err \<Rightarrow> ((''Failed to create new http post request'', Some err), h1)
             | None \<Rightarrow>
               let resp = http_send env h1 ''POST'' httpString (Some body);
                   h2 = h1 @ [HttpSend ''POST'' httpString (Some body)]
               in case resp of
                    DoFailed err \<Rightarrow> ((''Failed to set header for http post request'', Some err), h2)
                  | ReadFailed err \<Rightarrow> ((''Failed to read response to buffer'', Some err), h2)
                  | Answer code respStr \<Rightarrow>
                      if code \<noteq> 201 \<and> code \<noteq> 200
                      then ((''Fail: '' @ respStr, Some status_error), h2)
                      else ((''Success: '' @ show_int code, None), h2))
     }"

definition PatchWorkload ::
  "'c env \<Rightarrow> RmdWorkload \<Rightarrow> string \<Rightarrow> string \<Rightarrow> trace \<Rightarrow> ((string \<times> gerr option) \<times> trace) option"
where
  "PatchWorkload env workloadCR address workloadID h =
     do {
       (data, h1) \<leftarrow> formatWorkload env workloadCR address h;
       Some (case data of
           Inl err \<Rightarrow> (('''', Some err), h1)
         | Inr w \<Rightarrow>
           case marshal_workload w of
             Inl err \<Rightarrow> ((''Failed to marshal payload data'', Some err), h1)
           | Inr body \<Rightarrow>
             let httpString = workload_url address workloadID in
             case new_request env ''PATCH'' httpString of
               Some err \<Rightarrow> ((''Failed to create new http patch request'', Some err), h1)
             | None \<Rightarrow>
               let resp = http_send env h1 ''PATCH'' httpString (Some body);
                   h2 = h1 @ [HttpSend ''PATCH'' httpString (Some body)]
               in case resp of
                    DoFailed err \<Rightarrow> ((''Failed to set header for http patch request'', Some err), h2)
                  | ReadFailed err \<Rightarrow> ((''Failed to read response to buffer'', Some err), h2)
                  | Answer code respStr \<Rightarrow>
                      if code \<noteq> 200
                      then ((''Fail: '' @ respStr, Some status_error), h2)
                      else ((''Success: '' @ show_int code, None), h2))
     }"

definition DeleteWorkload ::
  "'c env \<Rightarrow> string \<Rightarrow> string \<Rightarrow> trace \<Rightarrow> gerr option \<times> trace"
where
  "DeleteWorkload env address workloadID h =
     (let httpString = workload_url address workloadID in
      case new_request env ''DELETE'' httpString of
        Some err \<Rightarrow> (Some err, h)
      | None \<Rightarrow>
        let resp = http_send env h ''DELETE'' httpString None;
            h' = h @ [HttpSend ''DELETE'' httpString None]
        in case resp of
             DoFailed err \<Rightarrow> (Some err, h')
           | ReadFailed err \<Rightarrow> (Some err, h')
           | Answer code respStr \<Rightarrow> (if code \<noteq> 200 then Some status_error else None, h'))"

section \<open>From a workload of RMD to the map of an RmdNodeState\<close>

definition put_string :: "string \<Rightarrow> string \<Rightarrow> string smap \<Rightarrow> string smap" where
  "put_string key s m = (if s \<noteq> '''' then AList.update key s m else m)"

text \<open>\<open>strconv.Itoa(int(*p))\<close>: the \<open>uint32\<close> widens without a sign.\<close>

definition from_uint32 :: "uint32 \<Rightarrow> int64" where
  "from_uint32 x = ucast x"

definition put_uint32 :: "string \<Rightarrow> uint32 option \<Rightarrow> string smap \<Rightarrow> string smap" where
  "put_uint32 key p m =
     (case p of None \<Rightarrow> m | Some x \<Rightarrow> AList.update key (Itoa (from_uint32 x)) m)"

definition put_json :: "string \<Rightarrow> (json \<Rightarrow> string) \<Rightarrow> json option \<Rightarrow> string smap \<Rightarrow> string smap" where
  "put_json key fmt v m =
     (case v of None \<Rightarrow> m | Some JNull \<Rightarrow> m | Some x \<Rightarrow> AList.update key (fmt x) m)"

definition workload_entries :: "RDTWorkLoad \<Rightarrow> WorkloadMap" where
  "workload_entries workload =
     (let m1 = put_string ''ID'' (rdtID workload) [];
          m2 = (if length (CoreIDs workload) \<noteq> 0
                then AList.update ''Core IDs'' (Join (CoreIDs workload) '','') m1 else m1);
          m3 = put_string ''Status'' (rdtStatus workload) m2;
          m4 = put_string ''Cos Name'' (CosName workload) m3;
          m5 = put_uint32 ''Cache Max'' (rdtCacheMax workload) m4;
          m6 = put_uint32 ''Cache Min'' (rdtCacheMin workload) m5;
          m7 = put_uint32 ''MBA Percentage'' (rdtPercentage workload) m6;
          m8 = put_uint32 ''MBA Mbps'' (rdtMbps workload) m7;
          m9 = put_string ''Origin'' (Origin workload) m8
      in put_string ''Policy'' (rdtPolicy workload) m9)"

definition UpdateNodeStatusWorkload :: "'c env \<Rightarrow> RDTWorkLoad \<Rightarrow> gerr + WorkloadMap" where
  "UpdateNodeStatusWorkload env workload =
     (let workloadMap = workload_entries workload
      in if length (rdtPlugins workload) = 0 then Inr workloadMap
         else case json_plugins_round_trip (rdtPlugins workload) of
           Inl err \<Rightarrow> Inl err
         | Inr pluginsMap \<Rightarrow>
             (case map_of pluginsMap ''pstate'' of
                None \<Rightarrow> Inr workloadMap
              | Some pstateMap \<Rightarrow>
                  Inr (put_json ''P-State Monitoring'' (sprintf_v (format_g env)) (map_of pstateMap ''monitoring'')
                    (put_json ''P-State Ratio'' sprintf_f (map_of pstateMap ''ratio'') workloadMap))))"

end
