(* ===== verification/Rmd_Client_Facts.thy ===== *)
theory Rmd_Client_Facts
  imports Rmd_Client "HOL-Library.Multiset"
begin

text \<open>
  Facts about the RMD client: which calls each operation makes, the contract its two
  workload requests share, the arithmetic of the numbers that cross the interface, the CPU
  list of a request, the device map, and the choice of the client.
\<close>

section \<open>Calls\<close>

lemma GetInfos_read_only [trace_ext]: "GetInfos env a h = (r, h') \<Longrightarrow> read_only h h'"
  by (auto simp: GetInfos_def Let_def split: sum.splits)

lemma GetWorkloads_read_only [trace_ext]: "GetWorkloads env a h = (r, h') \<Longrightarrow> read_only h h'"
  by (auto simp: GetWorkloads_def Let_def split: sum.splits)

lemma getAllCPUs_read_only [trace_ext]: "getAllCPUs env a h = (r, h') \<Longrightarrow> read_only h h'"
  by (auto simp: getAllCPUs_def split: prod.splits sum.splits dest: GetInfos_read_only)

lemma core_ids_read_only [trace_ext]: "core_ids env spec a h = Some (r, h') \<Longrightarrow> read_only h h'"
  by (auto simp: core_ids_def split: prod.splits sum.splits if_splits Option.bind_splits
      dest: getAllCPUs_read_only)

lemma formatWorkload_read_only [trace_ext]:
  "formatWorkload env wl a h = Some (r, h') \<Longrightarrow> read_only h h'"
  by (auto simp: formatWorkload_def Let_def split: Option.bind_splits dest: core_ids_read_only)

lemma GetWorkloads_writes [simp]: "GetWorkloads env a h = (r, h') \<Longrightarrow> writes h' = writes h"
  by (rule read_only_writes) (rule GetWorkloads_read_only)

lemma formatWorkload_writes: "formatWorkload env wl a h = Some (r, h') \<Longrightarrow> writes h' = writes h"
  by (rule read_only_writes) (rule formatWorkload_read_only)

lemma DeleteWorkload_writes:
  assumes "DeleteWorkload env a i h = (err, h')"
  shows "writes h' = writes h @
      (if new_request env ''DELETE'' (workload_url a i) = None
       then [HttpSend ''DELETE'' (workload_url a i) None] else [])"
proof (cases "new_request env ''DELETE'' (workload_url a i)")
  case None
  with assms show ?thesis by (auto simp: DeleteWorkload_def Let_def split: send_result.splits)
next
  case (Some e)
  then have "DeleteWorkload env a i h = (Some e, h)" by (simp add: DeleteWorkload_def Let_def)
  with assms have "h' = h" by simp
  with Some show ?thesis by simp
qed

lemma formatWorkload_UUID: "formatWorkload env wl a h = Some (Inr w, h') \<Longrightarrow> UUID w = wlName wl"
  by (auto simp: formatWorkload_def Let_def split: Option.bind_splits sum.splits)

section \<open>The contract of a workload request\<close>

text \<open>
  POST and PATCH share a contract. The locale states it: what the caller gets and what
  is sent, as a function of the formatted workload and of the answer of the service.
\<close>

fun request_outcome :: "(int \<Rightarrow> bool) \<Rightarrow> send_result \<Rightarrow> (string \<times> gerr option) \<Rightarrow> bool" where
  "request_outcome accepted (Answer code body) r \<longleftrightarrow>
     r = (if accepted code then (''Success: '' @ show_int code, None)
          else (''Fail: '' @ body, Some status_error))"
| "request_outcome accepted (DoFailed err) r \<longleftrightarrow> snd r = Some err"
| "request_outcome accepted (ReadFailed err) r \<longleftrightarrow> snd r = Some err"

locale workload_request =
  fixes request :: "'c env \<Rightarrow> RmdWorkload \<Rightarrow> string \<Rightarrow> trace \<Rightarrow> ((string \<times> gerr option) \<times> trace) option"
    and verb :: string
    and url :: "string \<Rightarrow> string"
    and accepted :: "int \<Rightarrow> bool"
  assumes request_crash: "request env wl a h = None \<longleftrightarrow> formatWorkload env wl a h = None"
    and request_cases: "request env wl a h = Some (r, h') \<Longrightarrow>
      (\<exists>f h1. formatWorkload env wl a h = Some (f, h1) \<and>
        ((h' = h1 \<and> snd r \<noteq> None \<and>
            (\<forall>w. f = Inr w \<longrightarrow> \<not> plugins_marshalable (rdtPlugins w) \<or> new_request env verb (url a) \<noteq> None))
         \<or> (\<exists>w. f = Inr w \<and> plugins_marshalable (rdtPlugins w) \<and> new_request env verb (url a) = None \<and>
              h' = h1 @ [HttpSend verb (url a) (Some w)] \<and>
              request_outcome accepted (http_send env h1 verb (url a) (Some w)) r)))"
begin

lemma request_writes:
  assumes "request env wl a h = Some (r, h')"
  shows "(writes h' = writes h \<and> snd r \<noteq> None) \<or>
    (\<exists>w. UUID w = wlName wl \<and> plugins_marshalable (rdtPlugins w) \<and>
       writes h' = writes h @ [HttpSend verb (url a) (Some w)])"
  using request_cases [OF assms] by (auto simp: formatWorkload_writes dest: formatWorkload_UUID)

lemma request_success:
  assumes "request env wl a h = Some ((resp, None), h')"
  shows "\<exists>w h1 code body. formatWorkload env wl a h = Some (Inr w, h1) \<and>
    http_send env h1 verb (url a) (Some w) = Answer code body \<and> accepted code \<and>
    resp = ''Success: '' @ show_int code \<and> writes h' = writes h @ [HttpSend verb (url a) (Some w)]"
proof -
  from request_cases [OF assms] obtain w h1 where
    w: "formatWorkload env wl a h = Some (Inr w, h1)" "h' = h1 @ [HttpSend verb (url a) (Some w)]"
      "request_outcome accepted (http_send env h1 verb (url a) (Some w)) (resp, None)"
    by auto
  then show ?thesis
    by (cases "http_send env h1 verb (url a) (Some w)")
      (auto simp: formatWorkload_writes split: if_splits)
qed

lemma request_refused:
  assumes "request env wl a h = Some ((resp, err), h')"
    and "formatWorkload env wl a h = Some (Inr w, h1)"
    and "http_send env h1 verb (url a) (Some w) = Answer code body"
    and "plugins_marshalable (rdtPlugins w)" and "new_request env verb (url a) = None"
    and "\<not> accepted code"
  shows "resp = ''Fail: '' @ body \<and> err = Some status_error"
  using request_cases [OF assms(1)] assms(2-) by auto

end

interpretation post: workload_request PostWorkload "''POST''" workloads_url
  "\<lambda>code. code = 200 \<or> code = 201"
proof (unfold_locales, goal_cases)
  case (1 env wl a h)
  then show ?case by (cases "formatWorkload env wl a h") (simp_all add: PostWorkload_def split_beta)
next
  case (2 env wl a h r h')
  then show ?case
    by (auto simp: PostWorkload_def Let_def marshal_workload_def
        split: Option.bind_splits sum.splits if_splits option.splits send_result.splits)
qed

interpretation patch: workload_request "\<lambda>env wl a. PatchWorkload env wl a i" "''PATCH''"
  "\<lambda>a. workload_url a i" "\<lambda>code. code = 200" for i
proof (unfold_locales, goal_cases)
  case (1 env wl a h)
  then show ?case by (cases "formatWorkload env wl a h") (simp_all add: PatchWorkload_def split_beta)
next
  case (2 env wl a h r h')
  then show ?case
    by (auto simp: PatchWorkload_def Let_def marshal_workload_def
        split: Option.bind_splits sum.splits if_splits option.splits send_result.splits)
qed

section \<open>Numbers across the interface\<close>

lemma uint_to_uint32: "uint (to_uint32 x) = sint x mod 2 ^ 32"
proof -
  have "uint (to_uint32 x) = take_bit 32 (uint x)"
    by (simp add: to_uint32_def unsigned_ucast_eq)
  also have "\<dots> = take_bit 32 (signed_take_bit 63 (uint x))"
    by (simp add: take_bit_signed_take_bit)
  also have "\<dots> = take_bit 32 (sint x)"
    by (simp add: sint_uint)
  finally show ?thesis by (simp add: take_bit_eq_mod)
qed

lemma uint_from_uint32: "uint (from_uint32 x) = uint x"
proof -
  have "uint x < 2 ^ 32" using uint_lt2p [of x] by simp
  then have "take_bit 64 (uint x) = uint x" by (simp add: take_bit_int_eq_self)
  then show ?thesis by (simp add: from_uint32_def unsigned_ucast_eq)
qed

lemma sint_from_uint32: "sint (from_uint32 x) = uint x"
proof -
  have "0 \<le> uint x" "uint x < 2 ^ 32" using uint_lt2p [of x] by simp_all
  then have "signed_take_bit 63 (uint x) = uint x"
    by (intro signed_take_bit_int_eq_self) (simp_all add: order_trans [OF _ \<open>0 \<le> uint x\<close>])
  then show ?thesis using uint_from_uint32 [of x] by (simp add: sint_uint)
qed

text \<open>A number of the spec, sent and read back, is its residue modulo \<open>2^32\<close>.\<close>

lemma sint_through_uint32: "sint (from_uint32 (to_uint32 x)) = sint x mod 2 ^ 32"
  by (simp only: sint_from_uint32 uint_to_uint32)

lemma through_uint32: "0 \<le> sint x \<Longrightarrow> sint x < 2 ^ 32 \<Longrightarrow> from_uint32 (to_uint32 x) = x"
  using sint_through_uint32 [of x] by (simp add: signed_word_eqI)

lemma through_uint32_iff: "from_uint32 (to_uint32 x) = x \<longleftrightarrow> 0 \<le> sint x \<and> sint x < 2 ^ 32"
proof
  assume "from_uint32 (to_uint32 x) = x"
  then have "sint x = sint x mod 2 ^ 32" using sint_through_uint32 [of x] by simp
  moreover have "0 \<le> sint x mod 2 ^ 32 \<and> sint x mod 2 ^ 32 < (2 ^ 32 :: int)" by simp
  ultimately show "0 \<le> sint x \<and> sint x < 2 ^ 32" by linarith
qed (rule through_uint32, simp_all)

lemma nonzero_uint32_None: "nonzero_uint32 x = None \<longleftrightarrow> 2 ^ 32 dvd sint x"
proof -
  have "nonzero_uint32 x = None \<longleftrightarrow> uint (to_uint32 x) = 0"
    by (auto simp: nonzero_uint32_def uint_0_iff)
  then show ?thesis by (simp only: uint_to_uint32) (simp add: dvd_eq_mod_eq_0)
qed

section \<open>The workload sent to RMD\<close>

lemma formatWorkload_eq:
  "formatWorkload env wl a h = Some (Inr w, h') \<longleftrightarrow>
     (\<exists>cores ps. core_ids env (wlSpec wl) a h = Some (Inr cores, h') \<and>
        format_plugins (pstate (specPlugins (wlSpec wl))) = Inr ps \<and>
        w = \<lparr>UUID = wlName wl, rdtID = '''', CoreIDs = cores, rdtStatus = '''', CosName = '''',
             rdtPolicy = Policy (wlSpec wl), Origin = '''',
             rdtCacheMax = Some (to_uint32 (cacheMax (rdtCache (specRdt (wlSpec wl))))),
             rdtCacheMin = Some (to_uint32 (cacheMin (rdtCache (specRdt (wlSpec wl))))),
             rdtPercentage = nonzero_uint32 (Percentage (rdtMba (specRdt (wlSpec wl)))),
             rdtMbps = nonzero_uint32 (Mbps (rdtMba (specRdt (wlSpec wl)))),
             rdtPlugins = ps\<rparr>)"
  by (auto simp: formatWorkload_def Let_def zero_RDTWorkLoad_def split: Option.bind_splits sum.splits)

lemma core_ids_listed: "\<not> AllCores spec \<Longrightarrow> core_ids env spec a h = Some (Inr (CoreIds spec), h)"
  by (simp add: core_ids_def)

lemma format_plugins_no_ratio:
  "Ratio p = '''' \<Longrightarrow> format_plugins p =
     Inr (if Monitoring p = '''' then [] else [(''pstate'', [(''monitoring'', JStr (Monitoring p))])])"
  by (simp add: format_plugins_def)

text \<open>Whatever the spec asks of the plugins, only a ratio that is not finite cannot be encoded.\<close>

lemma not_finite_nonzero: "\<not> is_finite x \<Longrightarrow> float_nonzero x"
  by (cases x) auto

lemma format_plugins_marshalable:
  assumes "format_plugins p = Inr ps"
  shows "plugins_marshalable ps \<longleftrightarrow>
    (Ratio p = '''' \<or> (\<exists>x. ParseFloat (Ratio p) = Inr x \<and> is_finite x))"
  using assms not_finite_nonzero
  by (fastforce simp: format_plugins_def Let_def plugins_marshalable_def split: if_splits sum.splits)

section \<open>CPU lists\<close>

text \<open>
  The documented behaviour of \<open>cpuset\<close> that the code relies on: \<open>cpus\<close> is the set of CPU
  numbers of a value, the operations are those of sets, and the string of a value parses back
  to the same set.
\<close>

definition cpuset_laws :: "'c env \<Rightarrow> ('c \<Rightarrow> int set) \<Rightarrow> bool" where
  "cpuset_laws env cpus \<longleftrightarrow>
     cpus (cpu_empty env) = {} \<and>
     (\<forall>a b. cpus (cpu_union env a b) = cpus a \<union> cpus b) \<and>
     (\<forall>a b. cpus (cpu_difference env a b) = cpus a - cpus b) \<and>
     (\<forall>a. \<exists>b. cpu_parse env (cpu_string env a) = Inr b \<and> cpus b = cpus a) \<and>
     (\<forall>a. sint ` set (cpu_slice env a) = cpus a)"

lemma cpuset_lawsD:
  assumes "cpuset_laws env cpus"
  shows "cpus (cpu_empty env) = {}" "cpus (cpu_union env a b) = cpus a \<union> cpus b"
    "cpus (cpu_difference env a b) = cpus a - cpus b"
    "\<exists>b. cpu_parse env (cpu_string env a) = Inr b \<and> cpus b = cpus a"
    "sint ` set (cpu_slice env a) = cpus a"
  using assms unfolding cpuset_laws_def by (elim conjE, simp)+

text \<open>The CPUs of the host: those of the shared list of every cache.\<close>

definition host_cpus :: "'c env \<Rightarrow> ('c \<Rightarrow> int set) \<Rightarrow> CacheInfo list \<Rightarrow> int set" where
  "host_cpus env cpus caches =
     {i. \<exists>cache \<in> set caches. \<exists>s. cpu_parse env (ShareCPUList cache) = Inr s \<and> i \<in> cpus s}"

lemma all_cpus_loop_Inr:
  assumes "cpuset_laws env cpus" "all_cpus_loop env caches c0 = Inr c"
  shows "cpus c = cpus c0 \<union> host_cpus env cpus caches"
  using assms(2)
proof (induction caches arbitrary: c0)
  case Nil
  then show ?case by (simp add: host_cpus_def)
next
  case (Cons cache caches)
  from Cons.prems obtain s where s: "cpu_parse env (ShareCPUList cache) = Inr s"
    and rest: "all_cpus_loop env caches (cpu_union env c0 s) = Inr c"
    by (auto split: sum.splits)
  have "cpus (cpu_union env c0 s) = cpus c0 \<union> cpus s"
    by (rule cpuset_lawsD(2) [OF assms(1)])
  with Cons.IH [OF rest] s show ?case by (auto simp: host_cpus_def)
qed

lemma getAllCPUs_Inr:
  assumes laws: "cpuset_laws env cpus"
    and "getAllCPUs env a h = (Inr allCores, h')"
  shows "\<exists>caches c. GetInfos env a h = (Inr caches, h') \<and> cpu_parse env allCores = Inr c
    \<and> cpus c = host_cpus env cpus caches"
proof -
  from assms(2) obtain caches c0 where infos: "GetInfos env a h = (Inr caches, h')"
    and loop: "all_cpus_loop env caches (cpu_empty env) = Inr c0"
    and s: "allCores = cpu_string env c0"
    by (auto simp: getAllCPUs_def split: prod.splits sum.splits)
  have "cpus c0 = host_cpus env cpus caches"
    using all_cpus_loop_Inr [OF laws loop] cpuset_lawsD(1) [OF laws] by simp
  moreover obtain c where "cpu_parse env (cpu_string env c0) = Inr c" "cpus c = cpus c0"
    using cpuset_lawsD(4) [OF laws, of c0] by blast
  ultimately show ?thesis using infos s by auto
qed

text \<open>The reserved CPUs of a spec; an empty list reserves nothing.\<close>

definition reserved_cpus :: "'c env \<Rightarrow> ('c \<Rightarrow> int set) \<Rightarrow> string list \<Rightarrow> int set" where
  "reserved_cpus env cpus rs =
     (if rs = [] then {} else {i. \<exists>r. cpu_parse env (Join rs '','') = Inr r \<and> i \<in> cpus r})"

lemma final_cpus_Some:
  assumes laws: "cpuset_laws env cpus"
    and all: "cpu_parse env allCores = Inr c"
    and "final_cpus env rs allCores = Some s"
  shows "\<exists>d. cpu_parse env s = Inr d \<and> cpus d = cpus c - reserved_cpus env cpus rs"
proof (cases "rs = []")
  case True
  with assms show ?thesis by (simp add: final_cpus_def reserved_cpus_def)
next
  case False
  with assms(3) all obtain r where r: "cpu_parse env (Join rs '','') = Inr r"
    and s: "s = cpu_string env (cpu_difference env c r)"
    by (auto simp: final_cpus_def split: sum.splits)
  obtain d where "cpu_parse env s = Inr d" "cpus d = cpus (cpu_difference env c r)"
    using cpuset_lawsD(4) [OF laws] s by blast
  with r False show ?thesis by (simp add: cpuset_lawsD(3) [OF laws] reserved_cpus_def)
qed

lemma final_cpus_None:
  assumes "cpu_parse env allCores = Inr c"
  shows "final_cpus env rs allCores = None \<longleftrightarrow> rs \<noteq> [] \<and> isl (cpu_parse env (Join rs '',''))"
  using assms by (auto simp: final_cpus_def split: sum.splits)

section \<open>Sums of available ways\<close>

text \<open>The value of a field, for fields that parse.\<close>

definition ways_value :: "CacheInfo \<Rightarrow> int64" where
  "ways_value c = (case ParseInt64 16 (AvailableWays c) of Inl _ \<Rightarrow> 0 | Inr n \<Rightarrow> n)"

lemma available_ways_loop_iff:
  "available_ways_loop caches a = Inr n \<longleftrightarrow>
     (\<forall>c \<in> set caches. \<not> isl (ParseInt64 16 (AvailableWays c))) \<and> n = a + sum_list (List.map ways_value caches)"
proof (induction caches arbitrary: a)
  case Nil
  then show ?case by auto
next
  case (Cons c caches)
  then show ?case
    by (cases "ParseInt64 16 (AvailableWays c)") (auto simp: ways_value_def add.assoc)
qed

section \<open>The device map\<close>

text \<open>
  Every device is stored under its own id, is healthy and has one NUMA node; no id twice.
\<close>

definition device_ok :: "string \<times> Device \<Rightarrow> bool" where
  "device_ok kd \<longleftrightarrow>
     devID (snd kd) = fst kd \<and> Health (snd kd) = Healthy \<and> length (numaNodes (snd kd)) = 1"

definition devices_ok :: "Device smap \<Rightarrow> bool" where
  "devices_ok devs \<longleftrightarrow> distinct (List.map fst devs) \<and> (\<forall>kd \<in> set devs. device_ok kd)"

lemma devices_ok_Nil [simp]: "devices_ok []"
  by (simp add: devices_ok_def)

lemma set_update_subset: "set (AList.update k v al) \<subseteq> insert (k, v) (set al)"
  by (induction al) auto

lemma devices_ok_update:
  assumes "devices_ok devs" "device_ok (i, d)"
  shows "devices_ok (AList.update i d devs)"
  using assms set_update_subset [of i d devs]
  by (auto simp: devices_ok_def distinct_update)

lemma ways_loop_ok: "ways_loop node ways devs = Inr devs' \<Longrightarrow> devices_ok devs \<Longrightarrow> devices_ok devs'"
proof (induction ways arbitrary: devs)
  case Nil
  then show ?case by simp
next
  case (Cons w ways)
  then show ?case
    by (auto simp: Let_def device_ok_def split: sum.splits intro!: Cons.IH devices_ok_update)
qed

lemma ways_loop_dom:
  "ways_loop node ways devs = Inr devs' \<Longrightarrow>
     fst ` set devs' = fst ` set devs \<union> device_id node ` set ways"
  by (induction ways arbitrary: devs) (auto simp: Let_def dom_update split: sum.splits)

text \<open>The guaranteed ways of a cache.\<close>

definition guaranteed_ways :: "'c env \<Rightarrow> CacheInfo \<Rightarrow> int64 list option" where
  "guaranteed_ways env cache = pool_loop env (AvailableWaysPool cache) []"

lemma pools_loop_ok:
  "pools_loop env caches devs = Some (Inr devs') \<Longrightarrow> devices_ok devs \<Longrightarrow> devices_ok devs'"
  by (induction caches arbitrary: devs)
    (auto split: Option.bind_splits sum.splits dest: ways_loop_ok)

lemma pools_loop_dom:
  "pools_loop env caches devs = Some (Inr devs') \<Longrightarrow>
     fst ` set devs' = fst ` set devs \<union>
       {device_id (cacheNode c) w | c w. c \<in> set caches \<and> (\<exists>ws. guaranteed_ways env c = Some ws \<and> w \<in> set ws)}"
proof (induction caches arbitrary: devs)
  case Nil
  then show ?case by simp
next
  case (Cons c caches)
  then obtain ws devs1 where ws: "guaranteed_ways env c = Some ws"
    and devs1: "ways_loop (cacheNode c) ws devs = Inr devs1"
    and rest: "pools_loop env caches devs1 = Some (Inr devs')"
    by (auto simp: guaranteed_ways_def split: Option.bind_splits sum.splits)
  show ?case
    using Cons.IH [OF rest] ways_loop_dom [OF devs1] ws by auto
qed

section \<open>The TLS client\<close>

lemma NewOperatorRmdClient_iff:
  "NewOperatorRmdClient cert ca = Inr rc \<longleftrightarrow>
     rc = \<lparr>rcClient = \<lparr>tlsTransport = True\<rparr>\<rparr> \<and> ca = None \<and>
     (\<exists>n. cert \<in> {Inr (RsaKey n), Inr (EcdsaKey n)} \<and> 2048 \<le> sint n)"
proof (cases cert)
  case (Inl e)
  then show ?thesis by (auto simp: NewOperatorRmdClient_def)
next
  case (Inr key)
  then show ?thesis
    by (cases key; cases ca) (auto simp: NewOperatorRmdClient_def not_less)
qed

lemma GetAddressPrefix_clients [simp]:
  "GetAddressPrefix NewDefaultOperatorRmdClient = ''http://''"
  "GetAddressPrefix \<lparr>rcClient = \<lparr>tlsTransport = True\<rparr>\<rparr> = ''https://''"
  by (simp_all add: GetAddressPrefix_def NewDefaultOperatorRmdClient_def DefaultClient_def)

text \<open>The client a TLS configuration gives; an error falls back to the plain client.\<close>

lemma tls_client_cases:
  "(case NewOperatorRmdClient cert ca of Inl err \<Rightarrow> NewDefaultOperatorRmdClient | Inr rc \<Rightarrow> rc) =
     (if ca = None \<and> (\<exists>n. cert \<in> {Inr (RsaKey n), Inr (EcdsaKey n)} \<and> 2048 \<le> sint n)
      then \<lparr>rcClient = \<lparr>tlsTransport = True\<rparr>\<rparr> else NewDefaultOperatorRmdClient)"
proof (cases "ca = None \<and> (\<exists>n. cert \<in> {Inr (RsaKey n), Inr (EcdsaKey n)} \<and> 2048 \<le> sint n)")
  case True
  then have "NewOperatorRmdClient cert ca = Inr \<lparr>rcClient = \<lparr>tlsTransport = True\<rparr>\<rparr>"
    by (simp only: NewOperatorRmdClient_iff simp_thms)
  then show ?thesis by (simp only: sum.case if_P [OF True])
next
  case False
  then have "NewOperatorRmdClient cert ca \<noteq> Inr rc" for rc
    by (simp only: NewOperatorRmdClient_iff simp_thms)
  then obtain e where "NewOperatorRmdClient cert ca = Inl e" by (cases "NewOperatorRmdClient cert ca") auto
  then show ?thesis by (simp only: sum.case if_not_P [OF False])
qed

section \<open>Status maps\<close>

lemma map_of_put_string:
  "map_of (put_string k s a) k' = (if k' = k \<and> s \<noteq> '''' then Some s else map_of a k')"
  by (simp add: put_string_def update_conv')

lemma map_of_put_uint32:
  "map_of (put_uint32 k p a) k' =
     (if k' = k \<and> p \<noteq> None then map_option (show_int \<circ> uint) p else map_of a k')"
  by (cases p) (simp_all add: put_uint32_def update_conv' Itoa_def sint_from_uint32)

lemma map_of_put_json_other: "k' \<noteq> k \<Longrightarrow> map_of (put_json k f v a) k' = map_of a k'"
  by (simp add: put_json_def update_conv' split: option.splits json.splits)

lemma map_of_put_if:
  "map_of (if b then AList.update k v a else a) k' = (if b \<and> k' = k then Some v else map_of a k')"
  by (simp add: update_conv')

lemmas status_entries = map_of_put_string map_of_put_uint32 map_of_put_if

lemma workload_entries_lookup:
  "map_of (workload_entries w) ''ID'' = (if rdtID w = [] then None else Some (rdtID w))"
  "map_of (workload_entries w) ''Core IDs'' = (if CoreIDs w = [] then None else Some (Join (CoreIDs w) '',''))"
  "map_of (workload_entries w) ''Status'' = (if rdtStatus w = [] then None else Some (rdtStatus w))"
  "map_of (workload_entries w) ''Cos Name'' = (if CosName w = [] then None else Some (CosName w))"
  "map_of (workload_entries w) ''Policy'' = (if rdtPolicy w = [] then None else Some (rdtPolicy w))"
  "map_of (workload_entries w) ''Origin'' = (if Origin w = [] then None else Some (Origin w))"
  "map_of (workload_entries w) ''Cache Max'' = map_option (show_int \<circ> uint) (rdtCacheMax w)"
  "map_of (workload_entries w) ''Cache Min'' = map_option (show_int \<circ> uint) (rdtCacheMin w)"
  "map_of (workload_entries w) ''MBA Percentage'' = map_option (show_int \<circ> uint) (rdtPercentage w)"
  "map_of (workload_entries w) ''MBA Mbps'' = map_option (show_int \<circ> uint) (rdtMbps w)"
  unfolding workload_entries_def Let_def status_entries by simp_all

lemma UpdateNodeStatusWorkload_Inr:
  assumes "UpdateNodeStatusWorkload env w = Inr m"
    and "k \<notin> {''P-State Monitoring'', ''P-State Ratio''}"
  shows "map_of m k = map_of (workload_entries w) k"
  using assms
  by (auto simp: UpdateNodeStatusWorkload_def Let_def map_of_put_json_other
      split: if_splits sum.splits option.splits)

end
