(* ===== verification/Reference_Env.thy ===== *)
theory Reference_Env
  imports Rmd_Client_Facts
begin

text \<open>
  A concrete environment for the witnesses: a \<open>CPUSet\<close> is the list of its CPUs, printed and
  parsed as a comma-separated list; the cluster has no object and the RMD service accepts
  every request. A witness replaces the answers its scenario needs.
\<close>

section \<open>Comma-separated lists\<close>

fun split_commas :: "string \<Rightarrow> string list" where
  "split_commas [] = [[]]"
| "split_commas (c # s) =
     (if c = CHR '','' then [] # split_commas s
      else case split_commas s of [] \<Rightarrow> [[c]] | w # ws \<Rightarrow> (c # w) # ws)"

fun all_Inr :: "('e + 'a) list \<Rightarrow> 'e + 'a list" where
  "all_Inr [] = Inr []"
| "all_Inr (Inl e # rs) = Inl e"
| "all_Inr (Inr x # rs) = (case all_Inr rs of Inl e \<Rightarrow> Inl e | Inr xs \<Rightarrow> Inr (x # xs))"

definition list_parse :: "string \<Rightarrow> gerr + int64 list" where
  "list_parse s = (if s = '''' then Inr [] else all_Inr (List.map Atoi (split_commas s)))"

definition list_string :: "int64 list \<Rightarrow> string" where
  "list_string xs = Join (List.map Itoa xs) '',''"

lemma split_commas_nonempty [simp]: "split_commas s \<noteq> []"
  by (cases s) (auto split: list.splits)

lemma split_commas_no_comma: "CHR '','' \<notin> set w \<Longrightarrow> split_commas w = [w]"
  by (induction w) auto

lemma split_commas_append: "CHR '','' \<notin> set w \<Longrightarrow> split_commas (w @ CHR '','' # s) = w # split_commas s"
  by (induction w) auto

lemma split_Join: "ws \<noteq> [] \<Longrightarrow> (\<And>w. w \<in> set ws \<Longrightarrow> CHR '','' \<notin> set w) \<Longrightarrow> split_commas (Join ws '','') = ws"
  by (induction ws "'',''" rule: Join.induct) (auto simp: split_commas_no_comma split_commas_append)

lemma digit_char_no_comma: "d < 36 \<Longrightarrow> digit_char d \<noteq> CHR '',''"
proof -
  have "digit_value CHR '','' = None" by (simp add: digit_value_def)
  then show "d < 36 \<Longrightarrow> digit_char d \<noteq> CHR '',''" by (metis digit_value_char option.distinct(1))
qed

lemma show_base_no_comma:
  assumes "2 \<le> b" "b \<le> 36"
  shows "CHR '','' \<notin> set (show_base b n)"
  using assms
proof (induction b n rule: show_base.induct)
  case (1 b n)
  have no: "digit_char (n mod b) \<noteq> CHR '',''" "n < b \<Longrightarrow> digit_char n \<noteq> CHR '',''"
    using "1.prems" mod_less_divisor [of b n] by (intro digit_char_no_comma, linarith)+
  show ?case
  proof (cases "n < b")
    case True
    with no show ?thesis by (subst show_base.simps) auto
  next
    case False
    with "1.prems" have "CHR '','' \<notin> set (show_base b (n div b))" using "1.IH" by simp
    with no(1) False "1.prems" show ?thesis by (subst show_base.simps) auto
  qed
qed

lemma Itoa_no_comma: "CHR '','' \<notin> set (Itoa i)"
  by (auto simp: Itoa_def show_int_def show_base_no_comma)

lemma Itoa_nonempty [simp]: "Itoa i \<noteq> ''''"
  by (simp add: Itoa_def show_int_def)

lemma all_Inr_map_Inr: "all_Inr (List.map Inr xs) = Inr xs"
  by (induction xs) auto

lemma list_parse_string: "list_parse (list_string xs) = Inr xs"
proof (cases "xs = []")
  case True
  then show ?thesis by (simp add: list_parse_def list_string_def)
next
  case False
  then obtain y ys where "xs = y # ys" by (cases xs) auto
  then have "list_string xs \<noteq> ''''" by (cases ys) (simp_all add: list_string_def)
  moreover have "split_commas (list_string xs) = List.map Itoa xs"
    unfolding list_string_def by (rule split_Join) (use False Itoa_no_comma in auto)
  ultimately show ?thesis by (simp add: list_parse_def all_Inr_map_Inr comp_def)
qed

section \<open>The environment\<close>

definition no_object :: "gerr + 'a" where
  "no_object = Inl (NotFound ''not found'')"

definition ref_env :: "int64 list env" where
  "ref_env = \<lparr>
     http_get = \<lambda>h u. Inl (GoError ''connection refused''),
     http_send = \<lambda>h m u b. Answer 200 '''',
     new_request = \<lambda>m u. None,
     decode_workloads = \<lambda>s. Inr [],
     decode_infos = \<lambda>s. Inr [],
     format_g = format_f,
     cpu_empty = [],
     cpu_parse = list_parse,
     cpu_union = (\<lambda>a b. a @ b),
     cpu_difference = (\<lambda>a b. filter (\<lambda>x. x \<notin> set b) a),
     cpu_string = list_string,
     cpu_slice = (\<lambda>a. a),
     get_workload = \<lambda>h ns n. no_object,
     create_workload = \<lambda>h w. None,
     update_workload = \<lambda>h w. None,
     update_workload_status = \<lambda>h w. Inr w,
     get_config = \<lambda>h ns n. no_object,
     get_node_state = \<lambda>h ns n. no_object,
     create_node_state = \<lambda>h s. None,
     update_node_state_status = \<lambda>h s. None,
     get_node = \<lambda>h n. no_object,
     list_nodes = \<lambda>h l. Inr [],
     get_pod = \<lambda>h ns n. no_object,
     list_pods = \<lambda>h l. Inr [],
     get_daemon_set = \<lambda>h ns n. no_object,
     create_daemon_set = \<lambda>h d. None,
     update_daemon_set = \<lambda>h d. None,
     delete_daemon_set = \<lambda>h d. None,
     list_namespaces = \<lambda>h. Inr [],
     get_own_pod = \<lambda>h ns. (None, Some (NotFound ''not found'')),
     list_pod_resources = \<lambda>h. Inr [],
     read_manifest = \<lambda>h p. Inl (GoError ''no such file''),
     set_controller_reference = \<lambda>owner ref. Inr (Some owner),
     labels_merge = \<lambda>a b. b @ a,
     labels_in_whitelist = \<lambda>l w. w = [] \<or> list_all (\<lambda>(k, v). map_of w k = Some v) l,
     pod_qos = \<lambda>p. ''Guaranteed''\<rparr>"

lemma ref_env_cpu [simp]:
  "cpu_empty ref_env = []" "cpu_parse ref_env = list_parse" "cpu_union ref_env = (\<lambda>a b. a @ b)"
  "cpu_difference ref_env = (\<lambda>a b. filter (\<lambda>x. x \<notin> set b) a)" "cpu_string ref_env = list_string"
  "cpu_slice ref_env = (\<lambda>a. a)"
  by (simp_all add: ref_env_def)

text \<open>It satisfies the documented laws of \<open>cpuset\<close>, and so does every variant of it.\<close>

lemma list_cpuset_laws:
  assumes "cpu_empty env = []" "cpu_parse env = list_parse" "cpu_union env = (\<lambda>a b. a @ b)"
    "cpu_difference env = (\<lambda>a b. filter (\<lambda>x. x \<notin> set b) a)" "cpu_string env = list_string"
    "cpu_slice env = (\<lambda>a. a)"
  shows "cpuset_laws env (\<lambda>a. sint ` set a)"
proof -
  have "inj (sint :: int64 \<Rightarrow> int)" by (rule injI) (simp add: signed_word_eqI)
  then have "sint ` {x \<in> set a. x \<notin> set b} = sint ` set a - sint ` set b" for a b :: "int64 list"
    using image_set_diff [of sint "set a" "set b"] by (simp add: set_diff_eq)
  then show ?thesis
    by (simp add: cpuset_laws_def assms image_Un list_parse_string)
qed

end
