(* ===== verification/Config_Controller_Props.thy ===== *)
theory Config_Controller_Props
  imports Config_Controller Reference_Env
begin

text \<open>
  Facts about the reconciler of \<open>RmdConfig\<close> (\<open>pkg/controller/rmdconfig\<close>) and its properties:
  the selector of the daemon sets, the node states and the registry.
\<close>

section \<open>Daemon sets\<close>

lemma newDaemonSet_read_only [trace_ext]: "newDaemonSet env path h = Some (r, h') \<Longrightarrow> h' = h @ [ReadManifest path]"
  by (auto simp: newDaemonSet_def Let_def split: sum.splits manifest.splits)

lemma createDaemonSetIfNotPresent_None:
  "createDaemonSetIfNotPresent env cfg path h = None \<longleftrightarrow> read_manifest env h path = Inr OtherKind"
  by (auto simp: createDaemonSetIfNotPresent_def newDaemonSet_def Let_def split: sum.splits manifest.splits)

lemma createDaemonSetIfNotPresent_manifest:
  "read_manifest env h path = Inr (DaemonSetManifest ds) \<Longrightarrow>
   createDaemonSetIfNotPresent env cfg path h =
     Some (let daemonSet = apply_selector (RmdNodeSelector (cfgSpec cfg)) ds;
               h1 = h @ [ReadManifest path];
               h2 = h1 @ [GetDaemonSetObj (dsNamespace daemonSet) (dsName daemonSet)]
           in case get_daemon_set env h1 (dsNamespace daemonSet) (dsName daemonSet) of
                Inl err \<Rightarrow>
                  if IsNotFound err then
                    (case set_controller_reference env (cfgName cfg) (dsOwner daemonSet) of
                       Inl err \<Rightarrow> (Some err, h2)
                     | Inr owner \<Rightarrow> (create_daemon_set env h2 (daemonSet\<lparr>dsOwner := owner\<rparr>),
                         h2 @ [CreateDaemonSetObj (daemonSet\<lparr>dsOwner := owner\<rparr>)]))
                  else sync_selector env cfg daemonSet h2
              | Inr found \<Rightarrow> sync_selector env cfg found h2)"
  by (simp add: createDaemonSetIfNotPresent_def newDaemonSet_def Let_def split: sum.split)

lemma apply_selector_simps [simp]:
  "dsName (apply_selector sel ds) = dsName ds" "dsNamespace (apply_selector sel ds) = dsNamespace ds"
  "dsOwner (apply_selector sel ds) = dsOwner ds"
  by (auto simp: apply_selector_def split: option.splits list.splits)

lemma apply_selector_selector:
  "dsNodeSelector (apply_selector sel ds) = (if sel = None \<or> sel = Some [] then dsNodeSelector ds else sel)"
  by (auto simp: apply_selector_def split: option.splits list.splits)

lemma sync_selector_writes:
  "writes (snd (sync_selector env cfg ds h)) = writes h @
     (if DeepEqualMap (RmdNodeSelector (cfgSpec cfg)) (dsNodeSelector ds) then []
      else [UpdateDaemonSetObj (ds\<lparr>dsNodeSelector := RmdNodeSelector (cfgSpec cfg)\<rparr>)])"
  by (simp add: sync_selector_def Let_def)

text \<open>
  (C20) The daemon set of the manifest is created once, with the selector of the \<open>RmdConfig\<close> or,
  when that has no entry, with the manifest's own. The next reconcile, which finds the
  created object, writes nothing for a selector with an entry; without one it replaces the
  manifest's default selector by the empty one, unless they are the same.
\<close>

theorem created_daemon_set_selector:
  assumes man: "read_manifest env h path = Inr (DaemonSetManifest ds)"
    and absent: "get_daemon_set env (h @ [ReadManifest path]) (dsNamespace ds) (dsName ds) = Inl err" "IsNotFound err"
    and owner: "set_controller_reference env (cfgName cfg) (dsOwner ds) = Inr own"
    and man2: "read_manifest env g path = Inr (DaemonSetManifest ds)"
    and found: "get_daemon_set env (g @ [ReadManifest path]) (dsNamespace ds) (dsName ds) = Inr obj"
    and obj: "obj = (apply_selector (RmdNodeSelector (cfgSpec cfg)) ds)\<lparr>dsOwner := own\<rparr>"
  shows "(\<exists>r h'. createDaemonSetIfNotPresent env cfg path h = Some (r, h') \<and>
      writes h' = writes h @ [CreateDaemonSetObj obj]) \<and>
    (\<exists>r g'. createDaemonSetIfNotPresent env cfg path g = Some (r, g') \<and>
      writes g' = writes g @
        (if RmdNodeSelector (cfgSpec cfg) \<in> {None, Some []} \<and>
            \<not> DeepEqualMap (RmdNodeSelector (cfgSpec cfg)) (dsNodeSelector ds)
         then [UpdateDaemonSetObj (obj\<lparr>dsNodeSelector := RmdNodeSelector (cfgSpec cfg)\<rparr>)] else []))"
proof
  show "\<exists>r h'. createDaemonSetIfNotPresent env cfg path h = Some (r, h') \<and>
      writes h' = writes h @ [CreateDaemonSetObj obj]"
    using absent owner obj by (simp add: createDaemonSetIfNotPresent_manifest [OF man] Let_def)
  let ?g2 = "g @ [ReadManifest path, GetDaemonSetObj (dsNamespace ds) (dsName ds)]"
  have "createDaemonSetIfNotPresent env cfg path g = Some (sync_selector env cfg obj ?g2)"
    using found by (simp add: createDaemonSetIfNotPresent_manifest [OF man2] Let_def)
  then show "\<exists>r g'. createDaemonSetIfNotPresent env cfg path g = Some (r, g') \<and>
      writes g' = writes g @
        (if RmdNodeSelector (cfgSpec cfg) \<in> {None, Some []} \<and>
            \<not> DeepEqualMap (RmdNodeSelector (cfgSpec cfg)) (dsNodeSelector ds)
         then [UpdateDaemonSetObj (obj\<lparr>dsNodeSelector := RmdNodeSelector (cfgSpec cfg)\<rparr>)] else [])"
    using sync_selector_writes [of env cfg obj ?g2] obj
    by (cases "sync_selector env cfg obj ?g2") (auto simp: apply_selector_selector)
qed

definition demo_ds :: DaemonSet where
  "demo_ds = \<lparr>dsName = ''rmd'', dsNamespace = ''default'', dsOwner = None,
     dsNodeSelector = Some [(''rdt'', ''true'')], dsContainers = []\<rparr>"

definition demo_config :: RmdConfig where
  "demo_config = \<lparr>cfgName = ''rmdconfig'', cfgNamespace = ''default'',
     cfgSpec = \<lparr>RmdImage = '''', DeployNodeAgent = False, RmdNodeSelector = None\<rparr>, cfgStatusNodes = []\<rparr>"

text \<open>The demo cluster stores the daemon set at its first creation.\<close>

definition ds_env :: "int64 list env" where
  "ds_env = ref_env\<lparr>
     read_manifest := \<lambda>h p. Inr (DaemonSetManifest demo_ds),
     get_daemon_set := \<lambda>h ns n. if writes h = [] then no_object else Inr (demo_ds\<lparr>dsOwner := Some ''rmdconfig''\<rparr>)\<rparr>"

theorem created_daemon_set_selector_witness:
  "\<exists>r g'. createDaemonSetIfNotPresent ds_env demo_config ''ds.yaml'' [CreateDaemonSetObj demo_ds] = Some (r, g') \<and>
     writes g' = [CreateDaemonSetObj demo_ds,
       UpdateDaemonSetObj (demo_ds\<lparr>dsOwner := Some ''rmdconfig'', dsNodeSelector := None\<rparr>)]"
proof -
  have 1: "read_manifest ds_env h ''ds.yaml'' = Inr (DaemonSetManifest demo_ds)" for h
    by (simp add: ds_env_def)
  have 2: "get_daemon_set ds_env ([] @ [ReadManifest ''ds.yaml'']) (dsNamespace demo_ds) (dsName demo_ds) =
      Inl (NotFound ''not found'')"
    by (simp add: ds_env_def no_object_def)
  have 3: "set_controller_reference ds_env (cfgName demo_config) (dsOwner demo_ds) = Inr (Some ''rmdconfig'')"
    by (simp add: ds_env_def ref_env_def demo_config_def)
  have 4: "get_daemon_set ds_env ([CreateDaemonSetObj demo_ds] @ [ReadManifest ''ds.yaml'']) (dsNamespace demo_ds) (dsName demo_ds) =
      Inr (demo_ds\<lparr>dsOwner := Some ''rmdconfig''\<rparr>)"
    by (simp add: ds_env_def)
  have 5: "demo_ds\<lparr>dsOwner := Some ''rmdconfig''\<rparr> =
      (apply_selector (RmdNodeSelector (cfgSpec demo_config)) demo_ds)\<lparr>dsOwner := Some ''rmdconfig''\<rparr>"
    by (simp add: demo_config_def apply_selector_def)
  show ?thesis
    using created_daemon_set_selector [OF 1 2 _ 3 1 4 5]
    by (simp add: demo_config_def demo_ds_def)
qed

section \<open>Node states and the registry\<close>

text \<open>The writes and the registry of the loop over the labelled nodes.\<close>

definition node_state_call :: "string set \<Rightarrow> call \<Rightarrow> bool" where
  "node_state_call ns c \<longleftrightarrow> (\<exists>s. c = CreateNodeStateCR s \<and> nsNode (nsSpec s) \<in> ns \<and>
     nsName s = rmdNodeStateNameConst @ nsNode (nsSpec s) \<and> nsNamespace s = configNamespace \<and> nsWorkloads s = [])"

lemma createNodeStateIfNotPresent_writes:
  assumes "createNodeStateIfNotPresent env n cfg h = (err, h')" "n \<in> ns"
  shows "\<exists>cs. writes h' = writes h @ cs \<and> list_all (node_state_call ns) cs"
  using assms
  by (auto simp: createNodeStateIfNotPresent_def Let_def node_state_call_def new_node_state_def
      split: sum.splits if_splits)

lemma node_loop_writes:
  assumes "node_loop env cfg nodes nd h = (err, nd', h')" "nodeName ` set nodes \<subseteq> ns"
  shows "\<exists>cs. writes h' = writes h @ cs \<and> list_all (node_state_call ns) cs"
  using assms
proof (induction nodes arbitrary: nd h)
  case Nil
  then show ?case by auto
next
  case (Cons node nodes)
  obtain e h1 where c: "createNodeStateIfNotPresent env (nodeName node) cfg h = (e, h1)" by fastforce
  from createNodeStateIfNotPresent_writes [OF c, of ns] Cons.prems(2) obtain cs where
    cs: "writes h1 = writes h @ cs" "list_all (node_state_call ns) cs" by auto
  show ?case
  proof (cases e)
    case (Some e')
    with Cons.prems c cs show ?thesis by auto
  next
    case None
    with Cons.prems c have "node_loop env cfg nodes (UpdateRmdNodeData (nodeName node) nd) h1 = (err, nd', h')"
      by simp
    from Cons.IH [OF this] Cons.prems(2) cs show ?thesis by (auto simp: list_all_append)
  qed
qed

lemma node_loop_registry:
  "node_loop env cfg nodes nd h = (err, nd', h') \<Longrightarrow>
     \<exists>k. nd' = fold UpdateRmdNodeData (List.map nodeName (take k nodes)) nd \<and> (err = None \<longrightarrow> length nodes \<le> k)"
proof (induction nodes arbitrary: nd h)
  case Nil
  then show ?case by auto
next
  case (Cons node nodes)
  obtain e h1 where c: "createNodeStateIfNotPresent env (nodeName node) cfg h = (e, h1)" by fastforce
  show ?case
  proof (cases e)
    case (Some e')
    with Cons.prems c show ?thesis by (intro exI [of _ 0]) auto
  next
    case None
    with Cons.prems c have "node_loop env cfg nodes (UpdateRmdNodeData (nodeName node) nd) h1 = (err, nd', h')"
      by simp
    from Cons.IH [OF this] obtain k where
      "nd' = fold UpdateRmdNodeData (List.map nodeName (take k nodes)) (UpdateRmdNodeData (nodeName node) nd)"
      "err = None \<longrightarrow> length nodes \<le> k" by auto
    then show ?thesis by (intro exI [of _ "Suc k"]) simp
  qed
qed

text \<open>
  (C19) A run over the labelled nodes keeps the registry free of duplicates and never takes a
  node out of it, not even one that lost its labels: it adds labelled nodes, all of them when
  no error is returned. It creates node states of labelled nodes only, and at the end reports
  the whole registry as the status.
\<close>

theorem label_nodes_registry:
  assumes dist: "distinct (RmdNodeList nd)"
    and run: "label_nodes env cfg nd h = ((res, err), nd', h')"
    and nodes: "list_nodes env h (case RmdNodeSelector (cfgSpec cfg) of None \<Rightarrow> [] | Some m \<Rightarrow> m) = Inr ns"
  shows "distinct (RmdNodeList nd') \<and> set (RmdNodeList nd) \<subseteq> set (RmdNodeList nd') \<and>
    set (RmdNodeList nd') \<subseteq> set (RmdNodeList nd) \<union> nodeName ` set ns \<and>
    (err = None \<longleftrightarrow> res = requeue_after 5) \<and>
    (err = None \<longrightarrow> nodeName ` set ns \<subseteq> set (RmdNodeList nd')) \<and>
    (\<exists>cs. list_all (node_state_call (nodeName ` set ns)) cs \<and>
       writes h' = writes h @ cs @ (if err = None \<and> ns \<noteq> []
         then [UpdateConfigStatus (cfg\<lparr>cfgStatusNodes := RmdNodeList nd'\<rparr>)] else []))"
proof (cases "ns = []")
  case True
  with run nodes dist show ?thesis
    by (auto simp: label_nodes_def Let_def intro!: exI [of _ "[]"])
next
  case False
  define l where "l = (case RmdNodeSelector (cfgSpec cfg) of None \<Rightarrow> [] | Some m \<Rightarrow> m)"
  obtain e nd1 h1 where loop: "node_loop env cfg ns nd (h @ [ListNodes l]) = (e, nd1, h1)"
    by (metis prod.exhaust)
  from node_loop_registry [OF loop] obtain k where
    k: "nd1 = fold UpdateRmdNodeData (List.map nodeName (take k ns)) nd" "e = None \<longrightarrow> length ns \<le> k" by auto
  have names: "set (RmdNodeList nd1) = set (RmdNodeList nd) \<union> nodeName ` set (take k ns)"
    using reg.names_add_all [OF dist, of "List.map nodeName (take k ns)"] k(1) by simp
  have "distinct (RmdNodeList nd1)" using reg.wf_add_all [OF dist] k(1) by simp
  moreover from node_loop_writes [OF loop subset_refl] obtain cs where
    "writes h1 = writes h @ cs" "list_all (node_state_call (nodeName ` set ns)) cs" by auto
  moreover have "nodeName ` set (take k ns) \<subseteq> nodeName ` set ns" by (auto dest: in_set_takeD)
  moreover have "e = None \<longrightarrow> nodeName ` set (take k ns) = nodeName ` set ns" using k(2) by simp
  moreover have "nd' = nd1 \<and> err = e \<and> (err = None \<longleftrightarrow> res = requeue_after 5) \<and>
      writes h' = writes h1 @ (if e = None then [UpdateConfigStatus (cfg\<lparr>cfgStatusNodes := RmdNodeList nd1\<rparr>)] else [])"
    using run nodes loop False
    by (cases e) (auto simp: label_nodes_def Let_def l_def no_requeue_def requeue_after_def)
  ultimately show ?thesis using False names by (intro conjI exI [of _ cs]) auto
qed

theorem label_nodes_registry_witness:
  "\<exists>res err nd' h'. label_nodes (ref_env\<lparr>list_nodes := \<lambda>h l. Inr [\<lparr>nodeName = ''n2'', nodeLabels = [], nodeAddresses = []\<rparr>]\<rparr>)
      demo_config \<lparr>RmdNodeList = [''n1'']\<rparr> [] = ((res, err), nd', h') \<and>
    set [''n1''] \<subseteq> set (RmdNodeList nd')"
proof -
  let ?e = "ref_env\<lparr>list_nodes := \<lambda>h l. Inr [\<lparr>nodeName = ''n2'', nodeLabels = [], nodeAddresses = []\<rparr>]\<rparr>"
  obtain res err nd' h' where run: "label_nodes ?e demo_config \<lparr>RmdNodeList = [''n1'']\<rparr> [] = ((res, err), nd', h')"
    by (metis prod.exhaust)
  have "distinct (RmdNodeList \<lparr>RmdNodeList = [''n1'']\<rparr>)" by simp
  from label_nodes_registry [OF this run] run show ?thesis by auto
qed

text \<open>
  Creating the node state of a node is idempotent: if one exists, or the query fails for
  another reason, nothing is written and no error is returned; otherwise one object is
  created, named after the node, owned by the \<open>RmdConfig\<close>, for this node and with no workload.
\<close>

theorem createNodeStateIfNotPresent_cases:
  "case get_node_state env h configNamespace (rmdNodeStateNameConst @ n) of
     Inr _ \<Rightarrow> fst (createNodeStateIfNotPresent env n cfg h) = None \<and>
       writes (snd (createNodeStateIfNotPresent env n cfg h)) = writes h
   | Inl err \<Rightarrow>
       (\<not> IsNotFound err \<longrightarrow> fst (createNodeStateIfNotPresent env n cfg h) = None \<and>
          writes (snd (createNodeStateIfNotPresent env n cfg h)) = writes h) \<and>
       (IsNotFound err \<longrightarrow> (\<forall>own. set_controller_reference env (cfgName cfg) None = Inr own \<longrightarrow>
          writes (snd (createNodeStateIfNotPresent env n cfg h)) = writes h @
            [CreateNodeStateCR \<lparr>nsName = rmdNodeStateNameConst @ n, nsNamespace = configNamespace, nsOwner = own,
              nsSpec = \<lparr>nsNode = n, nsNodeUID = ''''\<rparr>, nsWorkloads = []\<rparr>]))"
  by (auto simp: createNodeStateIfNotPresent_def Let_def new_node_state_def split: sum.splits)

theorem createNodeStateIfNotPresent_cases_witness:
  "writes (snd (createNodeStateIfNotPresent ref_env ''n1'' demo_config [])) =
     [CreateNodeStateCR \<lparr>nsName = ''rmd-node-state-n1'', nsNamespace = ''default'', nsOwner = Some ''rmdconfig'',
        nsSpec = \<lparr>nsNode = ''n1'', nsNodeUID = ''''\<rparr>, nsWorkloads = []\<rparr>]"
  using createNodeStateIfNotPresent_cases 
    [where env = ref_env and h = "[]" and n = "''n1''" and cfg = demo_config]
  by (simp add: ref_env_def no_object_def demo_config_def rmdNodeStateNameConst_def configNamespace_def)

end
