(* ===== verification/Util.thy ===== *)
theory Util
  imports Api_Types
begin

text \<open>
  \<open>pkg/util/util.go\<close>: the search for the RMD pod of a node, by node name and by the node's
  addresses. The socket helpers of the file are not modelled here.
\<close>

fun GetPodFromNodeName :: "Pod list \<Rightarrow> string \<Rightarrow> gerr + Pod" where
  "GetPodFromNodeName [] nodename =
     Inl (ServiceUnavailable (''rmd pod not found by nodename '' @ nodename))"
| "GetPodFromNodeName (pod # pods) nodename =
     (if nodename = podNodeName pod then Inr pod else GetPodFromNodeName pods nodename)"

fun address_loop :: "string list \<Rightarrow> Pod \<Rightarrow> bool" where
  "address_loop [] pod = False"
| "address_loop (address # as) pod = (address = podHostIP pod \<or> address_loop as pod)"

fun GetPodFromNodeAddresses :: "Pod list \<Rightarrow> Node \<Rightarrow> gerr + Pod" where
  "GetPodFromNodeAddresses [] node =
     Inl (ServiceUnavailable (''rmd pod not found by addresses for node '' @ nodeName node))"
| "GetPodFromNodeAddresses (pod # pods) node =
     (if address_loop (nodeAddresses node) pod then Inr pod else GetPodFromNodeAddresses pods node)"

lemma address_loop_iff [simp]: "address_loop as pod \<longleftrightarrow> podHostIP pod \<in> set as"
  by (induction as) auto

text \<open>Both searches return the first pod of the list with a property.\<close>

lemma GetPodFromNodeName_Inr_iff:
  "GetPodFromNodeName pods n = Inr p \<longleftrightarrow> find (\<lambda>p. podNodeName p = n) pods = Some p"
  by (induction pods) auto

lemma GetPodFromNodeAddresses_Inr_iff:
  "GetPodFromNodeAddresses pods node = Inr p \<longleftrightarrow>
     find (\<lambda>p. podHostIP p \<in> set (nodeAddresses node)) pods = Some p"
  by (induction pods) auto

lemma GetPodFromNodeName_Inl_iff:
  "(\<exists>e. GetPodFromNodeName pods n = Inl e) \<longleftrightarrow> n \<notin> podNodeName ` set pods"
  by (induction pods) auto

lemma GetPodFromNodeAddresses_Inl_iff:
  "(\<exists>e. GetPodFromNodeAddresses pods node = Inl e) \<longleftrightarrow>
     (\<forall>p \<in> set pods. podHostIP p \<notin> set (nodeAddresses node))"
  by (induction pods) auto

lemma find_Some_set: "find P xs = Some x \<Longrightarrow> x \<in> set xs \<and> P x"
  by (auto simp: find_Some_iff)

lemma GetPodFromNodeName_Inr:
  "GetPodFromNodeName pods n = Inr p \<Longrightarrow> p \<in> set pods \<and> podNodeName p = n"
  by (auto simp: GetPodFromNodeName_Inr_iff dest: find_Some_set)

lemma GetPodFromNodeAddresses_Inr:
  "GetPodFromNodeAddresses pods node = Inr p \<Longrightarrow> p \<in> set pods \<and> podHostIP p \<in> set (nodeAddresses node)"
  by (auto simp: GetPodFromNodeAddresses_Inr_iff dest: find_Some_set)

end
