(* ===== verification/Workload_Controller.thy ===== *)
theory Workload_Controller
  imports Rmd_Client Util
begin

text \<open>
  \<open>pkg/controller/rmdworkload\<close>: the reconciler of \<open>RmdWorkload\<close> resources. The resource the
  handlers mutate through a pointer is passed along and returned; the client's status update
  replaces it by the object the server returns. \<open>None\<close> is the end of the process, which the
  construction of a request can cause, and a nil entry in the list of workloads of an RMD.
\<close>

record targetedNodeInfo =
  tnNodeName :: string
  tnRmdAddress :: string
  workloadExists :: bool

record removedNodeInfo =
  rnNodeName :: string
  rnRmdAddress :: string
  rnWorkloadID :: string

definition defaultNamespace :: string where
  "defaultNamespace = ''default''"

definition rmdPodNameConst :: string where
  "rmdPodNameConst = ''rmd-pod''"

definition rmdConfigConst :: string where
  "rmdConfigConst = ''rmdconfig''"

section \<open>The address of a node's RMD pod\<close>

definition rmd_pods_label :: "string smap" where
  "rmd_pods_label = [(''name'', rmdPodNameConst)]"

text \<open>
  The pod of a node: the first RMD pod scheduled to a node of that name, otherwise the first
  whose host address is one of the node's addresses.
\<close>

definition find_rmd_pod :: "'c env \<Rightarrow> string \<Rightarrow> trace \<Rightarrow> (gerr + Pod) \<times> trace" where
  "find_rmd_pod env node h =
     (let resp = list_pods env h rmd_pods_label;
          h1 = h @ [ListPods rmd_pods_label]
      in case resp of
           Inl err \<Rightarrow> (Inl err, h1)
         | Inr pods \<Rightarrow>
           case GetPodFromNodeName pods node of
             Inr rmdPod \<Rightarrow> (Inr rmdPod, h1)
           | Inl _ \<Rightarrow>
             let resp2 = get_node env h1 node;
                 h2 = h1 @ [GetNodeObj node]
             in case resp2 of
                  Inl err \<Rightarrow> (Inl err, h2)
                | Inr rmdNode \<Rightarrow> (GetPodFromNodeAddresses pods rmdNode, h2))"

definition address_not_available :: gerr where
  "address_not_available = ServiceUnavailable ''pod address not available''"

definition pod_ip :: "Pod \<Rightarrow> gerr + string" where
  "pod_ip rmdPod =
     (if podIP rmdPod \<noteq> '''' then Inr (podIP rmdPod)
      else case podIPs rmdPod of
        ip # _ \<Rightarrow> Inr ip
      | [] \<Rightarrow> Inl address_not_available)"

text \<open>\<open>fmt.Sprintf("%s%s%s%d", ...)\<close> of the prefix, the address and the port.\<close>

definition service_url :: "OperatorRmdClient \<Rightarrow> string \<Rightarrow> int32 \<Rightarrow> string" where
  "service_url rc ip port = GetAddressPrefix rc @ ip @ '':'' @ show_int32 port"

fun first_port :: "Container list \<Rightarrow> int32 option" where
  "first_port [] = None"
| "first_port (c # _) = (case cPorts c of [] \<Rightarrow> None | port # _ \<Rightarrow> Some port)"

definition pod_address :: "OperatorRmdClient \<Rightarrow> Pod \<Rightarrow> gerr + string" where
  "pod_address rc rmdPod =
     (case pod_ip rmdPod of
        Inl err \<Rightarrow> Inl err
      | Inr ip \<Rightarrow>
        case first_port (podContainers rmdPod) of
          None \<Rightarrow> Inl address_not_available
        | Some port \<Rightarrow> Inr (service_url rc ip port))"

definition getPodAddress ::
  "'c env \<Rightarrow> OperatorRmdClient \<Rightarrow> string \<Rightarrow> trace \<Rightarrow> (gerr + string) \<times> trace"
where
  "getPodAddress env rc node h =
     (case find_rmd_pod env node h of
        (Inl err, h') \<Rightarrow> (Inl err, h')
      | (Inr rmdPod, h') \<Rightarrow> (pod_address rc rmdPod, h'))"

text \<open>The workload of a name on a node: its address and what RMD lists for it.\<close>

definition lookup_workload ::
  "'c env \<Rightarrow> OperatorRmdClient \<Rightarrow> string \<Rightarrow> string \<Rightarrow> trace \<Rightarrow>
    ((gerr + string \<times> RDTWorkLoad) \<times> trace) option"
where
  "lookup_workload env rc node name h =
     (case getPodAddress env rc node h of
        (Inl err, h1) \<Rightarrow> Some (Inl err, h1)
      | (Inr address, h1) \<Rightarrow>
        case GetWorkloads env address h1 of
          (Inl err, h2) \<Rightarrow> Some (Inl err, h2)
        | (Inr activeWorkloads, h2) \<Rightarrow>
            do {
              workload \<leftarrow> FindWorkloadByName activeWorkloads name;
              Some (Inr (address, workload), h2)
            })"

section \<open>Obsolete workloads\<close>

fun obselete_loop ::
  "'c env \<Rightarrow> OperatorRmdClient \<Rightarrow> string \<Rightarrow> string list \<Rightarrow> string smap \<Rightarrow> trace \<Rightarrow>
    ((gerr + string smap) \<times> trace) option"
where
  "obselete_loop env rc name [] obseleteWorkloads h = Some (Inr obseleteWorkloads, h)"
| "obselete_loop env rc name (node # nodes) obseleteWorkloads h =
     do {
       (r, h') \<leftarrow> lookup_workload env rc node name h;
       (case r of
          Inl err \<Rightarrow> Some (Inl err, h')
        | Inr (address, workload) \<Rightarrow>
            if UUID workload = '''' then obselete_loop env rc name nodes obseleteWorkloads h'
            else obselete_loop env rc name nodes (AList.update address (rdtID workload) obseleteWorkloads) h')
     }"

definition findObseleteWorkloads ::
  "'c env \<Rightarrow> OperatorRmdClient \<Rightarrow> string list \<Rightarrow> string \<Rightarrow> trace \<Rightarrow> ((gerr + string smap) \<times> trace) option"
where
  "findObseleteWorkloads env rc rmdNodeList name h = obselete_loop env rc name rmdNodeList [] h"

section \<open>Targeted nodes\<close>

definition getTargetedNode ::
  "'c env \<Rightarrow> OperatorRmdClient \<Rightarrow> string \<Rightarrow> string \<Rightarrow> trace \<Rightarrow> ((gerr + targetedNodeInfo) \<times> trace) option"
where
  "getTargetedNode env rc node rmdWorkloadName h =
     do {
       (r, h') \<leftarrow> lookup_workload env rc node rmdWorkloadName h;
       Some (case r of
           Inl err \<Rightarrow> (Inl err, h')
         | Inr (address, workload) \<Rightarrow>
             (Inr \<lparr>tnNodeName = node, tnRmdAddress = address, workloadExists = (UUID workload \<noteq> '''')\<rparr>, h'))
     }"

text \<open>Nodes listed in the spec: a node that cannot be examined is skipped.\<close>

fun listed_nodes_loop ::
  "'c env \<Rightarrow> OperatorRmdClient \<Rightarrow> string \<Rightarrow> string list \<Rightarrow> trace \<Rightarrow> (targetedNodeInfo list \<times> trace) option"
where
  "listed_nodes_loop env rc name [] h = Some ([], h)"
| "listed_nodes_loop env rc name (node # nodes) h =
     do {
       (r, h') \<leftarrow> getTargetedNode env rc node name h;
       (targetedNodes, h'') \<leftarrow> listed_nodes_loop env rc name nodes h';
       Some (case r of
           Inl _ \<Rightarrow> (targetedNodes, h'')
         | Inr targetedNode \<Rightarrow> (targetedNode # targetedNodes, h''))
     }"

text \<open>Nodes selected by labels: a node that cannot be examined is an error.\<close>

fun selected_nodes_loop ::
  "'c env \<Rightarrow> OperatorRmdClient \<Rightarrow> string \<Rightarrow> Node list \<Rightarrow> trace \<Rightarrow>
    ((gerr + targetedNodeInfo list) \<times> trace) option"
where
  "selected_nodes_loop env rc name [] h = Some (Inr [], h)"
| "selected_nodes_loop env rc name (node # nodes) h =
     do {
       (r, h') \<leftarrow> getTargetedNode env rc (nodeName node) name h;
       (case r of
          Inl err \<Rightarrow> Some (Inl err, h')
        | Inr targetedNode \<Rightarrow>
            do {
              (rs, h'') \<leftarrow> selected_nodes_loop env rc name nodes h';
              Some (case rs of
                  Inl err \<Rightarrow> (Inl err, h'')
                | Inr targetedNodes \<Rightarrow> (Inr (targetedNode # targetedNodes), h''))
            })
     }"

definition selector_labels :: "string smap option \<Rightarrow> string smap" where
  "selector_labels s = (case s of None \<Rightarrow> [] | Some m \<Rightarrow> m)"

definition findTargetedNodes ::
  "'c env \<Rightarrow> OperatorRmdClient \<Rightarrow> RmdWorkload \<Rightarrow> trace \<Rightarrow> ((gerr + targetedNodeInfo list) \<times> trace) option"
where
  "findTargetedNodes env rc rmdWorkload h =
     (let spec = wlSpec rmdWorkload; name = wlName rmdWorkload in
      if length (NodeSelector spec) = 0 then
        do {
          (targetedNodes, h') \<leftarrow> listed_nodes_loop env rc name (Nodes spec) h;
          Some (Inr targetedNodes, h')
        }
      else
        let resp = get_config env h defaultNamespace rmdConfigConst;
            h1 = h @ [GetConfigCR defaultNamespace rmdConfigConst]
        in case resp of
             Inl err \<Rightarrow> Some (Inl err, h1)
           | Inr rmdConfig \<Rightarrow>
             let matchingLabels =
                   labels_merge env (selector_labels (RmdNodeSelector (cfgSpec rmdConfig))) (NodeSelector spec);
                 resp2 = list_nodes env h1 matchingLabels;
                 h2 = h1 @ [ListNodes matchingLabels]
             in case resp2 of
                  Inl err \<Rightarrow> Some (Inl err, h2)
                | Inr nodeList \<Rightarrow> selected_nodes_loop env rc name nodeList h2)"

section \<open>Removed nodes\<close>

text \<open>
  Whether a node that runs the workload is still wanted by its spec. The label check asks for
  the node object.
\<close>

fun spec_lists_node :: "string list \<Rightarrow> string \<Rightarrow> bool" where
  "spec_lists_node [] node = False"
| "spec_lists_node (rmdNodeName # nodes) node = (rmdNodeName = node \<or> spec_lists_node nodes node)"

definition node_wanted ::
  "'c env \<Rightarrow> RmdWorkloadSpec \<Rightarrow> string \<Rightarrow> trace \<Rightarrow> (gerr + bool) \<times> trace"
where
  "node_wanted env spec node h =
     (if length (NodeSelector spec) = 0 then (Inr (spec_lists_node (Nodes spec) node), h)
      else
        let resp = get_node env h node; h' = h @ [GetNodeObj node]
        in case resp of
             Inl err \<Rightarrow> (Inl err, h')
           | Inr n \<Rightarrow> (Inr (labels_in_whitelist env (NodeSelector spec) (nodeLabels n)), h'))"

text \<open>One node of the registry: the entry it contributes, if any.\<close>

definition removed_node ::
  "'c env \<Rightarrow> OperatorRmdClient \<Rightarrow> RmdWorkload \<Rightarrow> string \<Rightarrow> trace \<Rightarrow>
    ((gerr + removedNodeInfo option) \<times> trace) option"
where
  "removed_node env rc rmdWorkload node h =
     do {
       (r, h1) \<leftarrow> lookup_workload env rc node (wlName rmdWorkload) h;
       Some (case r of
           Inl err \<Rightarrow> (Inl err, h1)
         | Inr (_, workload) \<Rightarrow>
           if UUID workload \<noteq> wlName rmdWorkload then (Inr None, h1)
           else case node_wanted env (wlSpec rmdWorkload) node h1 of
             (Inl err, h2) \<Rightarrow> (Inl err, h2)
           | (Inr True, h2) \<Rightarrow> (Inr None, h2)
           | (Inr False, h2) \<Rightarrow>
             case getPodAddress env rc node h2 of
               (Inl err, h3) \<Rightarrow> (Inl err, h3)
             | (Inr address, h3) \<Rightarrow>
                 (Inr (Some \<lparr>rnNodeName = node, rnRmdAddress = address, rnWorkloadID = rdtID workload\<rparr>), h3))
     }"

fun removed_loop ::
  "'c env \<Rightarrow> OperatorRmdClient \<Rightarrow> RmdWorkload \<Rightarrow> string list \<Rightarrow> trace \<Rightarrow>
    ((gerr + removedNodeInfo list) \<times> trace) option"
where
  "removed_loop env rc rmdWorkload [] h = Some (Inr [], h)"
| "removed_loop env rc rmdWorkload (node # nodes) h =
     do {
       (r, h') \<leftarrow> removed_node env rc rmdWorkload node h;
       (case r of
          Inl err \<Rightarrow> Some (Inl err, h')
        | Inr entry \<Rightarrow>
            do {
              (rs, h'') \<leftarrow> removed_loop env rc rmdWorkload nodes h';
              Some (case rs of
                  Inl err \<Rightarrow> (Inl err, h'')
                | Inr removedNodes \<Rightarrow>
                    (Inr (case entry of None \<Rightarrow> removedNodes | Some e \<Rightarrow> e # removedNodes), h''))
            })
     }"

definition findRemovedNodes ::
  "'c env \<Rightarrow> OperatorRmdClient \<Rightarrow> string list \<Rightarrow> RmdWorkload \<Rightarrow> trace \<Rightarrow>
    ((gerr + removedNodeInfo list) \<times> trace) option"
where
  "findRemovedNodes env rc rmdNodeList rmdWorkload h = removed_loop env rc rmdWorkload rmdNodeList h"

section \<open>The status of the resource\<close>

definition state_number :: "uint32 option \<Rightarrow> int64" where
  "state_number p = (case p of None \<Rightarrow> 0 | Some x \<Rightarrow> from_uint32 x)"

text \<open>Both plugin values are printed into the field \<open>Ratio\<close>, with the verb of a float.\<close>

definition put_ratio :: "json option \<Rightarrow> Pstate \<Rightarrow> Pstate" where
  "put_ratio v p =
     (case v of None \<Rightarrow> p | Some JNull \<Rightarrow> p | Some x \<Rightarrow> p\<lparr>Ratio := sprintf_f x\<rparr>)"

definition plugins_state :: "plugins \<Rightarrow> Pstate \<Rightarrow> gerr + Pstate" where
  "plugins_state ps p =
     (if length ps = 0 then Inr p
      else case json_plugins_round_trip ps of
        Inl err \<Rightarrow> Inl err
      | Inr pluginsMap \<Rightarrow>
          (case map_of pluginsMap ''pstate'' of
             None \<Rightarrow> Inr p
           | Some pstateMap \<Rightarrow>
               Inr (put_ratio (map_of pstateMap ''monitoring'')
                 (put_ratio (map_of pstateMap ''ratio'') p))))"

definition filled_state :: "RDTWorkLoad \<Rightarrow> WorkloadState \<Rightarrow> gerr + WorkloadState" where
  "filled_state workload workloadState =
     (case plugins_state (rdtPlugins workload) (pstate (statePlugins workloadState)) of
        Inl err \<Rightarrow> Inl err
      | Inr p \<Rightarrow> Inr (workloadState\<lparr>
          stateID := rdtID workload,
          stateCosName := CosName workload,
          stateStatus := rdtStatus workload,
          stateCoreIds := CoreIDs workload,
          statePolicy := rdtPolicy workload,
          stateRdt := \<lparr>rdtCache = \<lparr>cacheMax = state_number (rdtCacheMax workload),
                                  cacheMin = state_number (rdtCacheMin workload)\<rparr>,
                       rdtMba = \<lparr>Percentage = state_number (rdtPercentage workload),
                                Mbps = state_number (rdtMbps workload)\<rparr>\<rparr>,
          statePlugins := \<lparr>pstate = p\<rparr>\<rparr>))"

definition node_state_of :: "RmdWorkload \<Rightarrow> string \<Rightarrow> WorkloadState" where
  "node_state_of rmdWorkload node =
     (case map_of (WorkloadStates rmdWorkload) node of None \<Rightarrow> zero_WorkloadState | Some s \<Rightarrow> s)"

definition put_state :: "string \<Rightarrow> WorkloadState \<Rightarrow> RmdWorkload \<Rightarrow> RmdWorkload" where
  "put_state node s rmdWorkload =
     rmdWorkload\<lparr>WorkloadStates := AList.update node s (WorkloadStates rmdWorkload)\<rparr>"

text \<open>The status update; on success the server's object replaces the local one.\<close>

definition write_status :: "'c env \<Rightarrow> RmdWorkload \<Rightarrow> trace \<Rightarrow> (gerr option \<times> RmdWorkload) \<times> trace" where
  "write_status env rmdWorkload h =
     (let h' = h @ [UpdateWorkloadStatus rmdWorkload] in
      case update_workload_status env h rmdWorkload of
        Inl err \<Rightarrow> ((Some err, rmdWorkload), h')
      | Inr stored \<Rightarrow> ((None, stored), h'))"

text \<open>
  The query's error is only logged: its list of workloads is then empty, so that no
  workload is found.
\<close>

definition updateRmdWorkloadStatus ::
  "'c env \<Rightarrow> RmdWorkload \<Rightarrow> string \<Rightarrow> string \<Rightarrow> string \<Rightarrow> trace \<Rightarrow>
    ((gerr option \<times> RmdWorkload) \<times> trace) option"
where
  "updateRmdWorkloadStatus env rmdWorkload node address response h =
     (let workloadState = (node_state_of rmdWorkload node)\<lparr>Response := response\<rparr>;
          wl1 = put_state node workloadState rmdWorkload
      in case GetWorkloads env address h of (resp, h1) \<Rightarrow>
        let activeWorkloads = (case resp of Inl _ \<Rightarrow> [] | Inr ws \<Rightarrow> ws)
        in do {
             workload \<leftarrow> FindWorkloadByName activeWorkloads (wlName rmdWorkload);
             Some (if rdtID workload \<noteq> '''' then
                 (case filled_state workload workloadState of
                    Inl err \<Rightarrow> ((Some err, wl1), h1)
                  | Inr s \<Rightarrow> write_status env (put_state node s wl1) h1)
               else write_status env wl1 h1)
           })"

section \<open>Adding, updating and removing\<close>

definition addWorkload ::
  "'c env \<Rightarrow> string \<Rightarrow> RmdWorkload \<Rightarrow> string \<Rightarrow> trace \<Rightarrow> ((gerr option \<times> RmdWorkload) \<times> trace) option"
where
  "addWorkload env address rmdWorkload node h =
     do {
       ((response, _), h1) \<leftarrow> PostWorkload env rmdWorkload address h;
       updateRmdWorkloadStatus env rmdWorkload node address response h1
     }"

text \<open>The workload is addressed by the id the resource's status holds for the node.\<close>

definition updateWorkload ::
  "'c env \<Rightarrow> string \<Rightarrow> RmdWorkload \<Rightarrow> string \<Rightarrow> trace \<Rightarrow> ((gerr option \<times> RmdWorkload) \<times> trace) option"
where
  "updateWorkload env address rmdWorkload node h =
     do {
       ((response, _), h1) \<leftarrow> PatchWorkload env rmdWorkload address (stateID (node_state_of rmdWorkload node)) h;
       updateRmdWorkloadStatus env rmdWorkload node address response h1
     }"

fun remove_loop ::
  "'c env \<Rightarrow> RmdWorkload \<Rightarrow> removedNodeInfo list \<Rightarrow> trace \<Rightarrow> (gerr option \<times> RmdWorkload) \<times> trace"
where
  "remove_loop env rmdWorkload [] h = ((None, rmdWorkload), h)"
| "remove_loop env rmdWorkload (removedNode # nodes) h =
     (case DeleteWorkload env (rnRmdAddress removedNode) (rnWorkloadID removedNode) h of
        (Some err, h') \<Rightarrow> ((Some err, rmdWorkload), h')
      | (None, h') \<Rightarrow>
          remove_loop env
            (rmdWorkload\<lparr>WorkloadStates := AList.delete (rnNodeName removedNode) (WorkloadStates rmdWorkload)\<rparr>)
            nodes h')"

definition removeWorkload ::
  "'c env \<Rightarrow> RmdWorkload \<Rightarrow> removedNodeInfo list \<Rightarrow> trace \<Rightarrow> (gerr option \<times> RmdWorkload) \<times> trace"
where
  "removeWorkload env rmdWorkload removedNodes h =
     (case remove_loop env rmdWorkload removedNodes h of
        ((Some err, wl), h') \<Rightarrow> ((Some err, wl), h')
      | ((None, wl), h') \<Rightarrow> write_status env wl h')"

section \<open>Reconcile\<close>

fun apply_loop ::
  "'c env \<Rightarrow> RmdWorkload \<Rightarrow> targetedNodeInfo list \<Rightarrow> trace \<Rightarrow> ((gerr option \<times> RmdWorkload) \<times> trace) option"
where
  "apply_loop env rmdWorkload [] h = Some ((None, rmdWorkload), h)"
| "apply_loop env rmdWorkload (targetedNode # nodes) h =
     do {
       ((err, wl), h') \<leftarrow>
         (if \<not> workloadExists targetedNode
          then addWorkload env (tnRmdAddress targetedNode) rmdWorkload (tnNodeName targetedNode) h
          else updateWorkload env (tnRmdAddress targetedNode) rmdWorkload (tnNodeName targetedNode) h);
       (case err of
          Some e \<Rightarrow> Some ((Some e, wl), h')
        | None \<Rightarrow> apply_loop env wl nodes h')
     }"

fun obselete_delete_loop :: "'c env \<Rightarrow> string smap \<Rightarrow> trace \<Rightarrow> gerr option \<times> trace" where
  "obselete_delete_loop env [] h = (None, h)"
| "obselete_delete_loop env ((address, workloadID) # rest) h =
     (case DeleteWorkload env address workloadID h of
        (Some err, h') \<Rightarrow> (Some err, h')
      | (None, h') \<Rightarrow> obselete_delete_loop env rest h')"

text \<open>
  The branch of a resource that is gone. Go ranges over the map in an unspecified order:
  \<open>order\<close> gives it.
\<close>

definition reconcile_deleted ::
  "'c env \<Rightarrow> OperatorRmdClient \<Rightarrow> (string smap \<Rightarrow> string smap) \<Rightarrow> string list \<Rightarrow> Request \<Rightarrow> trace \<Rightarrow>
    ((Result \<times> gerr option) \<times> trace) option"
where
  "reconcile_deleted env rc order rmdNodeList request h =
     do {
       (r, h') \<leftarrow> findObseleteWorkloads env rc rmdNodeList (reqName request) h;
       Some (case r of
           Inl err \<Rightarrow> ((no_requeue, Some err), h')
         | Inr obseleteWorkloads \<Rightarrow>
             (case obselete_delete_loop env (order obseleteWorkloads) h' of
                (err, h'') \<Rightarrow> ((no_requeue, err), h'')))
     }"

definition reconcile_present ::
  "'c env \<Rightarrow> OperatorRmdClient \<Rightarrow> string list \<Rightarrow> RmdWorkload \<Rightarrow> trace \<Rightarrow>
    ((Result \<times> gerr option) \<times> trace) option"
where
  "reconcile_present env rc rmdNodeList rmdWorkload h =
     do {
       (targets, h1) \<leftarrow> findTargetedNodes env rc rmdWorkload h;
       (case targets of
          Inl err \<Rightarrow> Some ((no_requeue, Some err), h1)
        | Inr targetedNodes \<Rightarrow>
          do {
            ((err, wl), h2) \<leftarrow> apply_loop env rmdWorkload targetedNodes h1;
            (case err of
               Some e \<Rightarrow> Some ((no_requeue, Some e), h2)
             | None \<Rightarrow>
               do {
                 (removed, h3) \<leftarrow> findRemovedNodes env rc rmdNodeList wl h2;
                 Some (case removed of
                     Inl e \<Rightarrow> ((no_requeue, Some e), h3)
                   | Inr removedNodes \<Rightarrow>
                     case removeWorkload env wl removedNodes h3 of
                       ((Some e, _), h4) \<Rightarrow> ((no_requeue, Some e), h4)
                     | ((None, _), h4) \<Rightarrow> ((requeue_after 60, None), h4))
               })
          })
     }"

definition ReconcileWorkload ::
  "'c env \<Rightarrow> OperatorRmdClient \<Rightarrow> (string smap \<Rightarrow> string smap) \<Rightarrow> string list \<Rightarrow> Request \<Rightarrow> trace \<Rightarrow>
    ((Result \<times> gerr option) \<times> trace) option"
where
  "ReconcileWorkload env rc order rmdNodeList request h =
     (let resp = get_workload env h (reqNamespace request) (reqName request);
          h' = h @ [GetWorkloadCR (reqNamespace request) (reqName request)]
      in case resp of
           Inl err \<Rightarrow>
             if IsNotFound err then reconcile_deleted env rc order rmdNodeList request h'
             else Some ((no_requeue, Some err), h')
         | Inr rmdWorkload \<Rightarrow> reconcile_present env rc rmdNodeList rmdWorkload h')"

end
