(* ===== verification/NodeState_Controller.thy ===== *)
theory NodeState_Controller
  imports Workload_Controller Node_Data
begin

text \<open>
  \<open>pkg/controller/rmdnodestate\<close>: the reconciler that mirrors what a node's RMD runs into the
  status of the node's \<open>RmdNodeState\<close>, and takes a node out of the registry when its
  \<open>RmdNodeState\<close> is gone. The registry is passed along; \<open>None\<close> is a panic, of its deletion or
  on a nil entry in the list of workloads.
\<close>

definition node_state_prefix :: string where
  "node_state_prefix = ''rmd-node-state-''"

text \<open>The search for the pod, written out a second time by this controller.\<close>

definition state_pod :: "'c env \<Rightarrow> string \<Rightarrow> trace \<Rightarrow> (gerr + Pod) \<times> trace" where
  "state_pod env node h =
     (let resp = list_pods env h [(''name'', ''rmd-pod'')];
          h1 = h @ [ListPods [(''name'', ''rmd-pod'')]]
      in case resp of
           Inl err \<Rightarrow> (Inl err, h1)
         | Inr pods \<Rightarrow>
           case GetPodFromNodeName pods node of
             Inr rmdPod \<Rightarrow> (Inr rmdPod, h1)
           | Inl _ \<Rightarrow>
             let resp2 = get_node env h1 node;
                 h2 = h1 @ [GetNodeObj node]
             in case resp2 of
                  Inl err \<Rightarrow> (Inl err, h2)
                | Inr rmdNode \<Rightarrow>
                    (case GetPodFromNodeAddresses pods rmdNode of
                       Inl err \<Rightarrow> (Inl err, h2)
                     | Inr rmdPod \<Rightarrow> (Inr rmdPod, h2)))"

text \<open>The map the status shows, one entry for each workload RMD lists, by its name.\<close>

fun workload_map_loop ::
  "'c env \<Rightarrow> RDTWorkLoad option list \<Rightarrow> WorkloadMap smap \<Rightarrow> (gerr + WorkloadMap smap) option"
where
  "workload_map_loop env [] workloadMap = Some (Inr workloadMap)"
| "workload_map_loop env (entry # existingWorkloads) workloadMap =
     do {
       existingWorkload \<leftarrow> entry;
       (case UpdateNodeStatusWorkload env existingWorkload of
          Inl err \<Rightarrow> Some (Inl err)
        | Inr m \<Rightarrow> workload_map_loop env existingWorkloads (AList.update (UUID existingWorkload) m workloadMap))
     }"

text \<open>
  The rest of the handler, for the pod of the node: a pod with no container or no port ends
  it without an error; the error of the query is only logged and leaves the list empty.
\<close>

definition update_node_state ::
  "'c env \<Rightarrow> OperatorRmdClient \<Rightarrow> RmdNodeState \<Rightarrow> Pod \<Rightarrow> trace \<Rightarrow> ((Result \<times> gerr option) \<times> trace) option"
where
  "update_node_state env rc rmdNodeState rmdPod h =
     (case first_port (podContainers rmdPod) of
        None \<Rightarrow> Some ((no_requeue, None), h)
      | Some port \<Rightarrow>
        case GetWorkloads env (service_url rc (podIP rmdPod) port) h of (resp, h1) \<Rightarrow>
        let existingWorkloads = (case resp of Inl _ \<Rightarrow> [] | Inr ws \<Rightarrow> ws) in
        do {
          workloads \<leftarrow> workload_map_loop env existingWorkloads [];
          Some (case workloads of
              Inl err \<Rightarrow> ((no_requeue, Some err), h1)
            | Inr workloadMap \<Rightarrow>
              let updated = rmdNodeState\<lparr>nsWorkloads := workloadMap\<rparr>;
                  h2 = h1 @ [UpdateNodeStateStatus updated]
              in case update_node_state_status env h1 updated of
                   Some err \<Rightarrow> ((no_requeue, Some err), h2)
                 | None \<Rightarrow> ((requeue_after 5, None), h2))
        })"

definition ReconcileNodeState ::
  "'c env \<Rightarrow> OperatorRmdClient \<Rightarrow> RmdNodeData \<Rightarrow> Request \<Rightarrow> trace \<Rightarrow>
    ((Result \<times> gerr option) \<times> RmdNodeData \<times> trace) option"
where
  "ReconcileNodeState env rc rmdNodeData request h =
     (let resp = get_node_state env h (reqNamespace request) (reqName request);
          h' = h @ [GetNodeStateCR (reqNamespace request) (reqName request)]
      in case resp of
           Inl err \<Rightarrow>
             if IsNotFound err then
               do {
                 let node = ReplaceAll (reqName request) node_state_prefix '''';
                 rmdNodeData' \<leftarrow> DeleteRmdNodeData node rmdNodeData;
                 Some ((no_requeue, None), rmdNodeData', h')
               }
             else Some ((no_requeue, Some err), rmdNodeData, h')
         | Inr rmdNodeState \<Rightarrow>
             (case state_pod env (nsNode (nsSpec rmdNodeState)) h' of
                (Inl err, h1) \<Rightarrow> Some ((no_requeue, Some err), rmdNodeData, h1)
              | (Inr rmdPod, h1) \<Rightarrow>
                  do {
                    (r, h2) \<leftarrow> update_node_state env rc rmdNodeState rmdPod h1;
                    Some (r, rmdNodeData, h2)
                  }))"

end
