(* ===== verification/Workload_Controller_Facts.thy ===== *)
theory Workload_Controller_Facts
  imports Workload_Controller Rmd_Client_Facts "HOL-Library.Sublist"
begin

text \<open>
  Facts about the reconciler of \<open>RmdWorkload\<close> resources: which of its operations only read,
  the contract adding and updating share, the phases of the writes of a reconcile, and the
  nodes the three searches return.
\<close>

text \<open>To read a result off a run that is evaluated.\<close>

lemma Some_InrI: "map_option (\<lambda>(r, h'). \<not> isl r) x = Some True \<Longrightarrow> \<exists>y h'. x = Some (Inr y, h')"
  by (auto simp: isl_def split: prod.splits) (metis sum.exhaust)

section \<open>The searches only read\<close>

lemma find_rmd_pod_read_only [trace_ext]: "find_rmd_pod env n h = (r, h') \<Longrightarrow> read_only h h'"
  by (auto simp: find_rmd_pod_def Let_def split: sum.splits)

lemma getPodAddress_read_only [trace_ext]: "getPodAddress env rc n h = (r, h') \<Longrightarrow> read_only h h'"
  by (auto simp: getPodAddress_def split: prod.splits sum.splits dest: find_rmd_pod_read_only)

lemma lookup_workload_cases:
  assumes "lookup_workload env rc n name h = Some (r, h')"
  obtains e where "getPodAddress env rc n h = (Inl e, h')" "r = Inl e"
  | a h1 e where "getPodAddress env rc n h = (Inr a, h1)" "GetWorkloads env a h1 = (Inl e, h')" "r = Inl e"
  | a h1 ws w where "getPodAddress env rc n h = (Inr a, h1)" "GetWorkloads env a h1 = (Inr ws, h')"
      "FindWorkloadByName ws name = Some w" "r = Inr (a, w)"
  using assms by (auto simp: lookup_workload_def split: prod.splits sum.splits Option.bind_splits)

lemma lookup_workload_read_only [trace_ext]:
  "lookup_workload env rc n name h = Some (r, h') \<Longrightarrow> read_only h h'"
  by (erule lookup_workload_cases)
    (auto dest!: getPodAddress_read_only GetWorkloads_read_only intro: read_only_trans)

lemma getTargetedNode_read_only [trace_ext]:
  "getTargetedNode env rc n name h = Some (r, h') \<Longrightarrow> read_only h h'"
  by (auto simp: getTargetedNode_def split: Option.bind_splits sum.splits dest: lookup_workload_read_only)

lemma obselete_loop_read_only [trace_ext]:
  "obselete_loop env rc name nodes acc h = Some (r, h') \<Longrightarrow> read_only h h'"
  by (induction nodes arbitrary: acc h)
    (auto split: Option.bind_splits sum.splits if_splits dest!: lookup_workload_read_only, (blast intro: read_only_trans)+)

lemma listed_nodes_loop_read_only [trace_ext]:
  "listed_nodes_loop env rc name nodes h = Some (r, h') \<Longrightarrow> read_only h h'"
  by (induction nodes arbitrary: h r)
    (auto split: Option.bind_splits sum.splits dest!: getTargetedNode_read_only, (blast intro: read_only_trans)+)

lemma selected_nodes_loop_read_only [trace_ext]:
  "selected_nodes_loop env rc name nodes h = Some (r, h') \<Longrightarrow> read_only h h'"
  by (induction nodes arbitrary: h r)
    (auto split: Option.bind_splits sum.splits dest!: getTargetedNode_read_only, (blast intro: read_only_trans)+)

lemma findTargetedNodes_read_only [trace_ext]:
  "findTargetedNodes env rc wl h = Some (r, h') \<Longrightarrow> read_only h h'"
  by (auto simp: findTargetedNodes_def Let_def split: Option.bind_splits sum.splits if_splits
      dest!: listed_nodes_loop_read_only selected_nodes_loop_read_only dest: read_only_after)

lemma node_wanted_read_only [trace_ext]: "node_wanted env spec n h = (r, h') \<Longrightarrow> read_only h h'"
  by (auto simp: node_wanted_def Let_def split: sum.splits if_splits)

lemma removed_node_read_only [trace_ext]: "removed_node env rc wl n h = Some (r, h') \<Longrightarrow> read_only h h'"
  by (auto simp: removed_node_def split: Option.bind_splits prod.splits sum.splits if_splits bool.splits
      dest!: lookup_workload_read_only node_wanted_read_only getPodAddress_read_only
      intro: read_only_trans)

lemma removed_loop_read_only [trace_ext]: "removed_loop env rc wl nodes h = Some (r, h') \<Longrightarrow> read_only h h'"
  by (induction nodes arbitrary: h r)
    (auto split: Option.bind_splits sum.splits dest!: removed_node_read_only, (blast intro: read_only_trans)+)

lemma findRemovedNodes_read_only [trace_ext]:
  "findRemovedNodes env rc nodes wl h = Some (r, h') \<Longrightarrow> read_only h h'"
  unfolding findRemovedNodes_def by (rule removed_loop_read_only)

section \<open>The status update\<close>

lemma write_status_writes:
  "write_status env wl h = ((err, wl'), h') \<Longrightarrow> writes h' = writes h @ [UpdateWorkloadStatus wl]"
  by (auto simp: write_status_def Let_def split: sum.splits)

text \<open>At most one write, of the same resource with only the state of the node changed.\<close>

lemma filled_state_Response: "filled_state w s0 = Inr s \<Longrightarrow> Response s = Response s0"
  by (auto simp: filled_state_def split: sum.splits)

lemma put_state_twice [simp]: "put_state n s (put_state n s0 wl) = put_state n s wl"
  by (simp add: put_state_def)

lemma updateRmdWorkloadStatus_cases:
  assumes "updateRmdWorkloadStatus env wl n a resp h = Some ((err, wl'), h')"
  shows "\<exists>h1. read_only h h1 \<and>
    ((h' = h1 \<and> err \<noteq> None) \<or>
     (\<exists>s. Response s = resp \<and> write_status env (put_state n s wl) h1 = ((err, wl'), h')))"
proof -
  let ?s = "(node_state_of wl n)\<lparr>Response := resp\<rparr>"
  obtain r h1 where r: "GetWorkloads env a h = (r, h1)" by fastforce
  have ro: "read_only h h1" by (rule GetWorkloads_read_only [OF r])
  from assms r obtain w where "FindWorkloadByName (case r of Inl _ \<Rightarrow> [] | Inr ws \<Rightarrow> ws) (wlName wl) = Some w"
    by (auto simp: updateRmdWorkloadStatus_def Let_def split: Option.bind_splits)
  with assms r have eq: "(if rdtID w \<noteq> [] then
         (case filled_state w ?s of
            Inl e \<Rightarrow> ((Some e, put_state n ?s wl), h1)
          | Inr s \<Rightarrow> write_status env (put_state n s wl) h1)
       else write_status env (put_state n ?s wl) h1) = ((err, wl'), h')"
    by (cases "filled_state w ?s") (auto simp: updateRmdWorkloadStatus_def Let_def)
  show ?thesis
  proof (cases "rdtID w = []")
    case True
    with eq have "write_status env (put_state n ?s wl) h1 = ((err, wl'), h')" by simp
    with ro show ?thesis by (intro exI [of _ h1] conjI disjI2 exI [of _ ?s]) simp_all
  next
    case filled: False
    show ?thesis
    proof (cases "filled_state w ?s")
      case (Inl e)
      with filled eq ro show ?thesis by auto
    next
      case (Inr s)
      then have "Response s = resp" by (simp add: filled_state_Response)
      with filled eq ro Inr show ?thesis by (intro exI [of _ h1]) auto
    qed
  qed
qed

lemma updateRmdWorkloadStatus_writes:
  assumes "updateRmdWorkloadStatus env wl n a resp h = Some ((err, wl'), h')"
  shows "(writes h' = writes h \<and> err \<noteq> None) \<or>
    (\<exists>s. Response s = resp \<and> writes h' = writes h @ [UpdateWorkloadStatus (put_state n s wl)])"
  using updateRmdWorkloadStatus_cases [OF assms]
  by (auto dest!: read_only_writes write_status_writes)

section \<open>The contract of adding and updating\<close>

text \<open>
  Adding and updating send one request to the node's RMD, if it can be built, and then write
  the node's state. The error of the request is not the handler's: it only shows in the state's
  response.
\<close>

definition unsendable :: "'c env \<Rightarrow> string \<Rightarrow> string \<Rightarrow> RmdWorkload \<Rightarrow> string \<Rightarrow> trace \<Rightarrow> bool" where
  "unsendable env verb url wl a h \<longleftrightarrow>
     (\<exists>f h1. formatWorkload env wl a h = Some (f, h1) \<and>
        (\<forall>w. f = Inr w \<longrightarrow> \<not> plugins_marshalable (rdtPlugins w) \<or> new_request env verb url \<noteq> None))"

locale workload_apply =
  fixes send :: "'c env \<Rightarrow> string \<Rightarrow> RmdWorkload \<Rightarrow> string \<Rightarrow> trace \<Rightarrow> ((string \<times> gerr option) \<times> trace) option"
    and apply_to :: "'c env \<Rightarrow> string \<Rightarrow> RmdWorkload \<Rightarrow> string \<Rightarrow> trace \<Rightarrow> ((gerr option \<times> RmdWorkload) \<times> trace) option"
    and verb :: string
    and url :: "RmdWorkload \<Rightarrow> string \<Rightarrow> string \<Rightarrow> string"
  assumes send_writes: "send env a wl n h = Some ((resp, e), h1) \<Longrightarrow>
      (writes h1 = writes h \<and> e \<noteq> None \<and> unsendable env verb (url wl n a) wl a h) \<or>
      (\<exists>w h2. formatWorkload env wl a h = Some (Inr w, h2) \<and>
         writes h1 = writes h @ [HttpSend verb (url wl n a) (Some w)])"
    and send_crash: "send env a wl n h = None \<longleftrightarrow> formatWorkload env wl a h = None"
    and apply_eq: "apply_to env a wl n h =
      do { ((resp, _), h1) \<leftarrow> send env a wl n h; updateRmdWorkloadStatus env wl n a resp h1 }"
begin

lemma apply_writes:
  assumes "apply_to env a wl n h = Some ((err, wl'), h')"
  shows "\<exists>sent stat. writes h' = writes h @ sent @ stat \<and>
    (sent = [] \<and> unsendable env verb (url wl n a) wl a h \<or>
     (\<exists>w h2. formatWorkload env wl a h = Some (Inr w, h2) \<and> sent = [HttpSend verb (url wl n a) (Some w)])) \<and>
    (stat = [] \<and> err \<noteq> None \<or> (\<exists>s. stat = [UpdateWorkloadStatus (put_state n s wl)]))"
proof -
  from assms obtain resp e h1 where send: "send env a wl n h = Some ((resp, e), h1)"
    and stat: "updateRmdWorkloadStatus env wl n a resp h1 = Some ((err, wl'), h')"
    by (auto simp: apply_eq split: Option.bind_splits)
  from send_writes [OF send] obtain sent where "writes h1 = writes h @ sent"
    "sent = [] \<and> unsendable env verb (url wl n a) wl a h \<or>
     (\<exists>w h2. formatWorkload env wl a h = Some (Inr w, h2) \<and> sent = [HttpSend verb (url wl n a) (Some w)])"
    by auto
  moreover from updateRmdWorkloadStatus_writes [OF stat] obtain st where
    "writes h' = writes h1 @ st"
    "st = [] \<and> err \<noteq> None \<or> (\<exists>s. st = [UpdateWorkloadStatus (put_state n s wl)])"
    by auto
  ultimately show ?thesis by (intro exI [of _ sent] exI [of _ st]) auto
qed

lemma apply_crash:
  "apply_to env a wl n h = None \<longleftrightarrow> formatWorkload env wl a h = None \<or>
     (\<exists>resp e h1. send env a wl n h = Some ((resp, e), h1) \<and> updateRmdWorkloadStatus env wl n a resp h1 = None)"
  using send_crash [of env a wl n h] by (cases "send env a wl n h") (auto simp: apply_eq)

lemma apply_ignores_request_error:
  assumes "send env a wl n h = Some ((resp, e), h1)"
  shows "apply_to env a wl n h = updateRmdWorkloadStatus env wl n a resp h1"
  by (simp add: apply_eq assms)

end

interpretation adding: workload_apply "\<lambda>env a wl n. PostWorkload env wl a" addWorkload "''POST''"
  "\<lambda>wl n a. workloads_url a"
proof (unfold_locales, goal_cases)
  case (1 env a wl n h resp e h1)
  from post.request_cases [OF 1] show ?case by (auto simp: unsendable_def formatWorkload_writes)
next
  case (2 env a wl n h)
  show ?case by (rule post.request_crash)
next
  case (3 env a wl n h)
  show ?case by (simp add: addWorkload_def)
qed

interpretation updating: workload_apply
  "\<lambda>env a wl n. PatchWorkload env wl a (stateID (node_state_of wl n))" updateWorkload "''PATCH''"
  "\<lambda>wl n a. workload_url a (stateID (node_state_of wl n))"
proof (unfold_locales, goal_cases)
  case (1 env a wl n h resp e h1)
  from patch.request_cases [OF 1] show ?case by (auto simp: unsendable_def formatWorkload_writes)
next
  case (2 env a wl n h)
  show ?case by (rule patch.request_crash)
next
  case (3 env a wl n h)
  show ?case by (simp add: updateWorkload_def)
qed

section \<open>Deletions\<close>

definition delete_call :: "string \<Rightarrow> string \<Rightarrow> call" where
  "delete_call a i = HttpSend ''DELETE'' (workload_url a i) None"

lemma DeleteWorkload_cases:
  assumes "DeleteWorkload env a i h = (err, h')"
  shows "(writes h' = writes h \<and> err \<noteq> None) \<or> writes h' = writes h @ [delete_call a i]"
proof (cases "new_request env ''DELETE'' (workload_url a i)")
  case None
  with DeleteWorkload_writes [OF assms] show ?thesis by (simp add: delete_call_def)
next
  case (Some e)
  then have "DeleteWorkload env a i h = (Some e, h)" by (simp add: DeleteWorkload_def Let_def)
  with assms show ?thesis by auto
qed

text \<open>Both deletion loops send the deletions of a prefix of their list, of all of it on success.\<close>

lemma obselete_delete_loop_writes:
  assumes "obselete_delete_loop env ws h = (err, h')"
  shows "\<exists>k. writes h' = writes h @ List.map (\<lambda>(a, i). delete_call a i) (take k ws) \<and>
    (err = None \<longrightarrow> length ws \<le> k)"
  using assms
proof (induction ws arbitrary: h)
  case Nil
  then show ?case by auto
next
  case (Cons w ws)
  obtain a i where w: "w = (a, i)" by fastforce
  obtain e h1 where d: "DeleteWorkload env a i h = (e, h1)" by fastforce
  note one = DeleteWorkload_cases [OF d]
  show ?case
  proof (cases e)
    case (Some e')
    with Cons.prems w d have "h' = h1" "err = Some e'" by auto
    with one show ?thesis by (intro exI [of _ "if writes h1 = writes h then 0 else 1"]) (auto simp: w)
  next
    case None
    with Cons.prems w d have "obselete_delete_loop env ws h1 = (err, h')" by simp
    from Cons.IH [OF this] obtain k where "writes h' = writes h1 @ List.map (\<lambda>(a, i). delete_call a i) (take k ws)"
      "err = None \<longrightarrow> length ws \<le> k" by auto
    with one None show ?thesis by (intro exI [of _ "Suc k"]) (auto simp: w)
  qed
qed

lemma remove_loop_writes:
  assumes "remove_loop env wl rs h = ((err, wl'), h')"
  shows "\<exists>k. writes h' = writes h @ List.map (\<lambda>r. delete_call (rnRmdAddress r) (rnWorkloadID r)) (take k rs) \<and>
    (err = None \<longrightarrow> length rs \<le> k \<and>
       wl' = wl\<lparr>WorkloadStates := fold (\<lambda>r. AList.delete (rnNodeName r)) rs (WorkloadStates wl)\<rparr>)"
  using assms
proof (induction rs arbitrary: h wl)
  case Nil
  then show ?case by auto
next
  case (Cons r rs)
  obtain e h1 where d: "DeleteWorkload env (rnRmdAddress r) (rnWorkloadID r) h = (e, h1)" by fastforce
  note one = DeleteWorkload_cases [OF d]
  show ?case
  proof (cases e)
    case (Some e')
    with Cons.prems d have "h' = h1" "err = Some e'" by auto
    with one show ?thesis by (intro exI [of _ "if writes h1 = writes h then 0 else 1"]) auto
  next
    case None
    let ?wl = "wl\<lparr>WorkloadStates := AList.delete (rnNodeName r) (WorkloadStates wl)\<rparr>"
    from None Cons.prems d have "remove_loop env ?wl rs h1 = ((err, wl'), h')" by simp
    from Cons.IH [OF this] obtain k where "writes h' = writes h1 @
        List.map (\<lambda>r. delete_call (rnRmdAddress r) (rnWorkloadID r)) (take k rs)"
      "err = None \<longrightarrow> length rs \<le> k \<and>
        wl' = ?wl\<lparr>WorkloadStates := fold (\<lambda>r. AList.delete (rnNodeName r)) rs (WorkloadStates ?wl)\<rparr>" by auto
    with one None show ?thesis by (intro exI [of _ "Suc k"]) auto
  qed
qed

lemma removeWorkload_writes:
  assumes "removeWorkload env wl rs h = ((err, wl'), h')"
  shows "\<exists>k st. writes h' = writes h @ List.map (\<lambda>r. delete_call (rnRmdAddress r) (rnWorkloadID r)) (take k rs) @ st \<and>
    (st = [] \<and> err \<noteq> None \<or>
     length rs \<le> k \<and> st = [UpdateWorkloadStatus
        (wl\<lparr>WorkloadStates := fold (\<lambda>r. AList.delete (rnNodeName r)) rs (WorkloadStates wl)\<rparr>)])"
proof -
  obtain e wl1 h1 where l: "remove_loop env wl rs h = ((e, wl1), h1)" by (metis prod.exhaust)
  from remove_loop_writes [OF l] obtain k where k:
    "writes h1 = writes h @ List.map (\<lambda>r. delete_call (rnRmdAddress r) (rnWorkloadID r)) (take k rs)"
    "e = None \<longrightarrow> length rs \<le> k \<and>
       wl1 = wl\<lparr>WorkloadStates := fold (\<lambda>r. AList.delete (rnNodeName r)) rs (WorkloadStates wl)\<rparr>"
    by auto
  show ?thesis
  proof (cases e)
    case (Some e')
    with assms l have "h' = h1" "err = Some e'" by (auto simp: removeWorkload_def)
    with k show ?thesis by (intro exI [of _ k] exI [of _ "[]"]) simp
  next
    case None
    with assms l have "write_status env wl1 h1 = ((err, wl'), h')" by (simp add: removeWorkload_def)
    from write_status_writes [OF this] k None show ?thesis
      by (intro exI [of _ k] exI [of _ "[UpdateWorkloadStatus wl1]"]) simp
  qed
qed

lemma removeWorkload_calls:
  assumes "removeWorkload env wl rs h = ((err, wl'), h')" "c \<in> set (writes h')"
  shows "c \<in> set (writes h) \<or> (\<exists>r \<in> set rs. c = delete_call (rnRmdAddress r) (rnWorkloadID r)) \<or>
    (\<exists>w. c = UpdateWorkloadStatus w)"
  using removeWorkload_writes [OF assms(1)] assms(2) by (force dest: in_set_takeD)

lemma subseq_set: "subseq xs ys \<Longrightarrow> set xs \<subseteq> set ys"
  by (induction rule: list_emb.induct) auto

section \<open>The workload of a name\<close>

lemma zero_workload_empty [simp]: "UUID zero_RDTWorkLoad = ''''" "rdtID zero_RDTWorkLoad = ''''"
  by (simp_all add: zero_RDTWorkLoad_def)

text \<open>
  The search finds the first workload of the name or returns an empty one; it panics only
  on a list with a nil entry.
\<close>

lemma FindWorkloadByName_Some:
  "FindWorkloadByName ws n = Some w \<Longrightarrow>
     (Some w \<in> set ws \<and> UUID w = n) \<or> (w = zero_RDTWorkLoad \<and> (\<forall>v. Some v \<in> set ws \<longrightarrow> UUID v \<noteq> n))"
  by (induction ws) (auto split: Option.bind_splits if_splits)

lemma FindWorkloadByName_None: "FindWorkloadByName ws n = None \<Longrightarrow> None \<in> set ws"
  by (induction ws) (auto split: Option.bind_splits if_splits)

lemma FindWorkloadByName_UUID:
  "FindWorkloadByName ws n = Some w \<Longrightarrow> UUID w \<noteq> '''' \<Longrightarrow> Some w \<in> set ws \<and> UUID w = n"
  by (auto dest: FindWorkloadByName_Some)

text \<open>
  \<open>runs_on env rc n name a i\<close>: at some point the node's RMD is at address \<open>a\<close> and lists
  a workload of that name with the id \<open>i\<close>.
\<close>

definition runs_on :: "'c env \<Rightarrow> OperatorRmdClient \<Rightarrow> string \<Rightarrow> string \<Rightarrow> string \<Rightarrow> string \<Rightarrow> bool" where
  "runs_on env rc n name a i \<longleftrightarrow>
     (\<exists>h h1 ws h2 w. getPodAddress env rc n h = (Inr a, h1) \<and> GetWorkloads env a h1 = (Inr ws, h2) \<and>
        Some w \<in> set ws \<and> UUID w = name \<and> rdtID w = i)"

lemma lookup_workload_Inr:
  assumes "lookup_workload env rc n name h = Some (Inr (a, w), h')" "UUID w \<noteq> ''''"
  shows "runs_on env rc n name a (rdtID w)"
proof -
  from assms(1) obtain h1 ws where "getPodAddress env rc n h = (Inr a, h1)"
    "GetWorkloads env a h1 = (Inr ws, h')" "FindWorkloadByName ws name = Some w"
    by (auto elim: lookup_workload_cases)
  moreover from FindWorkloadByName_UUID [OF this(3) assms(2)] have "Some w \<in> set ws" "UUID w = name" by auto
  ultimately show ?thesis unfolding runs_on_def by blast
qed

lemma obselete_loop_Inr:
  assumes "obselete_loop env rc name nodes acc h = Some (Inr obs, h')"
    and "\<And>a i. (a, i) \<in> set acc \<Longrightarrow> \<exists>n \<in> ns. runs_on env rc n name a i" "set nodes \<subseteq> ns"
    and "distinct (List.map fst acc)"
  shows "distinct (List.map fst obs) \<and> (\<forall>(a, i) \<in> set obs. \<exists>n \<in> ns. runs_on env rc n name a i)"
  using assms
proof (induction nodes arbitrary: acc h)
  case Nil
  then show ?case by auto
next
  case (Cons n nodes)
  from Cons.prems(1) obtain r h1 a w where l: "lookup_workload env rc n name h = Some (r, h1)"
    and r: "r = Inr (a, w)" by (auto split: Option.bind_splits sum.splits)
  show ?case
  proof (cases "UUID w = ''''")
    case True
    with Cons.prems l r have "obselete_loop env rc name nodes acc h1 = Some (Inr obs, h')" by simp
    from Cons.IH [OF this] Cons.prems(2-4) show ?thesis by simp
  next
    case False
    with Cons.prems l r have rest: "obselete_loop env rc name nodes (AList.update a (rdtID w) acc) h1 = Some (Inr obs, h')"
      by simp
    have "runs_on env rc n name a (rdtID w)"
      using lookup_workload_Inr False l r by blast
    then have "\<exists>n \<in> ns. runs_on env rc n name a' i'" if "(a', i') \<in> set (AList.update a (rdtID w) acc)" for a' i'
      using that set_update_subset [of a "rdtID w" acc] Cons.prems(2,3) by auto
    with Cons.IH [OF rest] Cons.prems(3,4) show ?thesis by (simp add: distinct_update)
  qed
qed

section \<open>The searches over the nodes\<close>

lemma getTargetedNode_name: "getTargetedNode env rc n name h = Some (Inr t, h') \<Longrightarrow> tnNodeName t = n"
  by (auto simp: getTargetedNode_def split: Option.bind_splits sum.splits)

lemma getTargetedNode_self:
  "getTargetedNode env rc n name h = Some (Inr t, h') \<Longrightarrow> getTargetedNode env rc (tnNodeName t) name h = Some (Inr t, h')"
  by (simp add: getTargetedNode_name)

lemma selected_nodes_targets:
  "selected_nodes_loop env rc name nodes h = Some (Inr ts, h') \<Longrightarrow> t \<in> set ts \<Longrightarrow>
     \<exists>h1 h2. getTargetedNode env rc (tnNodeName t) name h1 = Some (Inr t, h2)"
  by (induction nodes arbitrary: h ts)
    (auto split: Option.bind_splits sum.splits dest: getTargetedNode_self, blast dest: getTargetedNode_self)

lemma listed_nodes_targets:
  assumes "listed_nodes_loop env rc name nodes h = Some (ts, h')"
  shows "(\<forall>t \<in> set ts. \<exists>h1 h2. getTargetedNode env rc (tnNodeName t) name h1 = Some (Inr t, h2)) \<and>
    (\<forall>n \<in> set nodes. n \<notin> tnNodeName ` set ts \<longrightarrow> (\<exists>h1 h2 e. getTargetedNode env rc n name h1 = Some (Inl e, h2)))"
  using assms
proof (induction nodes arbitrary: h ts)
  case Nil
  then show ?case by simp
next
  case (Cons n nodes)
  from Cons.prems obtain r h1 ts1 where r: "getTargetedNode env rc n name h = Some (r, h1)"
    and rest: "listed_nodes_loop env rc name nodes h1 = Some (ts1, h')"
    and ts: "ts = (case r of Inl _ \<Rightarrow> ts1 | Inr t \<Rightarrow> t # ts1)"
    by (auto split: Option.bind_splits sum.splits)
  show ?case
  proof (cases r)
    case (Inl e)
    with Cons.IH [OF rest] r ts show ?thesis by auto
  next
    case (Inr t)
    with Cons.IH [OF rest] r ts getTargetedNode_name [OF r [unfolded Inr]] show ?thesis by auto
  qed
qed

text \<open>Whether the workload exists on a target is read off the list of its RMD.\<close>

lemma getTargetedNode_exists:
  assumes "getTargetedNode env rc n name h = Some (Inr t, h')" "name \<noteq> ''''"
  shows "\<exists>h1 ws. GetWorkloads env (tnRmdAddress t) h1 = (Inr ws, h') \<and>
    (workloadExists t \<longleftrightarrow> (\<exists>w. Some w \<in> set ws \<and> UUID w = name))"
proof -
  from assms(1) obtain a w where l: "lookup_workload env rc n name h = Some (Inr (a, w), h')"
    and t: "tnRmdAddress t = a" "workloadExists t \<longleftrightarrow> UUID w \<noteq> ''''"
    by (auto simp: getTargetedNode_def split: Option.bind_splits sum.splits)
  from l obtain h1 ws where "GetWorkloads env a h1 = (Inr ws, h')" "FindWorkloadByName ws name = Some w"
    by (auto elim: lookup_workload_cases)
  with FindWorkloadByName_Some [OF this(2)] t assms(2) show ?thesis by auto
qed

lemma findTargetedNodes_targets:
  assumes "findTargetedNodes env rc wl h = Some (Inr ts, h')" "t \<in> set ts"
  shows "\<exists>h1 h2. getTargetedNode env rc (tnNodeName t) (wlName wl) h1 = Some (Inr t, h2)"
  using assms
  by (auto simp: findTargetedNodes_def Let_def split: if_splits sum.splits Option.bind_splits
      dest: selected_nodes_targets listed_nodes_targets)

lemma findTargetedNodes_exists:
  assumes "findTargetedNodes env rc wl h = Some (Inr ts, h')"
  shows "\<forall>t \<in> set ts. wlName wl \<noteq> '''' \<longrightarrow> (\<exists>h2 ws h3. GetWorkloads env (tnRmdAddress t) h2 = (Inr ws, h3) \<and>
    (workloadExists t \<longleftrightarrow> (\<exists>w. Some w \<in> set ws \<and> UUID w = wlName wl)))"
proof (intro ballI impI)
  fix t assume "t \<in> set ts" and name: "wlName wl \<noteq> ''''"
  with findTargetedNodes_targets [OF assms] obtain h1 h2 where
    "getTargetedNode env rc (tnNodeName t) (wlName wl) h1 = Some (Inr t, h2)" by blast
  from getTargetedNode_exists [OF this name] show "\<exists>h2 ws h3. GetWorkloads env (tnRmdAddress t) h2 = (Inr ws, h3) \<and>
    (workloadExists t \<longleftrightarrow> (\<exists>w. Some w \<in> set ws \<and> UUID w = wlName wl))" by blast
qed

lemma listed_nodes_subseq:
  "listed_nodes_loop env rc name nodes h = Some (ts, h') \<Longrightarrow> subseq (List.map tnNodeName ts) nodes"
  by (induction nodes arbitrary: h ts)
    (auto split: Option.bind_splits sum.splits dest!: getTargetedNode_name simp del: subseq_Cons2_iff,
      metis list_emb_Cons)

lemma selected_nodes_names:
  "selected_nodes_loop env rc name nodes h = Some (Inr ts, h') \<Longrightarrow> List.map tnNodeName ts = List.map nodeName nodes"
  by (induction nodes arbitrary: h ts)
    (auto split: Option.bind_splits sum.splits dest!: getTargetedNode_name)

lemma spec_lists_node_iff [simp]: "spec_lists_node ns n \<longleftrightarrow> n \<in> set ns"
  by (induction ns) auto

lemma node_wanted_False:
  assumes "node_wanted env spec n h = (Inr False, h')"
  shows "(NodeSelector spec = [] \<longrightarrow> n \<notin> set (Nodes spec)) \<and>
    (NodeSelector spec \<noteq> [] \<longrightarrow> (\<exists>h1 node. get_node env h1 n = Inr node \<and>
       \<not> labels_in_whitelist env (NodeSelector spec) (nodeLabels node)))"
  using assms by (auto simp: node_wanted_def Let_def split: if_splits sum.splits)

text \<open>What an entry of the removed nodes means.\<close>

lemma removed_node_Some:
  assumes "removed_node env rc wl n h = Some (Inr (Some r), h')" "wlName wl \<noteq> ''''"
  shows "rnNodeName r = n \<and> (\<exists>a. runs_on env rc n (wlName wl) a (rnWorkloadID r)) \<and>
    (\<exists>h1 h2. node_wanted env (wlSpec wl) n h1 = (Inr False, h2)) \<and>
    (\<exists>h1 h2. getPodAddress env rc n h1 = (Inr (rnRmdAddress r), h2))"
proof -
  from assms(1) obtain a w h1 h2 where l: "lookup_workload env rc n (wlName wl) h = Some (Inr (a, w), h1)"
    and w: "UUID w = wlName wl" and want: "node_wanted env (wlSpec wl) n h1 = (Inr False, h2)"
    and a: "getPodAddress env rc n h2 = (Inr (rnRmdAddress r), h')"
    and r: "rnNodeName r = n" "rnWorkloadID r = rdtID w"
    by (auto simp: removed_node_def split: Option.bind_splits prod.splits sum.splits if_splits bool.splits)
  have "runs_on env rc n (wlName wl) a (rdtID w)"
    using lookup_workload_Inr [OF l] w assms(2) by simp
  with want a r show ?thesis by auto
qed

lemma removed_loop_Inr:
  assumes "removed_loop env rc wl nodes h = Some (Inr rs, h')" "wlName wl \<noteq> ''''"
  shows "subseq (List.map rnNodeName rs) nodes \<and>
    (\<forall>r \<in> set rs. (\<exists>a. runs_on env rc (rnNodeName r) (wlName wl) a (rnWorkloadID r)) \<and>
       (\<exists>h1 h2. node_wanted env (wlSpec wl) (rnNodeName r) h1 = (Inr False, h2)) \<and>
       (\<exists>h1 h2. getPodAddress env rc (rnNodeName r) h1 = (Inr (rnRmdAddress r), h2)))"
  using assms(1)
proof (induction nodes arbitrary: h rs)
  case Nil
  then show ?case by simp
next
  case (Cons n nodes)
  from Cons.prems obtain e h1 entry rs1 where e: "removed_node env rc wl n h = Some (e, h1)"
    and entry: "e = Inr entry"
    and rest: "removed_loop env rc wl nodes h1 = Some (Inr rs1, h')"
    and rs: "rs = (case entry of None \<Rightarrow> rs1 | Some r \<Rightarrow> r # rs1)"
    by (auto split: Option.bind_splits sum.splits)
  note IH = Cons.IH [OF rest]
  show ?case
  proof (cases entry)
    case None
    with IH rs show ?thesis by auto
  next
    case (Some r)
    from removed_node_Some [OF e [unfolded entry Some] assms(2)] IH rs Some show ?thesis by auto
  qed
qed

section \<open>The order of the requests\<close>

text \<open>
  A reconcile first applies the workload and then removes it; the order on the phases makes
  "every POST and PATCH before every DELETE" the sortedness of a list.
\<close>

datatype phase = Applying | Removing

instantiation phase :: linorder
begin

definition less_eq_phase :: "phase \<Rightarrow> phase \<Rightarrow> bool" where
  "less_eq_phase p q \<longleftrightarrow> (p = Removing \<longrightarrow> q = Removing)"

definition less_phase :: "phase \<Rightarrow> phase \<Rightarrow> bool" where
  "less_phase p q \<longleftrightarrow> p = Applying \<and> q = Removing"

instance
proof
  fix p q r :: phase
  show "(p < q) = (p \<le> q \<and> \<not> q \<le> p)" by (cases p; cases q; simp add: less_eq_phase_def less_phase_def)
  show "p \<le> p" by (simp add: less_eq_phase_def)
  show "p \<le> q \<Longrightarrow> q \<le> r \<Longrightarrow> p \<le> r" by (simp add: less_eq_phase_def)
  show "p \<le> q \<Longrightarrow> q \<le> p \<Longrightarrow> p = q" by (cases p; cases q; simp add: less_eq_phase_def)
  show "p \<le> q \<or> q \<le> p" by (cases p; cases q; simp add: less_eq_phase_def)
qed

end

fun send_phase :: "call \<Rightarrow> phase list" where
  "send_phase (HttpSend verb url body) = [if verb = ''DELETE'' then Removing else Applying]"
| "send_phase _ = []"

definition phases :: "call list \<Rightarrow> phase list" where
  "phases cs = concat (List.map send_phase cs)"

lemma phases_simps [simp]:
  "phases [] = []" "phases (c # cs) = send_phase c @ phases cs" "phases (cs @ ds) = phases cs @ phases ds"
  by (simp_all add: phases_def)

lemma phases_deletes: "phases (List.map (\<lambda>x. delete_call (f x) (g x)) xs) = replicate (length xs) Removing"
  by (induction xs) (simp_all add: delete_call_def)

text \<open>
  What the writes for one target are: the request for the node, by whether the workload was
  found there, unless it could not be built, and then the status of the resource with the
  node's state. A PATCH goes to the id that the status held for the node before.
\<close>

definition target_request :: "targetedNodeInfo \<Rightarrow> string \<Rightarrow> RDTWorkLoad \<Rightarrow> call" where
  "target_request t i w =
     (if workloadExists t then HttpSend ''PATCH'' (workload_url (tnRmdAddress t) i) (Some w)
      else HttpSend ''POST'' (workloads_url (tnRmdAddress t)) (Some w))"

definition target_unsendable :: "'c env \<Rightarrow> RmdWorkload \<Rightarrow> targetedNodeInfo \<Rightarrow> bool" where
  "target_unsendable env wl t \<longleftrightarrow> (\<exists>h.
     if workloadExists t
     then unsendable env ''PATCH'' (workload_url (tnRmdAddress t) (stateID (node_state_of wl (tnNodeName t)))) wl (tnRmdAddress t) h
     else unsendable env ''POST'' (workloads_url (tnRmdAddress t)) wl (tnRmdAddress t) h)"

definition target_sent :: "'c env \<Rightarrow> RmdWorkload \<Rightarrow> targetedNodeInfo \<Rightarrow> call list \<Rightarrow> bool" where
  "target_sent env wl t sent \<longleftrightarrow>
     sent = [] \<and> target_unsendable env wl t \<or>
     (\<exists>h w h'. formatWorkload env wl (tnRmdAddress t) h = Some (Inr w, h') \<and>
        sent = [target_request t (stateID (node_state_of wl (tnNodeName t))) w])"

definition same_resource :: "RmdWorkload \<Rightarrow> RmdWorkload \<Rightarrow> bool" where
  "same_resource wl wl' \<longleftrightarrow> wlName wl' = wlName wl \<and> wlSpec wl' = wlSpec wl"

definition target_done :: "'c env \<Rightarrow> RmdWorkload \<Rightarrow> targetedNodeInfo \<Rightarrow> call list \<Rightarrow> bool" where
  "target_done env wl t cs \<longleftrightarrow>
     (\<exists>wl' sent s. same_resource wl wl' \<and> target_sent env wl' t sent \<and>
        cs = sent @ [UpdateWorkloadStatus (put_state (tnNodeName t) s wl')])"

definition target_cut :: "'c env \<Rightarrow> RmdWorkload \<Rightarrow> targetedNodeInfo \<Rightarrow> call list \<Rightarrow> bool" where
  "target_cut env wl t sent \<longleftrightarrow> (\<exists>wl'. same_resource wl wl' \<and> target_sent env wl' t sent)"

lemma same_resource_refl [simp]: "same_resource wl wl"
  by (simp add: same_resource_def)

lemma same_resource_target:
  "same_resource wl wl1 \<Longrightarrow> target_done env wl1 t cs \<Longrightarrow> target_done env wl t cs"
  "same_resource wl wl1 \<Longrightarrow> target_cut env wl1 t cs \<Longrightarrow> target_cut env wl t cs"
  by (auto simp: target_done_def target_cut_def same_resource_def)

lemma target_sent_phases: "target_sent env wl t sent \<Longrightarrow> phases sent = [] \<or> phases sent = [Applying]"
  by (auto simp: target_sent_def target_request_def split: if_splits)

lemma target_done_phases: "target_done env wl t cs \<Longrightarrow> phases cs = [] \<or> phases cs = [Applying]"
  by (auto simp: target_done_def dest: target_sent_phases)

lemma target_no_delete:
  "target_done env wl t cs \<Longrightarrow> delete_call a i \<notin> set cs" "target_cut env wl t cs \<Longrightarrow> delete_call a i \<notin> set cs"
  by (auto simp: target_done_def target_cut_def target_sent_def target_request_def delete_call_def split: if_splits)

text \<open>
  The documented behaviour of the status subresource: an update of the status stores the
  status that was sent and leaves name and spec as they were.
\<close>

definition status_subresource :: "'c env \<Rightarrow> bool" where
  "status_subresource env \<longleftrightarrow>
     (\<forall>h wl wl'. update_workload_status env h wl = Inr wl' \<longrightarrow>
        wlName wl' = wlName wl \<and> wlSpec wl' = wlSpec wl \<and> WorkloadStates wl' = WorkloadStates wl)"

lemma write_status_keeps:
  "status_subresource env \<Longrightarrow> write_status env wl h = ((err, wl'), h') \<Longrightarrow>
     wlName wl' = wlName wl \<and> wlSpec wl' = wlSpec wl \<and> WorkloadStates wl' = WorkloadStates wl"
  unfolding status_subresource_def write_status_def Let_def by (auto split: sum.splits)

lemma put_state_keeps [simp]:
  "wlName (put_state n s wl) = wlName wl" "wlSpec (put_state n s wl) = wlSpec wl"
  by (simp_all add: put_state_def)

lemma updateRmdWorkloadStatus_keeps:
  assumes "status_subresource env" "updateRmdWorkloadStatus env wl n a resp h = Some ((None, wl'), h')"
  shows "same_resource wl wl'"
proof -
  from updateRmdWorkloadStatus_cases [OF assms(2)] obtain s h1
    where "write_status env (put_state n s wl) h1 = ((None, wl'), h')" by auto
  from write_status_keeps [OF assms(1) this] show ?thesis by (simp add: same_resource_def)
qed

context workload_apply
begin

lemma apply_keeps:
  assumes "status_subresource env" "apply_to env a wl n h = Some ((None, wl'), h')"
  shows "same_resource wl wl'"
proof -
  from assms(2) obtain resp h1 where "updateRmdWorkloadStatus env wl n a resp h1 = Some ((None, wl'), h')"
    by (auto simp: apply_eq split: Option.bind_splits)
  from updateRmdWorkloadStatus_keeps [OF assms(1) this] show ?thesis .
qed

end

text \<open>One node of the loop over the targets.\<close>

definition apply_one ::
  "'c env \<Rightarrow> RmdWorkload \<Rightarrow> targetedNodeInfo \<Rightarrow> trace \<Rightarrow> ((gerr option \<times> RmdWorkload) \<times> trace) option"
where
  "apply_one env wl t h =
     (if workloadExists t then updateWorkload env (tnRmdAddress t) wl (tnNodeName t) h
      else addWorkload env (tnRmdAddress t) wl (tnNodeName t) h)"

lemma apply_loop_Cons:
  "apply_loop env wl (t # ts) h =
     do {
       ((err, wl1), h1) \<leftarrow> apply_one env wl t h;
       (case err of Some e \<Rightarrow> Some ((Some e, wl1), h1) | None \<Rightarrow> apply_loop env wl1 ts h1)
     }"
  by (simp add: apply_one_def)

lemma apply_one_writes:
  assumes "apply_one env wl t h = Some ((err, wl'), h')"
  shows "\<exists>cs. writes h' = writes h @ cs \<and> (target_done env wl t cs \<or> err \<noteq> None \<and> target_cut env wl t cs)"
proof -
  have "\<exists>sent st. writes h' = writes h @ sent @ st \<and> target_sent env wl t sent \<and>
      (st = [] \<and> err \<noteq> None \<or> (\<exists>s. st = [UpdateWorkloadStatus (put_state (tnNodeName t) s wl)]))"
  proof (cases "workloadExists t")
    case True
    with assms have "updateWorkload env (tnRmdAddress t) wl (tnNodeName t) h = Some ((err, wl'), h')"
      by (simp add: apply_one_def)
    from updating.apply_writes [OF this] obtain sent st where "writes h' = writes h @ sent @ st"
      and s: "sent = [] \<and> unsendable env ''PATCH''
          (workload_url (tnRmdAddress t) (stateID (node_state_of wl (tnNodeName t)))) wl (tnRmdAddress t) h \<or>
        (\<exists>w h2. formatWorkload env wl (tnRmdAddress t) h = Some (Inr w, h2) \<and> sent = [HttpSend ''PATCH''
          (workload_url (tnRmdAddress t) (stateID (node_state_of wl (tnNodeName t)))) (Some w)])"
      and "st = [] \<and> err \<noteq> None \<or> (\<exists>s. st = [UpdateWorkloadStatus (put_state (tnNodeName t) s wl)])"
      by (elim exE conjE)
    moreover from s True have "target_sent env wl t sent"
      unfolding target_sent_def target_unsendable_def target_request_def by (simp only: if_True) blast
    ultimately show ?thesis by blast
  next
    case False
    with assms have "addWorkload env (tnRmdAddress t) wl (tnNodeName t) h = Some ((err, wl'), h')"
      by (simp add: apply_one_def)
    from adding.apply_writes [OF this] obtain sent st where "writes h' = writes h @ sent @ st"
      and s: "sent = [] \<and> unsendable env ''POST'' (workloads_url (tnRmdAddress t)) wl (tnRmdAddress t) h \<or>
        (\<exists>w h2. formatWorkload env wl (tnRmdAddress t) h = Some (Inr w, h2) \<and> sent = [HttpSend ''POST''
          (workloads_url (tnRmdAddress t)) (Some w)])"
      and "st = [] \<and> err \<noteq> None \<or> (\<exists>s. st = [UpdateWorkloadStatus (put_state (tnNodeName t) s wl)])"
      by (elim exE conjE)
    moreover from s False have "target_sent env wl t sent"
      unfolding target_sent_def target_unsendable_def target_request_def by (simp only: if_False) blast
    ultimately show ?thesis by blast
  qed
  then obtain sent st where w: "writes h' = writes h @ sent @ st" and s: "target_sent env wl t sent"
    and "st = [] \<and> err \<noteq> None \<or> (\<exists>s. st = [UpdateWorkloadStatus (put_state (tnNodeName t) s wl)])" by blast
  then show ?thesis
    by (intro exI [of _ "sent @ st"])
      (auto simp: target_done_def target_cut_def intro!: exI [of _ wl])
qed

lemma apply_one_keeps:
  assumes "status_subresource env" "apply_one env wl t h = Some ((None, wl'), h')"
  shows "same_resource wl wl'"
  using assms by (auto simp: apply_one_def split: if_splits dest: adding.apply_keeps updating.apply_keeps)

text \<open>
  The loop over the targets: the writes for the first ones, in their order, all of them if it
  ends without an error; on an error it may have cut off the writes for the next.
\<close>

definition targets_done :: "'c env \<Rightarrow> RmdWorkload \<Rightarrow> targetedNodeInfo list \<Rightarrow> bool \<Rightarrow> call list \<Rightarrow> bool" where
  "targets_done env wl ts all cs \<longleftrightarrow>
     (\<exists>blocks rest. cs = concat blocks @ rest \<and> length blocks \<le> length ts \<and>
        list_all2 (target_done env wl) (take (length blocks) ts) blocks \<and>
        (if all then length blocks = length ts \<and> rest = []
         else rest = [] \<or> length blocks < length ts \<and> target_cut env wl (ts ! length blocks) rest))"

lemma apply_loop_writes:
  assumes "status_subresource env" "apply_loop env wl ts h = Some ((err, wl'), h')"
  shows "\<exists>cs. writes h' = writes h @ cs \<and> targets_done env wl ts (err = None) cs \<and>
    (err = None \<longrightarrow> same_resource wl wl')"
  using assms(2)
proof (induction ts arbitrary: wl h)
  case Nil
  then show ?case by (auto simp: targets_done_def)
next
  case (Cons t ts)
  from Cons.prems obtain e wl1 h1 where one: "apply_one env wl t h = Some ((e, wl1), h1)"
    and rest: "(case e of Some e \<Rightarrow> Some ((Some e, wl1), h1) | None \<Rightarrow> apply_loop env wl1 ts h1) =
      Some ((err, wl'), h')"
    unfolding apply_loop_Cons by (auto split: Option.bind_splits)
  from apply_one_writes [OF one] obtain cs where cs: "writes h1 = writes h @ cs"
    "target_done env wl t cs \<or> e \<noteq> None \<and> target_cut env wl t cs" by auto
  show ?case
  proof (cases e)
    case (Some e')
    with rest have err: "h' = h1" "err = Some e'" by auto
    from cs(2) have "targets_done env wl (t # ts) False cs"
    proof
      assume "target_done env wl t cs"
      then show ?thesis unfolding targets_done_def by (intro exI [of _ "[cs]"] exI [of _ "[]"]) simp
    next
      assume "e \<noteq> None \<and> target_cut env wl t cs"
      then show ?thesis unfolding targets_done_def by (intro exI [of _ "[]"] exI [of _ cs]) simp
    qed
    with cs(1) err show ?thesis by auto
  next
    case None
    with rest have loop: "apply_loop env wl1 ts h1 = Some ((err, wl'), h')" by simp
    from None one have same: "same_resource wl wl1" using apply_one_keeps [OF assms(1)] by simp
    from Cons.IH [OF loop] obtain ds where ds: "writes h' = writes h1 @ ds"
      "targets_done env wl1 ts (err = None) ds" "err = None \<longrightarrow> same_resource wl1 wl'" by auto
    from ds(2) obtain blocks tail where b: "ds = concat blocks @ tail" "length blocks \<le> length ts"
      "list_all2 (target_done env wl1) (take (length blocks) ts) blocks"
      "if err = None then length blocks = length ts \<and> tail = []
       else tail = [] \<or> length blocks < length ts \<and> target_cut env wl1 (ts ! length blocks) tail"
      unfolding targets_done_def by blast
    have "list_all2 (target_done env wl) (take (length blocks) ts) blocks"
      using b(3) by (rule list_all2_mono) (rule same_resource_target(1) [OF same])
    moreover have "target_done env wl t cs" using cs(2) None by simp
    ultimately have "targets_done env wl (t # ts) (err = None) (cs @ ds)"
      unfolding targets_done_def using b(1,2,4) same_resource_target(2) [OF same]
      by (intro exI [of _ "cs # blocks"] exI [of _ tail]) (auto split: if_splits)
    with cs(1) ds(1,3) same show ?thesis
      by (intro exI [of _ "cs @ ds"]) (auto simp: same_resource_def)
  qed
qed

lemma blocks_phases:
  "list_all2 (target_done env wl) ts blocks \<Longrightarrow>
     phases (concat blocks) = replicate (length (phases (concat blocks))) Applying"
  by (induction rule: list_all2_induct) (auto dest!: target_done_phases)

lemma targets_done_phases:
  assumes "targets_done env wl ts all cs"
  shows "sorted (phases cs @ replicate k Removing)"
proof -
  from assms obtain blocks rest where b: "cs = concat blocks @ rest"
    "list_all2 (target_done env wl) (take (length blocks) ts) blocks"
    "if all then length blocks = length ts \<and> rest = []
     else rest = [] \<or> length blocks < length ts \<and> target_cut env wl (ts ! length blocks) rest"
    unfolding targets_done_def by blast
  from b(3) have "rest = [] \<or> target_cut env wl (ts ! length blocks) rest" by (cases all) auto
  then have "set (phases rest) \<subseteq> {Applying}" by (auto simp: target_cut_def dest: target_sent_phases)
  moreover from blocks_phases [OF b(2)] have "set (phases (concat blocks)) \<subseteq> {Applying}"
    by (metis set_replicate_conv_if subsetI empty_iff)
  ultimately have "phases cs = replicate (length (phases cs)) Applying"
    unfolding b(1) by (intro replicate_eqI) auto
  moreover have "sorted (replicate j Applying @ replicate k Removing)" for j
    by (simp add: sorted_append less_eq_phase_def)
  ultimately show ?thesis by metis
qed

lemma targets_done_weaken:
  assumes "targets_done env wl ts True cs"
  shows "targets_done env wl ts all cs"
proof -
  from assms obtain blocks where "cs = concat blocks" "length blocks = length ts"
    "list_all2 (target_done env wl) ts blocks"
    unfolding targets_done_def by auto
  then show ?thesis unfolding targets_done_def by (intro exI [of _ blocks] exI [of _ "[]"]) simp
qed

lemma targets_done_no_delete:
  assumes "targets_done env wl ts all cs"
  shows "delete_call a i \<notin> set cs"
proof -
  have "list_all2 (target_done env wl) us blocks \<Longrightarrow> delete_call a i \<notin> set (concat blocks)" for us blocks
    by (induction rule: list_all2_induct) (auto dest: target_no_delete)
  with assms show ?thesis
    unfolding targets_done_def by (auto dest: target_no_delete split: if_splits)
qed

text \<open>How far a reconcile of a resource that exists can get.\<close>

lemma no_requeue_60 [simp]: "no_requeue \<noteq> requeue_after 60" "requeue_after 60 \<noteq> no_requeue"
  by (simp_all add: no_requeue_def requeue_after_def)

lemma reconcile_present_cases [consumes 1, case_names search partial stale full]:
  assumes "reconcile_present env rc ns wl h = Some ((res, err), h')"
  obtains e where "findTargetedNodes env rc wl h = Some (Inl e, h')" "writes h' = writes h"
      "err = Some e" "res = no_requeue"
  | ts h1 e wl2 where "findTargetedNodes env rc wl h = Some (Inr ts, h1)"
      "apply_loop env wl ts h1 = Some ((Some e, wl2), h')" "writes h1 = writes h"
      "err = Some e \<and> res = no_requeue"
  | ts h1 wl2 h2 e where "findTargetedNodes env rc wl h = Some (Inr ts, h1)"
      "apply_loop env wl ts h1 = Some ((None, wl2), h2)" "findRemovedNodes env rc ns wl2 h2 = Some (Inl e, h')"
      "writes h1 = writes h" "writes h' = writes h2" "err = Some e" "res = no_requeue"
  | ts h1 wl2 h2 rs h3 wl3 where "findTargetedNodes env rc wl h = Some (Inr ts, h1)"
      "apply_loop env wl ts h1 = Some ((None, wl2), h2)" "findRemovedNodes env rc ns wl2 h2 = Some (Inr rs, h3)"
      "writes h1 = writes h \<and> writes h3 = writes h2" "removeWorkload env wl2 rs h3 = ((err, wl3), h')"
      "err = None \<longleftrightarrow> res = requeue_after 60"
proof -
  from assms obtain f h1 where find: "findTargetedNodes env rc wl h = Some (f, h1)"
    by (auto simp: reconcile_present_def split: Option.bind_splits)
  note w1 = read_only_writes [OF findTargetedNodes_read_only [OF find]]
  show thesis
  proof (cases f)
    case (Inl e)
    with assms find w1 that(1) show thesis by (auto simp: reconcile_present_def)
  next
    case (Inr ts)
    with assms find obtain e wl2 h2 where loop: "apply_loop env wl ts h1 = Some ((e, wl2), h2)"
      by (auto simp: reconcile_present_def split: Option.bind_splits)
    show thesis
    proof (cases e)
      case (Some e')
      with assms find Inr loop w1 that(2) show thesis by (auto simp: reconcile_present_def)
    next
      case None
      with assms find Inr loop obtain g h3 where rem: "findRemovedNodes env rc ns wl2 h2 = Some (g, h3)"
        by (auto simp: reconcile_present_def split: Option.bind_splits)
      note w3 = read_only_writes [OF findRemovedNodes_read_only [OF rem]]
      show thesis
      proof (cases g)
        case (Inl e')
        with assms find Inr loop None rem w1 w3 that(3) show thesis by (auto simp: reconcile_present_def)
      next
        case g: (Inr rs)
        obtain e4 wl4 h4 where rmv: "removeWorkload env wl2 rs h3 = ((e4, wl4), h4)" by (metis prod.exhaust)
        with assms find Inr loop None rem g have "h' = h4 \<and> err = e4 \<and> (e4 = None \<longleftrightarrow> res = requeue_after 60)"
          by (auto simp: reconcile_present_def split: option.splits)
        with that(4) find Inr loop None rem g w1 w3 rmv show thesis by auto
      qed
    qed
  qed
qed

section \<open>A cluster nobody else changes\<close>

text \<open>
  \<open>undisturbed env\<close>: what the reads answer depends only on the writes made so far, so that two
  reads with no write between them agree. It is what "while the handler looks, nothing else
  happens" means; without it the answers of the searches may be out of date at once.
\<close>

definition undisturbed :: "'c env \<Rightarrow> bool" where
  "undisturbed env \<longleftrightarrow>
     (\<forall>h h'. writes h = writes h' \<longrightarrow>
        list_pods env h = list_pods env h' \<and> get_node env h = get_node env h' \<and>
        http_get env h = http_get env h')"

lemma undisturbed_reads:
  assumes "undisturbed env" "writes h = writes h'"
  shows "list_pods env h = list_pods env h'" "get_node env h = get_node env h'"
    "http_get env h = http_get env h'"
  using assms unfolding undisturbed_def by blast+

lemma getPodAddress_undisturbed:
  assumes "undisturbed env" "writes h = writes h'"
  shows "fst (getPodAddress env rc n h) = fst (getPodAddress env rc n h')"
proof -
  note eq = undisturbed_reads [OF assms]
  have node: "get_node env (h @ [ListPods l]) = get_node env (h' @ [ListPods l])" for l
    by (rule undisturbed_reads(2) [OF assms(1)]) (simp add: assms(2))
  show ?thesis
    by (simp add: getPodAddress_def find_rmd_pod_def Let_def eq(1) node split: sum.splits)
qed

lemma GetWorkloads_undisturbed:
  "undisturbed env \<Longrightarrow> writes h = writes h' \<Longrightarrow> fst (GetWorkloads env a h) = fst (GetWorkloads env a h')"
  by (simp add: GetWorkloads_def Let_def undisturbed_reads(3) [of env h h'] split: sum.splits)

text \<open>What the search on a node finds, without the trace.\<close>

definition found_at ::
  "'c env \<Rightarrow> OperatorRmdClient \<Rightarrow> string \<Rightarrow> trace \<Rightarrow> string \<Rightarrow> (gerr + string \<times> RDTWorkLoad) option"
where
  "found_at env rc name h n = map_option fst (lookup_workload env rc n name h)"

lemma found_at_eq:
  "found_at env rc name h n =
     (case fst (getPodAddress env rc n h) of
        Inl e \<Rightarrow> Some (Inl e)
      | Inr a \<Rightarrow>
        case fst (GetWorkloads env a (snd (getPodAddress env rc n h))) of
          Inl e \<Rightarrow> Some (Inl e)
        | Inr ws \<Rightarrow> map_option (\<lambda>w. Inr (a, w)) (FindWorkloadByName ws name))"
  unfolding found_at_def lookup_workload_def
  by (auto split: prod.splits sum.splits Option.bind_splits option.splits)

lemma found_at_undisturbed:
  assumes "undisturbed env" "writes h = writes h'"
  shows "found_at env rc name h = found_at env rc name h'"
proof
  fix n
  have "writes (snd (getPodAddress env rc n g)) = writes g" for g
    by (metis getPodAddress_read_only prod.collapse read_only_writes)
  with assms(2) have "writes (snd (getPodAddress env rc n h)) = writes (snd (getPodAddress env rc n h'))"
    by simp
  from GetWorkloads_undisturbed [OF assms(1) this]
  show "found_at env rc name h n = found_at env rc name h' n"
    unfolding found_at_eq getPodAddress_undisturbed [OF assms] by (simp split: sum.split)
qed

lemma found_atI: "lookup_workload env rc n name h = Some (r, h') \<Longrightarrow> found_at env rc name h n = Some r"
  by (simp add: found_at_def)

lemma node_wanted_undisturbed:
  "undisturbed env \<Longrightarrow> writes h = writes h' \<Longrightarrow> fst (node_wanted env spec n h) = fst (node_wanted env spec n h')"
  by (simp add: node_wanted_def Let_def undisturbed_reads(2) [of env h h'] split: sum.splits)

text \<open>The searches of an undisturbed cluster, as functions of its state at the start.\<close>

definition running_at :: "'c env \<Rightarrow> OperatorRmdClient \<Rightarrow> string \<Rightarrow> trace \<Rightarrow> string \<Rightarrow> bool" where
  "running_at env rc name h n \<longleftrightarrow> (\<exists>a w. found_at env rc name h n = Some (Inr (a, w)) \<and> UUID w = name)"

definition wanted_at :: "'c env \<Rightarrow> RmdWorkloadSpec \<Rightarrow> trace \<Rightarrow> string \<Rightarrow> bool" where
  "wanted_at env spec h n \<longleftrightarrow> fst (node_wanted env spec n h) = Inr True"

lemma removed_node_Inr:
  assumes "undisturbed env" "writes h0 = writes h" "removed_node env rc wl n h = Some (Inr e, h')"
  shows "(if running_at env rc (wlName wl) h0 n \<and> \<not> wanted_at env (wlSpec wl) h0 n
    then \<exists>r. e = Some r \<and> rnNodeName r = n else e = None)"
proof -
  from assms(3) obtain a w h1 where l: "lookup_workload env rc n (wlName wl) h = Some (Inr (a, w), h1)"
    by (auto simp: removed_node_def split: Option.bind_splits sum.splits)
  have run: "running_at env rc (wlName wl) h0 n \<longleftrightarrow> UUID w = wlName wl"
    by (simp add: running_at_def found_at_undisturbed [OF assms(1,2)] found_atI [OF l])
  have "writes h1 = writes h" using read_only_writes [OF lookup_workload_read_only [OF l]] .
  with assms(2) have want: "wanted_at env (wlSpec wl) h0 n \<longleftrightarrow> fst (node_wanted env (wlSpec wl) n h1) = Inr True"
    using node_wanted_undisturbed [OF assms(1), of h0 h1] by (simp add: wanted_at_def)
  show ?thesis
    using assms(3) l run want
    by (auto simp: removed_node_def split: prod.splits sum.splits if_splits bool.splits)
qed

lemma removed_loop_exact:
  assumes "undisturbed env" "writes h0 = writes h" "removed_loop env rc wl ns h = Some (Inr rs, h')"
  shows "List.map rnNodeName rs =
    filter (\<lambda>n. running_at env rc (wlName wl) h0 n \<and> \<not> wanted_at env (wlSpec wl) h0 n) ns"
  using assms(2,3)
proof (induction ns arbitrary: h rs)
  case Nil
  then show ?case by simp
next
  case (Cons n ns)
  from Cons.prems obtain e h1 entry rs1 where e: "removed_node env rc wl n h = Some (e, h1)"
    and entry: "e = Inr entry"
    and rest: "removed_loop env rc wl ns h1 = Some (Inr rs1, h')"
    and rs: "rs = (case entry of None \<Rightarrow> rs1 | Some r \<Rightarrow> r # rs1)"
    by (auto split: Option.bind_splits sum.splits)
  have "writes h0 = writes h1"
    using Cons.prems(1) read_only_writes [OF removed_node_read_only [OF e]] by simp
  from Cons.IH [OF this rest] removed_node_Inr [OF assms(1) Cons.prems(1) e [unfolded entry]] rs
  show ?case by (auto split: if_splits)
qed


text \<open>
  The obsolete workloads of an undisturbed cluster: the map has, for the address of every node
  that runs the workload, the id that RMD lists there; a node that cannot be examined ends the
  search with an error.
\<close>

definition listed_id :: "'c env \<Rightarrow> string \<Rightarrow> trace \<Rightarrow> string \<Rightarrow> string" where
  "listed_id env name h a =
     (case fst (GetWorkloads env a h) of
        Inl _ \<Rightarrow> ''''
      | Inr ws \<Rightarrow> (case FindWorkloadByName ws name of None \<Rightarrow> '''' | Some w \<Rightarrow> rdtID w))"

lemma lookup_listed_id:
  assumes "undisturbed env" "writes h0 = writes h" "lookup_workload env rc n name h = Some (Inr (a, w), h')"
  shows "rdtID w = listed_id env name h0 a"
proof -
  from assms(3) obtain h1 ws where p: "getPodAddress env rc n h = (Inr a, h1)"
    and ws: "GetWorkloads env a h1 = (Inr ws, h')" "FindWorkloadByName ws name = Some w"
    by (auto elim: lookup_workload_cases)
  have "writes h0 = writes h1"
    using assms(2) read_only_writes [OF getPodAddress_read_only [OF p]] by simp
  from GetWorkloads_undisturbed [OF assms(1) this, of a] ws show ?thesis by (simp add: listed_id_def)
qed

lemma lookup_address:
  assumes "undisturbed env" "writes h0 = writes h" "lookup_workload env rc n name h = Some (Inr (a, w), h')"
  shows "fst (getPodAddress env rc n h0) = Inr a"
  using getPodAddress_undisturbed [OF assms(1,2), of rc n] assms(3) by (auto elim: lookup_workload_cases)

lemma obselete_loop_exact:
  assumes "undisturbed env" "name \<noteq> ''''" "writes h0 = writes h"
    "obselete_loop env rc name ns acc h = Some (Inr obs, h')"
  shows "map_of obs a =
    (if \<exists>n \<in> set ns. running_at env rc name h0 n \<and> fst (getPodAddress env rc n h0) = Inr a
     then Some (listed_id env name h0 a) else map_of acc a)"
  using assms(3,4)
proof (induction ns arbitrary: acc h)
  case Nil
  then show ?case by simp
next
  case (Cons n ns)
  from Cons.prems(2) obtain b w h1 where l: "lookup_workload env rc n name h = Some (Inr (b, w), h1)"
    by (auto split: Option.bind_splits sum.splits)
  have eq: "found_at env rc name h0 n = Some (Inr (b, w))"
    using found_at_undisturbed [OF assms(1) Cons.prems(1), of rc name] found_atI [OF l] by simp
  note addr = lookup_address [OF assms(1) Cons.prems(1) l]
  note id = lookup_listed_id [OF assms(1) Cons.prems(1) l]
  from l have "UUID w = name \<or> UUID w = ''''"
    by (auto elim!: lookup_workload_cases dest: FindWorkloadByName_Some)
  then have run: "running_at env rc name h0 n \<longleftrightarrow> UUID w \<noteq> ''''"
    using eq assms(2) by (auto simp: running_at_def)
  let ?acc = "if UUID w = '''' then acc else AList.update b (rdtID w) acc"
  have rest: "obselete_loop env rc name ns ?acc h1 = Some (Inr obs, h')"
    using Cons.prems(2) l by (simp split: if_splits)
  have "writes h0 = writes h1"
    using Cons.prems(1) read_only_writes [OF lookup_workload_read_only [OF l]] by simp
  from Cons.IH [OF this rest] show ?case
    using run addr id by (auto simp: update_conv')
qed

lemma obselete_loop_error:
  assumes "undisturbed env" "writes h0 = writes h" "obselete_loop env rc name ns acc h = Some (r, h')"
  shows "isl r \<longleftrightarrow> (\<exists>n \<in> set ns. \<exists>e. found_at env rc name h0 n = Some (Inl e))"
  using assms(2,3)
proof (induction ns arbitrary: acc h)
  case Nil
  then show ?case by auto
next
  case (Cons n ns)
  from Cons.prems(2) obtain l h1 where l: "lookup_workload env rc n name h = Some (l, h1)"
    by (auto split: Option.bind_splits)
  have eq: "found_at env rc name h0 n = Some l"
    using found_at_undisturbed [OF assms(1) Cons.prems(1), of rc name] found_atI [OF l] by simp
  have w: "writes h0 = writes h1"
    using Cons.prems(1) read_only_writes [OF lookup_workload_read_only [OF l]] by simp
  show ?case
  proof (cases l)
    case (Inl e)
    with Cons.prems(2) l eq show ?thesis by auto
  next
    case (Inr aw)
    obtain acc' where "obselete_loop env rc name ns acc' h1 = Some (r, h')"
      using Cons.prems(2) l Inr by (auto split: prod.splits if_splits)
    from Cons.IH [OF w this] eq Inr show ?thesis by auto
  qed
qed

end
