(* ===== verification/NodeState_Controller_Props.thy ===== *)
theory NodeState_Controller_Props
  imports NodeState_Controller Config_Controller_Props Workload_Controller_Facts
begin

text \<open>
  Facts about the reconciler of \<open>RmdNodeState\<close> (\<open>pkg/controller/rmdnodestate\<close>) and its
  properties: the node it removes from the registry, the status it writes, and how its search
  for the pod compares with the one of the workload reconciler.
\<close>

section \<open>The pod\<close>

lemma state_pod_eq: "state_pod env n h = find_rmd_pod env n h"
  by (simp add: state_pod_def find_rmd_pod_def Let_def rmd_pods_label_def rmdPodNameConst_def split: sum.split)

lemma state_pod_read_only [trace_ext]: "state_pod env n h = (r, h') \<Longrightarrow> read_only h h'"
  unfolding state_pod_eq by (rule find_rmd_pod_read_only)

text \<open>
  (C23) The two controllers find the same pod for a node and ask the same URL for its workloads
  exactly when the pod has its \<open>PodIP\<close> set: the reconciler of the node state always asks the
  host \<open>PodIP\<close>, also when that is empty, while the reconciler of workloads then asks the first
  address of the list, and nobody if there is none. A pod without a container or a port ends the
  one without an error and the other with one.
\<close>

theorem controllers_agree_on_address:
  assumes ns: "get_node_state env h (reqNamespace req) (reqName req) = Inr ns"
    and pod: "find_rmd_pod env (nsNode (nsSpec ns)) (h @ [GetNodeStateCR (reqNamespace req) (reqName req)]) = (Inr p, h1)"
    and state: "ReconcileNodeState env rc nd req h = Some (r, nd', h')"
    and workload: "lookup_workload env rc (nsNode (nsSpec ns)) name
      (h @ [GetNodeStateCR (reqNamespace req) (reqName req)]) = Some (found, h'')"
  shows "case first_port (podContainers p) of
      None \<Rightarrow> r = (no_requeue, None) \<and> h' = h1 \<and> isl found \<and> h'' = h1
    | Some port \<Rightarrow>
        let asks = \<lambda>ip. HttpGet (workloads_url (GetAddressPrefix rc @ ip @ '':'' @ show_int (sint port))) in
        (\<exists>status. h' = h1 @ asks (podIP p) # status \<and> (\<forall>u. HttpGet u \<notin> set status)) \<and>
        (if podIP p \<noteq> '''' then h'' = h1 @ [asks (podIP p)]
         else case podIPs p of [] \<Rightarrow> isl found \<and> h'' = h1 | ip # _ \<Rightarrow> h'' = h1 @ [asks ip])"
proof -
  let ?h = "h @ [GetNodeStateCR (reqNamespace req) (reqName req)]"
  have get: "snd (GetWorkloads env a g) = g @ [HttpGet (workloads_url a)]" for a g
    by (simp add: GetWorkloads_def Let_def split: sum.splits)
  have ask: "GetWorkloads env a g = (x, g') \<Longrightarrow> g' = g @ [HttpGet (workloads_url a)]" for a g x g'
    using get [of a g] by simp
  from state ns pod have upd: "update_node_state env rc ns p h1 = Some (r, h')"
    by (auto simp: ReconcileNodeState_def Let_def state_pod_eq split: Option.bind_splits)
  have addr: "getPodAddress env rc (nsNode (nsSpec ns)) ?h = (pod_address rc p, h1)"
    using pod by (simp add: getPodAddress_def)
  show ?thesis
  proof (cases "first_port (podContainers p)")
    case None
    then have "isl (pod_address rc p)" by (auto simp: pod_address_def split: sum.splits)
    with None upd addr workload show ?thesis
      by (auto simp: update_node_state_def lookup_workload_def isl_def)
  next
    case (Some port)
    from upd Some obtain status where
      "h' = h1 @ HttpGet (workloads_url (service_url rc (podIP p) port)) # status" "\<forall>u. HttpGet u \<notin> set status"
      by (auto simp: update_node_state_def Let_def split: prod.splits Option.bind_splits sum.splits option.splits
          dest!: ask)
    moreover have "pod_address rc p = map_sum id (\<lambda>ip. service_url rc ip port) (pod_ip p)"
      using Some by (simp add: pod_address_def split: sum.split)
    with addr workload have
      "if podIP p \<noteq> '''' then h'' = h1 @ [HttpGet (workloads_url (service_url rc (podIP p) port))]
       else case podIPs p of [] \<Rightarrow> isl found \<and> h'' = h1
         | ip # _ \<Rightarrow> h'' = h1 @ [HttpGet (workloads_url (service_url rc ip port))]"
      by (auto simp: lookup_workload_def pod_ip_def split: list.splits prod.splits sum.splits Option.bind_splits
          if_splits dest!: ask)
    ultimately show ?thesis
      using Some by (simp add: service_url_def show_int32_def Let_def split: list.splits if_splits)
  qed
qed

definition dual_pod :: Pod where
  "dual_pod = \<lparr>podName = ''rmd'', podNamespace = ''default'', podUID = ''u'', podAnnotations = [],
     podNodeName = ''n1'', podInitContainers = [],
     podContainers = [\<lparr>cName = ''rmd'', cPorts = [80], cLimits = [], cRequests = []\<rparr>],
     podPhase = ''Running'', podHostIP = ''10.0.0.1'', podIP = '''', podIPs = [''10.0.0.9'']\<rparr>"

definition dual_env :: "int64 list env" where
  "dual_env = ref_env\<lparr>list_pods := \<lambda>h l. Inr [dual_pod],
     get_node_state := \<lambda>h ns n. Inr (new_node_state ''n1'')\<rparr>"

theorem controllers_agree_on_address_witness:
  "\<exists>r nd' h' x h''. ReconcileNodeState dual_env NewDefaultOperatorRmdClient \<lparr>RmdNodeList = []\<rparr>
      \<lparr>reqNamespace = ''default'', reqName = ''rmd-node-state-n1''\<rparr> [] = Some (r, nd', h') \<and>
    lookup_workload dual_env NewDefaultOperatorRmdClient ''n1'' ''wl''
      [GetNodeStateCR ''default'' ''rmd-node-state-n1''] = Some (x, h'') \<and>
    HttpGet ''http://:80/v1/workloads'' \<in> set h' \<and> HttpGet ''http://10.0.0.9:80/v1/workloads'' \<in> set h''"
proof -
  let ?req = "\<lparr>reqNamespace = ''default'', reqName = ''rmd-node-state-n1''\<rparr>"
  let ?h = "[GetNodeStateCR ''default'' ''rmd-node-state-n1'']"
  have n: "get_node_state dual_env [] (reqNamespace ?req) (reqName ?req) = Inr (new_node_state ''n1'')"
    by (simp add: dual_env_def)
  have p: "find_rmd_pod dual_env (nsNode (nsSpec (new_node_state ''n1'')))
      ([] @ [GetNodeStateCR (reqNamespace ?req) (reqName ?req)]) = (Inr dual_pod, ?h @ [ListPods rmd_pods_label])"
    by (simp add: find_rmd_pod_def dual_env_def dual_pod_def new_node_state_def)
  have "ReconcileNodeState dual_env NewDefaultOperatorRmdClient \<lparr>RmdNodeList = []\<rparr> ?req [] \<noteq> None"
    by code_simp
  then obtain r nd' h' where s:
    "ReconcileNodeState dual_env NewDefaultOperatorRmdClient \<lparr>RmdNodeList = []\<rparr> ?req [] = Some (r, nd', h')" by auto
  have "lookup_workload dual_env NewDefaultOperatorRmdClient ''n1'' ''wl'' ?h \<noteq> None" by code_simp
  then obtain x h'' where "lookup_workload dual_env NewDefaultOperatorRmdClient ''n1'' ''wl'' ?h = Some (x, h'')" by auto
  then have l: "lookup_workload dual_env NewDefaultOperatorRmdClient (nsNode (nsSpec (new_node_state ''n1''))) ''wl''
      ([] @ [GetNodeStateCR (reqNamespace ?req) (reqName ?req)]) = Some (x, h'')" by (simp add: new_node_state_def)
  have "podIP dual_pod = ''''" "podIPs dual_pod = [''10.0.0.9'']" "first_port (podContainers dual_pod) = Some 80"
    by (simp_all add: dual_pod_def)
  with controllers_agree_on_address [OF n p s l] have
    "HttpGet (workloads_url (GetAddressPrefix NewDefaultOperatorRmdClient @ '':'' @ show_int 80)) \<in> set h'"
    "HttpGet (workloads_url (GetAddressPrefix NewDefaultOperatorRmdClient @ ''10.0.0.9'' @ '':'' @ show_int 80)) \<in> set h''"
    by (auto simp: Let_def)
  moreover have "workloads_url (GetAddressPrefix NewDefaultOperatorRmdClient @ '':'' @ show_int 80) = ''http://:80/v1/workloads''"
    "workloads_url (GetAddressPrefix NewDefaultOperatorRmdClient @ ''10.0.0.9'' @ '':'' @ show_int 80) =
      ''http://10.0.0.9:80/v1/workloads''"
    by code_simp+
  ultimately show ?thesis using s l by (auto simp: new_node_state_def)
qed

section \<open>The registry\<close>

lemma ReplaceAll_length: "length (ReplaceAll s old '''') \<le> length s"
  by (induction s old "''''::string" rule: ReplaceAll.induct) (auto)

lemma ReplaceAll_shorter:
  "old \<noteq> '''' \<Longrightarrow> Contains s old \<Longrightarrow> length (ReplaceAll s old '''') < length s"
proof (induction s)
  case Nil
  then show ?case by simp
next
  case (Cons c s)
  show ?case
  proof (cases "HasPrefix (c # s) old")
    case True
    then obtain t where t: "c # s = old @ t" by (auto simp: HasPrefix_iff)
    have "length (ReplaceAll (c # s) old '''') \<le> length t"
      unfolding t by (simp add: ReplaceAll_prefix [OF Cons.prems(1)] ReplaceAll_length)
    also have "length t < length (c # s)" unfolding t using Cons.prems(1) by simp
    finally show ?thesis .
  next
    case False
    with Cons show ?thesis by simp
  qed
qed

text \<open>
  (C21) The name of a node state carries its node: when the object created for a node is gone, the
  node, and nothing else, leaves the registry, unless the node's own name contains the
  prefix of the object names, anywhere. For such a node a shorter name, the one with every
  occurrence of the prefix cut out, leaves the registry, and the node stays registered; if
  its name is the prefix once before some \<open>m\<close>, it is the node \<open>m\<close> that is lost.
\<close>

theorem node_state_deletion:
  assumes gone: "get_node_state env h (reqNamespace req) (nsName (new_node_state n)) = Inl err" "IsNotFound err"
    and req: "reqName req = nsName (new_node_state n)"
    and dist: "distinct (RmdNodeList nd)"
  shows "\<exists>nd' h'. ReconcileNodeState env rc nd req h = Some ((no_requeue, None), nd', h') \<and>
    writes h' = writes h \<and>
    (\<not> Contains n node_state_prefix \<longrightarrow> RmdNodeList nd' = filter (\<lambda>m. m \<noteq> n) (RmdNodeList nd)) \<and>
    (Contains n node_state_prefix \<longrightarrow>
       (let cut = ReplaceAll n node_state_prefix '''' in length cut < length n \<and>
          RmdNodeList nd' = filter (\<lambda>m. m \<noteq> cut) (RmdNodeList nd) \<and>
          (n \<in> set (RmdNodeList nd) \<longrightarrow> n \<in> set (RmdNodeList nd')))) \<and>
    (\<forall>m. n = node_state_prefix @ m \<and> \<not> Contains m node_state_prefix \<longrightarrow>
       RmdNodeList nd' = filter (\<lambda>k. k \<noteq> m) (RmdNodeList nd))"
proof -
  have prefix: "rmdNodeStateNameConst = node_state_prefix" "node_state_prefix \<noteq> ''''"
    by (simp_all add: rmdNodeStateNameConst_def node_state_prefix_def)
  define cut where "cut = ReplaceAll n node_state_prefix ''''"
  have name: "ReplaceAll (nsName (new_node_state n)) node_state_prefix '''' = cut"
    by (simp only: new_node_state_def RmdNodeState.simps prefix(1) ReplaceAll_prefix [OF prefix(2)] append_Nil cut_def)
  have del: "DeleteRmdNodeData cut nd = Some (nd\<lparr>RmdNodeList := filter (\<lambda>k. k \<noteq> cut) (RmdNodeList nd)\<rparr>)"
    by (rule DeleteRmdNodeData_filter [OF dist])
  have run: "ReconcileNodeState env rc nd req h = Some ((no_requeue, None),
      nd\<lparr>RmdNodeList := filter (\<lambda>k. k \<noteq> cut) (RmdNodeList nd)\<rparr>, h @ [GetNodeStateCR (reqNamespace req) (reqName req)])"
    using gone req del name by (simp add: ReconcileNodeState_def)
  have plain: "cut = n" if "\<not> Contains n node_state_prefix"
    using that unfolding cut_def by (rule ReplaceAll_not_Contains)
  have shorter: "length cut < length n" if "Contains n node_state_prefix"
    using that unfolding cut_def by (rule ReplaceAll_shorter [OF prefix(2)])
  have once: "cut = m" if "n = node_state_prefix @ m" "\<not> Contains m node_state_prefix" for m
    unfolding cut_def that(1) by (simp only: ReplaceAll_prefix [OF prefix(2)] append_Nil ReplaceAll_not_Contains [OF that(2)])
  show ?thesis
    unfolding run cut_def [symmetric] using plain shorter once by (auto simp: Let_def)
qed

theorem node_state_deletion_witness:
  "\<exists>nd' h'. ReconcileNodeState ref_env NewDefaultOperatorRmdClient \<lparr>RmdNodeList = [''n1'', ''n2'']\<rparr>
      \<lparr>reqNamespace = ''default'', reqName = ''rmd-node-state-n1''\<rparr> [] = Some ((no_requeue, None), nd', h') \<and>
    RmdNodeList nd' = [''n2'']"
proof -
  let ?req = "\<lparr>reqNamespace = ''default'', reqName = ''rmd-node-state-n1''\<rparr>"
  have r: "reqName ?req = nsName (new_node_state ''n1'')"
    by (simp add: new_node_state_def rmdNodeStateNameConst_def)
  have g: "get_node_state ref_env [] (reqNamespace ?req) (nsName (new_node_state ''n1'')) = Inl (NotFound ''not found'')"
    by (simp add: ref_env_def no_object_def)
  have "distinct (RmdNodeList \<lparr>RmdNodeList = [''n1'', ''n2'']\<rparr>)" by simp
  moreover have "\<not> Contains ''n1'' node_state_prefix" by code_simp
  ultimately show ?thesis
    using node_state_deletion [OF g _ r] by fastforce
qed

section \<open>The status\<close>

text \<open>The entries of the map: the last workload listed under a name decides.\<close>

lemma workload_map_loop_lookup:
  "workload_map_loop env ws m = Some (Inr m') \<Longrightarrow> None \<notin> set ws \<and>
     map_of m' k = (case find (\<lambda>w. UUID w = k) (rev (List.map the ws)) of
        None \<Rightarrow> map_of m k
      | Some w \<Rightarrow> (case UpdateNodeStatusWorkload env w of Inl _ \<Rightarrow> None | Inr e \<Rightarrow> Some e))"
proof (induction ws arbitrary: m)
  case Nil
  then show ?case by simp
next
  case (Cons entry ws)
  then obtain w e where w: "entry = Some w" and e: "UpdateNodeStatusWorkload env w = Inr e"
    and rest: "workload_map_loop env ws (AList.update (UUID w) e m) = Some (Inr m')"
    by (auto split: sum.splits Option.bind_splits)
  have find_append: "find P (xs @ [x]) = (case find P xs of None \<Rightarrow> if P x then Some x else None | Some y \<Rightarrow> Some y)"
    for P and xs :: "RDTWorkLoad list" and x by (induction xs) auto
  show ?case
    using Cons.IH [OF rest] e by (auto simp: w find_append update_conv' split: option.splits)
qed

lemma workload_map_loop_None: "workload_map_loop env ws m = None \<Longrightarrow> None \<in> set ws"
  by (induction ws arbitrary: m) (auto split: Option.bind_splits sum.splits)

text \<open>
  (C22) A reconcile of a node state that ends well has written its status once: the map shows
  exactly the workloads the node's RMD listed, each under its name with its entries. If RMD
  did not answer, or not with JSON, the error is dropped and the map is written empty: every workload shown
  before is wiped from the status.
\<close>

theorem node_state_status:
  assumes run: "update_node_state env rc ns p h = Some ((requeue_after 5, err), h')"
  shows "err = None \<and> (\<exists>port m. first_port (podContainers p) = Some port \<and>
    writes h' = writes h @ [UpdateNodeStateStatus (ns\<lparr>nsWorkloads := m\<rparr>)] \<and>
    (case fst (GetWorkloads env (service_url rc (podIP p) port) h) of
       Inl _ \<Rightarrow> m = []
     | Inr ws \<Rightarrow> None \<notin> set ws \<and> (\<forall>k. map_of m k = (case find (\<lambda>w. UUID w = k) (rev (List.map the ws)) of
         None \<Rightarrow> None
       | Some w \<Rightarrow> (case UpdateNodeStatusWorkload env w of Inl _ \<Rightarrow> None | Inr e \<Rightarrow> Some e)))))"
proof -
  have ne: "no_requeue \<noteq> requeue_after 5" by (simp add: no_requeue_def requeue_after_def)
  from run ne obtain port where port: "first_port (podContainers p) = Some port"
    by (auto simp: update_node_state_def split: option.splits)
  obtain r h1 where r: "GetWorkloads env (service_url rc (podIP p) port) h = (r, h1)" by fastforce
  from run port r ne obtain m where
    m: "workload_map_loop env (case r of Inl _ \<Rightarrow> [] | Inr ws \<Rightarrow> ws) [] = Some (Inr m)"
    and out: "err = None" "h' = h1 @ [UpdateNodeStateStatus (ns\<lparr>nsWorkloads := m\<rparr>)]"
    by (auto simp: update_node_state_def Let_def split: sum.splits option.splits Option.bind_splits)
  have "writes h1 = writes h" using r by simp
  with port r m out show ?thesis
    by (intro conjI exI [of _ port] exI [of _ m]) (auto simp: workload_map_loop_lookup [of env _ "[]"] split: sum.splits option.splits)
qed

theorem node_state_status_witness:
  "\<exists>h'. update_node_state ref_env NewDefaultOperatorRmdClient
      ((new_node_state ''n1'')\<lparr>nsWorkloads := [(''wl'', [(''ID'', ''7'')])]\<rparr>) dual_pod [] =
        Some ((requeue_after 5, None), h') \<and>
    writes h' = [UpdateNodeStateStatus (new_node_state ''n1'')]"
proof -
  let ?ns = "(new_node_state ''n1'')\<lparr>nsWorkloads := [(''wl'', [(''ID'', ''7'')])]\<rparr>"
  obtain h' where run: "update_node_state ref_env NewDefaultOperatorRmdClient ?ns dual_pod [] =
      Some ((requeue_after 5, None), h')"
    by (simp add: update_node_state_def dual_pod_def GetWorkloads_def ref_env_def)
  have q: "fst (GetWorkloads ref_env a []) = Inl (GoError ''connection refused'')" for a
    by (simp add: GetWorkloads_def ref_env_def)
  from node_state_status [OF run] have "writes h' = [UpdateNodeStateStatus (?ns\<lparr>nsWorkloads := []\<rparr>)]"
    unfolding q by auto
  moreover have "?ns\<lparr>nsWorkloads := []\<rparr> = new_node_state ''n1''" by (simp add: new_node_state_def)
  ultimately show ?thesis using run by auto
qed

end
