(* ===== verification/Rmd_Client_Props.thy ===== *)
theory Rmd_Client_Props
  imports Reference_Env
begin

text \<open>Properties of the RMD client (\<open>pkg/rmd\<close>).\<close>

section \<open>The request\<close>

lemma formatWorkload_None: "formatWorkload env wl a h = None \<longleftrightarrow> core_ids env (wlSpec wl) a h = None"
  by (cases "core_ids env (wlSpec wl) a h") (simp_all add: formatWorkload_def Let_def split_beta)

text \<open>
  (C8) A request for all cores carries one CPU list, which denotes the CPUs of every cache of
  the host without the reserved ones (given the documented behaviour of \<open>cpuset\<close>).
\<close>

theorem formatWorkload_all_cores:
  assumes laws: "cpuset_laws env cpus"
    and all: "AllCores (wlSpec wl)"
    and fmt: "formatWorkload env wl a h = Some (Inr w, h')"
  shows "\<exists>caches s d. GetInfos env a h = (Inr caches, h') \<and> CoreIDs w = [s] \<and> cpu_parse env s = Inr d \<and>
    cpus d = host_cpus env cpus caches - reserved_cpus env cpus (ReservedCoreIds (wlSpec wl))"
proof -
  from fmt all obtain allCores s where cores: "getAllCPUs env a h = (Inr allCores, h')"
    and final: "final_cpus env (ReservedCoreIds (wlSpec wl)) allCores = Some s"
    and w: "CoreIDs w = [s]"
    by (auto simp: formatWorkload_eq core_ids_def split: prod.splits sum.splits Option.bind_splits)
  obtain caches c where c: "GetInfos env a h = (Inr caches, h')" "cpu_parse env allCores = Inr c"
    "cpus c = host_cpus env cpus caches"
    using getAllCPUs_Inr [OF laws cores] by blast
  with final_cpus_Some [OF laws c(2) final] w show ?thesis by auto
qed

definition demo_spec :: RmdWorkloadSpec where
  "demo_spec = \<lparr>AllCores = True, CoreIds = [], ReservedCoreIds = [''0'', ''1''], Policy = '''',
     specRdt = \<lparr>rdtCache = \<lparr>cacheMax = 2, cacheMin = 2\<rparr>, rdtMba = \<lparr>Percentage = 50, Mbps = 0\<rparr>\<rparr>,
     specPlugins = zero_Plugins, NodeSelector = [], Nodes = [''n1'']\<rparr>"

definition demo_workload :: RmdWorkload where
  "demo_workload = zero_RmdWorkload\<lparr>wlName := ''wl'', wlNamespace := ''default'', wlSpec := demo_spec\<rparr>"

definition demo_env :: "int64 list env" where
  "demo_env = ref_env\<lparr>http_get := \<lambda>h u. Inr ''{}'',
     decode_infos := \<lambda>s. Inr [\<lparr>cacheNode = ''0'', ShareCPUList = ''0,1,2'', AvailableWays = ''7f'',
       AvailableWaysPool = [(''guaranteed'', ''0,1'')]\<rparr>]\<rparr>"

lemma demo_env_laws: "cpuset_laws demo_env (\<lambda>a. sint ` set a)"
  by (rule list_cpuset_laws) (simp_all add: demo_env_def)

lemma demo_format:
  "formatWorkload demo_env demo_workload ''http://10.0.0.1:8081'' [] =
     Some (Inr (zero_RDTWorkLoad\<lparr>UUID := ''wl'', CoreIDs := [''2''], rdtCacheMax := Some 2,
       rdtCacheMin := Some 2, rdtPercentage := Some 50\<rparr>), [HttpGet ''http://10.0.0.1:8081/v1/cache/l3''])"
  by code_simp

theorem formatWorkload_all_cores_witness:
  "\<exists>caches s d. GetInfos demo_env ''http://10.0.0.1:8081'' [] =
      (Inr caches, [HttpGet ''http://10.0.0.1:8081/v1/cache/l3'']) \<and>
    [''2''] = [s] \<and> cpu_parse demo_env s = Inr d \<and>
    sint ` set d = host_cpus demo_env (\<lambda>a. sint ` set a) caches -
      reserved_cpus demo_env (\<lambda>a. sint ` set a) [''0'', ''1'']"
  using formatWorkload_all_cores [OF demo_env_laws _ demo_format]
  by (simp add: demo_workload_def demo_spec_def)

lemma formatWorkload_None_iff:
  assumes laws: "cpuset_laws env cpus"
  shows "formatWorkload env wl a h = None \<longleftrightarrow>
    AllCores (wlSpec wl) \<and> \<not> isl (fst (getAllCPUs env a h)) \<and>
    ReservedCoreIds (wlSpec wl) \<noteq> [] \<and>
    isl (cpu_parse env (Join (ReservedCoreIds (wlSpec wl)) '',''))"
proof (cases "getAllCPUs env a h")
  case (Pair r h')
  show ?thesis
  proof (cases r)
    case (Inl e)
    with Pair show ?thesis unfolding formatWorkload_None by (simp add: core_ids_def)
  next
    case (Inr allCores)
    obtain caches c where "cpu_parse env allCores = Inr c"
      using getAllCPUs_Inr [OF laws] Pair Inr by blast
    from final_cpus_None [OF this, of "ReservedCoreIds (wlSpec wl)"] Pair Inr show ?thesis
      unfolding formatWorkload_None
      by (cases "final_cpus env (ReservedCoreIds (wlSpec wl)) allCores") (auto simp: core_ids_def)
  qed
qed

text \<open>
  (C9) \<open>formatWorkload\<close> ends the process exactly when all cores are asked for, the host's CPUs
  were read, and the user's list of reserved cores is not empty and does not parse: one
  malformed custom resource stops the operator (\<open>MustParse\<close>).
\<close>

theorem formatWorkload_crashes_iff:
  assumes laws: "cpuset_laws env cpus"
  shows "formatWorkload env wl a h = None \<longleftrightarrow>
    AllCores (wlSpec wl) \<and> \<not> isl (fst (getAllCPUs env a h)) \<and>
    ReservedCoreIds (wlSpec wl) \<noteq> [] \<and>
    isl (cpu_parse env (Join (ReservedCoreIds (wlSpec wl)) '',''))"
  by (rule formatWorkload_None_iff [OF laws])

theorem formatWorkload_crashes_iff_witness:
  "formatWorkload demo_env (demo_workload\<lparr>wlSpec := demo_spec\<lparr>ReservedCoreIds := [''x'']\<rparr>\<rparr>)
     ''http://10.0.0.1:8081'' [] = None"
proof -
  let ?wl = "demo_workload\<lparr>wlSpec := demo_spec\<lparr>ReservedCoreIds := [''x'']\<rparr>\<rparr>"
  have "\<not> isl (fst (getAllCPUs demo_env ''http://10.0.0.1:8081'' []))" by code_simp
  moreover have "isl (cpu_parse demo_env (Join [''x''] '',''))" by code_simp
  ultimately show ?thesis
    using formatWorkload_crashes_iff [OF demo_env_laws, of ?wl "''http://10.0.0.1:8081''" "[]"]
    by (simp add: demo_spec_def)
qed

text \<open>
  (C10) The numbers of the spec reach RMD modulo \<open>2^32\<close>: the cache numbers always, the MBA
  numbers only when they are not a multiple of \<open>2^32\<close>, otherwise they are left out.
\<close>

theorem formatWorkload_numbers:
  assumes "formatWorkload env wl a h = Some (Inr w, h')"
  shows "map_option uint (rdtCacheMax w) = Some (sint (cacheMax (rdtCache (specRdt (wlSpec wl)))) mod 2 ^ 32) \<and>
    map_option uint (rdtCacheMin w) = Some (sint (cacheMin (rdtCache (specRdt (wlSpec wl)))) mod 2 ^ 32) \<and>
    map_option uint (rdtPercentage w) =
      (let p = sint (Percentage (rdtMba (specRdt (wlSpec wl)))) mod 2 ^ 32 in if p = 0 then None else Some p) \<and>
    map_option uint (rdtMbps w) =
      (let p = sint (Mbps (rdtMba (specRdt (wlSpec wl)))) mod 2 ^ 32 in if p = 0 then None else Some p)"
proof -
  have mba: "map_option uint (nonzero_uint32 x) =
      (let p = sint x mod 2 ^ 32 in if p = 0 then None else Some p)" for x
    using uint_to_uint32 [of x] by (auto simp: nonzero_uint32_def Let_def uint_0_iff)
  from assms show ?thesis
    unfolding formatWorkload_eq by (elim exE conjE) (simp only: RDTWorkLoad.simps mba uint_to_uint32 option.map simp_thms)
qed

theorem formatWorkload_numbers_witness:
  "map_option uint (rdtPercentage (zero_RDTWorkLoad\<lparr>UUID := ''wl'', CoreIDs := [''2''], rdtCacheMax := Some 2,
       rdtCacheMin := Some 2, rdtPercentage := Some 50\<rparr>)) = Some (50 :: int)"
  using formatWorkload_numbers [OF demo_format]
  by (simp add: demo_workload_def demo_spec_def Let_def)

text \<open>
  (C11) A POST that reports success was answered 200 or 201 and sent exactly one request, the
  formatted workload under the resource's own name; one that reports an error either sent
  nothing or the same single request. Nothing else is written in either case.
\<close>

theorem PostWorkload_at_most_one_request:
  assumes "PostWorkload env wl a h = Some ((resp, err), h')"
  shows "(writes h' = writes h \<and> err \<noteq> None) \<or>
    (\<exists>w h1. formatWorkload env wl a h = Some (Inr w, h1) \<and> UUID w = wlName wl \<and>
      writes h' = writes h @ [HttpSend ''POST'' (workloads_url a) (Some w)] \<and>
      (err = None \<longleftrightarrow> (\<exists>code body. code \<in> {200, 201} \<and>
        http_send env h1 ''POST'' (workloads_url a) (Some w) = Answer code body \<and>
        resp = ''Success: '' @ show_int code)))"
proof -
  from post.request_cases [OF assms] obtain f h1 where
    f: "formatWorkload env wl a h = Some (f, h1)"
    and cases: "(h' = h1 \<and> err \<noteq> None) \<or> (\<exists>w. f = Inr w \<and>
      h' = h1 @ [HttpSend ''POST'' (workloads_url a) (Some w)] \<and>
      request_outcome (\<lambda>code. code = 200 \<or> code = 201)
        (http_send env h1 ''POST'' (workloads_url a) (Some w)) (resp, err))"
    by auto
  note w = formatWorkload_writes [OF f]
  from cases show ?thesis
  proof (elim disjE exE conjE)
    fix w' assume *: "f = Inr w'" "h' = h1 @ [HttpSend ''POST'' (workloads_url a) (Some w')]"
      "request_outcome (\<lambda>code. code = 200 \<or> code = 201)
        (http_send env h1 ''POST'' (workloads_url a) (Some w')) (resp, err)"
    with f w show ?thesis
      by (cases "http_send env h1 ''POST'' (workloads_url a) (Some w')")
        (auto dest: formatWorkload_UUID split: if_splits)
  qed (simp add: w)
qed

theorem PostWorkload_at_most_one_request_witness:
  "\<exists>w. UUID w = ''wl'' \<and>
    writes [HttpSend ''POST'' (workloads_url ''http://a'') (Some (zero_RDTWorkLoad\<lparr>UUID := ''wl'',
      CoreIDs := [''3''], rdtCacheMax := Some 0, rdtCacheMin := Some 0\<rparr>))]
    = [HttpSend ''POST'' (workloads_url ''http://a'') (Some w)]"
proof -
  let ?wl = "zero_RmdWorkload\<lparr>wlName := ''wl'',
    wlSpec := wlSpec zero_RmdWorkload\<lparr>CoreIds := [''3'']\<rparr>\<rparr>"
  have "PostWorkload ref_env ?wl ''http://a'' [] = Some ((''Success: 200'', None),
      [HttpSend ''POST'' (workloads_url ''http://a'') (Some (zero_RDTWorkLoad\<lparr>UUID := ''wl'',
      CoreIDs := [''3''], rdtCacheMax := Some 0, rdtCacheMin := Some 0\<rparr>))])"
    by code_simp
  from PostWorkload_at_most_one_request [OF this] show ?thesis by auto
qed

text \<open>
  A P-State ratio that parses to a NaN or to an infinity is accepted by the spec's
  check and then cannot be encoded: the request fails and nothing is sent.
\<close>

theorem nonfinite_ratio_not_sent:
  assumes "ParseFloat (Ratio (pstate (specPlugins (wlSpec wl)))) = Inr x"
    and "\<not> is_finite x" and "Ratio (pstate (specPlugins (wlSpec wl))) \<noteq> ''''"
    and "formatWorkload env wl a h = Some (Inr w, h1)"
  shows "PostWorkload env wl a h = Some ((''Failed to marshal payload data'', Some unsupported_value), h1) \<and>
    PatchWorkload env wl a i h = Some ((''Failed to marshal payload data'', Some unsupported_value), h1) \<and>
    writes h1 = writes h"
proof -
  from assms(4) have "format_plugins (pstate (specPlugins (wlSpec wl))) = Inr (rdtPlugins w)"
    by (auto simp: formatWorkload_eq)
  from format_plugins_marshalable [OF this] assms(1-3) have "\<not> plugins_marshalable (rdtPlugins w)"
    by simp
  then have "marshal_workload w = Inl unsupported_value" by (simp add: marshal_workload_def)
  with assms(4) formatWorkload_writes [OF assms(4)] show ?thesis
    by (simp add: PostWorkload_def PatchWorkload_def)
qed

definition nan_workload :: RmdWorkload where
  "nan_workload = zero_RmdWorkload\<lparr>wlName := ''wl'',
     wlSpec := wlSpec zero_RmdWorkload\<lparr>CoreIds := [''3''],
       specPlugins := \<lparr>pstate = \<lparr>Ratio = ''NaN'', Monitoring = ''''\<rparr>\<rparr>\<rparr>\<rparr>"

theorem nonfinite_ratio_not_sent_witness:
  "\<exists>h1. PostWorkload ref_env nan_workload ''http://a'' [] =
    Some ((''Failed to marshal payload data'', Some unsupported_value), h1) \<and> writes h1 = []"
proof -
  have r: "ParseFloat (Ratio (pstate (specPlugins (wlSpec nan_workload)))) = Inr FNaN" by code_simp
  obtain w h1 where f: "formatWorkload ref_env nan_workload ''http://a'' [] = Some (Inr w, h1)"
  proof -
    have "\<exists>r. formatWorkload ref_env nan_workload ''http://a'' [] = Some r \<and> \<not> isl (fst r)"
      by (simp add: formatWorkload_def core_ids_def format_plugins_def nan_workload_def
          zero_RmdWorkload_def r [unfolded nan_workload_def zero_RmdWorkload_def, simplified])
    then show thesis using that by (metis prod.collapse isl_def sum.exhaust)
  qed
  have "Ratio (pstate (specPlugins (wlSpec nan_workload))) \<noteq> ''''"
    by (simp add: nan_workload_def zero_RmdWorkload_def)
  from nonfinite_ratio_not_sent [OF r _ this f] show ?thesis by auto
qed

section \<open>Queries\<close>

text \<open>
  \<open>GetAvailableCacheWays\<close> fails exactly when the query or the parsing of a field fails;
  otherwise it is the sum modulo \<open>2^64\<close> of the fields read as numbers, whatever the order in
  which RMD's caches are listed. (The fields are bit masks, so it is no count of ways.)
\<close>

theorem GetAvailableCacheWays_sum:
  "case GetInfos env a h of
     (Inl e, h') \<Rightarrow> GetAvailableCacheWays env a h = (Inl e, h')
   | (Inr caches, h') \<Rightarrow>
       snd (GetAvailableCacheWays env a h) = h' \<and>
       (isl (fst (GetAvailableCacheWays env a h)) \<longleftrightarrow>
          (\<exists>c \<in> set caches. isl (ParseInt64 16 (AvailableWays c)))) \<and>
       (\<forall>n. fst (GetAvailableCacheWays env a h) = Inr n \<longrightarrow>
          uint n = (\<Sum>c \<in># mset caches. uint (ways_value c)) mod 2 ^ 64)"
proof (cases "GetInfos env a h")
  case (Pair r h')
  show ?thesis
  proof (cases r)
    case (Inl e)
    with Pair show ?thesis by (simp add: GetAvailableCacheWays_def)
  next
    case (Inr caches)
    have sum: "uint (sum_list (List.map ways_value caches)) =
        (\<Sum>c \<in># mset caches. uint (ways_value c)) mod 2 ^ 64"
      by (induction caches) (simp_all add: uint_word_ariths mod_simps)
    have "isl (available_ways_loop caches 0) \<longleftrightarrow>
        (\<exists>c \<in> set caches. isl (ParseInt64 16 (AvailableWays c)))"
      using available_ways_loop_iff [of caches 0 "sum_list (List.map ways_value caches)"]
        available_ways_loop_iff [of caches 0]
      by (cases "available_ways_loop caches 0") auto
    with Pair Inr sum available_ways_loop_iff [of caches 0] show ?thesis
      by (simp add: GetAvailableCacheWays_def)
  qed
qed

theorem GetAvailableCacheWays_sum_witness:
  "uint (0x7f :: int64) = (\<Sum>c \<in># mset [\<lparr>cacheNode = ''0'', ShareCPUList = ''0,1,2'',
     AvailableWays = ''7f'', AvailableWaysPool = [(''guaranteed'', ''0,1'')]\<rparr>]. uint (ways_value c)) mod 2 ^ 64"
proof -
  have i: "GetInfos demo_env ''a'' [] = (Inr [\<lparr>cacheNode = ''0'', ShareCPUList = ''0,1,2'',
      AvailableWays = ''7f'', AvailableWaysPool = [(''guaranteed'', ''0,1'')]\<rparr>], [HttpGet (infos_url ''a'')])"
    by (simp add: GetInfos_def demo_env_def)
  have w: "fst (GetAvailableCacheWays demo_env ''a'' []) = Inr 0x7f" by code_simp
  show ?thesis
    using GetAvailableCacheWays_sum [of demo_env "''a''" "[]"] unfolding i by (simp only: prod.case sum.case w simp_thms)
qed





text \<open>
  Device ids are injective on the ways of one cache and on caches whose names have the
  same length, but not in general: way 11 of cache 1 and way 1 of cache 11 share an id, so one
  of the two ways is not advertised.
\<close>

theorem device_id_collisions:
  "(length m = length n \<longrightarrow> (device_id m v = device_id n w \<longleftrightarrow> m = n \<and> v = w)) \<and>
   device_id ''1'' 11 = device_id ''11'' 1"
proof
  show "length m = length n \<longrightarrow> (device_id m v = device_id n w \<longleftrightarrow> m = n \<and> v = w)"
    by (auto simp: device_id_def)
  show "device_id ''1'' 11 = device_id ''11'' 1" by code_simp
qed

theorem device_id_collisions_witness:
  "device_id ''10'' 1 \<noteq> device_id ''11'' 1"
  using device_id_collisions [of "''10''" "''11''" 1 1] by simp

section \<open>The choice of the client\<close>

text \<open>
  (C28) The client speaks https exactly when the first port of the first container of the
  daemon set's manifest is 8443, the certificate and the CA file load, and the key is an RSA
  or an ECDSA key of at least 2048 bits; every other outcome, TLS errors included, is the
  plain http client. Construction panics exactly on a manifest of another kind.
\<close>

theorem NewClient_https_iff:
  "(NewClient m cert ca = None \<longleftrightarrow> m = Inr OtherKind) \<and>
   (\<forall>rc. NewClient m cert ca = Some rc \<longrightarrow>
     (GetAddressPrefix rc = ''https://'' \<longleftrightarrow>
        (\<exists>ds c cs ps n. m = Inr (DaemonSetManifest ds) \<and> dsContainers ds = c # cs \<and>
           cPorts c = 8443 # ps \<and> ca = None \<and> cert \<in> {Inr (RsaKey n), Inr (EcdsaKey n)} \<and>
           2048 \<le> sint n)) \<and>
     GetAddressPrefix rc \<in> {''http://'', ''https://''})"
proof (cases m)
  case (Inl e)
  then show ?thesis
    by (simp add: NewClient_def isTLSEnabled_def)
next
  case (Inr man)
  show ?thesis
  proof (cases man)
    case OtherKind
    with Inr show ?thesis by (simp add: NewClient_def isTLSEnabled_def)
  next
    case (DaemonSetManifest ds)
    show ?thesis
      using Inr DaemonSetManifest
      by (cases "dsContainers ds"; cases "cPorts (hd (dsContainers ds))")
        (auto simp: NewClient_def isTLSEnabled_def tls_client_cases)
  qed
qed

theorem NewClient_https_iff_witness:
  "GetAddressPrefix (NewDefaultOperatorRmdClient) \<in> {''http://'', ''https://''} \<and>
   NewClient (Inl (NotFound ''x'')) (Inr (RsaKey 4096)) None = Some NewDefaultOperatorRmdClient"
proof -
  have n: "NewClient (Inl (NotFound ''x'')) (Inr (RsaKey 4096)) None = Some NewDefaultOperatorRmdClient"
    by (simp add: NewClient_def isTLSEnabled_def)
  with NewClient_https_iff [of "Inl (NotFound ''x'')" "Inr (RsaKey 4096)" None] show ?thesis by blast
qed

text \<open>
  No standard elliptic curve passes the key check: the largest has 521 bits, so that an
  operator configured with an ECDSA certificate always speaks plain http, although its TLS
  configuration lists ECDSA cipher suites only beside RSA ones.
\<close>

theorem ecdsa_always_plain_http:
  assumes "sint bits \<le> 521" and "NewClient m (Inr (EcdsaKey bits)) ca = Some rc"
  shows "GetAddressPrefix rc = ''http://''"
  using assms
  by (auto simp: NewClient_def isTLSEnabled_def Let_def NewOperatorRmdClient_def
      split: sum.splits manifest.splits list.splits if_splits)

theorem ecdsa_always_plain_http_witness:
  "\<exists>rc. NewClient (Inr (DaemonSetManifest \<lparr>dsName = ''rmd'', dsNamespace = ''default'', dsOwner = None,
       dsNodeSelector = None, dsContainers = [\<lparr>cName = ''rmd'', cPorts = [8443], cLimits = [],
       cRequests = []\<rparr>]\<rparr>)) (Inr (EcdsaKey 384)) None = Some rc \<and> GetAddressPrefix rc = ''http://''"
proof -
  let ?m = "Inr (DaemonSetManifest \<lparr>dsName = ''rmd'', dsNamespace = ''default'', dsOwner = None,
       dsNodeSelector = None, dsContainers = [\<lparr>cName = ''rmd'', cPorts = [8443], cLimits = [],
       cRequests = []\<rparr>]\<rparr>)"
  have "NewClient ?m (Inr (EcdsaKey 384)) None = Some NewDefaultOperatorRmdClient" by code_simp
  from ecdsa_always_plain_http [OF _ this] this show ?thesis by simp
qed

section \<open>The status of a node state\<close>

text \<open>
  What a node state shows of a workload RMD reports: each entry appears exactly when the
  field is set, and the numbers are printed in decimal without a sign.
\<close>

theorem UpdateNodeStatusWorkload_entries:
  assumes "UpdateNodeStatusWorkload env w = Inr m"
  shows "map_of m ''ID'' = (if rdtID w = '''' then None else Some (rdtID w)) \<and>
    map_of m ''Core IDs'' = (if CoreIDs w = [] then None else Some (Join (CoreIDs w) '','')) \<and>
    map_of m ''Status'' = (if rdtStatus w = '''' then None else Some (rdtStatus w)) \<and>
    map_of m ''Cos Name'' = (if CosName w = '''' then None else Some (CosName w)) \<and>
    map_of m ''Policy'' = (if rdtPolicy w = '''' then None else Some (rdtPolicy w)) \<and>
    map_of m ''Origin'' = (if Origin w = '''' then None else Some (Origin w)) \<and>
    map_of m ''Cache Max'' = map_option (show_int \<circ> uint) (rdtCacheMax w) \<and>
    map_of m ''Cache Min'' = map_option (show_int \<circ> uint) (rdtCacheMin w) \<and>
    map_of m ''MBA Percentage'' = map_option (show_int \<circ> uint) (rdtPercentage w) \<and>
    map_of m ''MBA Mbps'' = map_option (show_int \<circ> uint) (rdtMbps w)"
  by (intro conjI) (rule UpdateNodeStatusWorkload_Inr [OF assms, THEN trans], simp, rule workload_entries_lookup)+

theorem UpdateNodeStatusWorkload_entries_witness:
  "map_of [(''ID'', ''7''), (''Cache Max'', ''15'')] ''Cache Max'' = Some ''15''"
proof -
  have u: "UpdateNodeStatusWorkload ref_env (zero_RDTWorkLoad\<lparr>rdtID := ''7'', rdtCacheMax := Some 15\<rparr>) =
      Inr [(''ID'', ''7''), (''Cache Max'', ''15'')]"
    by code_simp
  show ?thesis using UpdateNodeStatusWorkload_entries [OF u] by simp
qed

end
