(* ===== verification/Workload_Controller_Props.thy ===== *)
theory Workload_Controller_Props
  imports Workload_Controller_Facts Rmd_Client_Props
begin

text \<open>Properties of the reconciler of \<open>RmdWorkload\<close> resources (\<open>pkg/controller/rmdworkload\<close>).\<close>

section \<open>A cluster for the witnesses\<close>

text \<open>
  Two nodes with an RMD pod each; RMD of the second one runs a workload \<open>wl\<close> with the id 7.
\<close>

definition demo_pod :: "string \<Rightarrow> string \<Rightarrow> Pod" where
  "demo_pod node ip = \<lparr>podName = ''rmd-'' @ node, podNamespace = ''default'', podUID = ''u'',
     podAnnotations = [], podNodeName = node, podInitContainers = [],
     podContainers = [\<lparr>cName = ''rmd'', cPorts = [80], cLimits = [], cRequests = []\<rparr>],
     podPhase = ''Running'', podHostIP = ip, podIP = ip, podIPs = [ip]\<rparr>"

definition running_workload :: RDTWorkLoad where
  "running_workload = zero_RDTWorkLoad\<lparr>UUID := ''wl'', rdtID := ''7'', rdtCacheMax := Some 2,
     rdtPlugins := [(''pstate'', [(''monitoring'', JStr ''on'')])]\<rparr>"

definition demo_cluster :: "int64 list env" where
  "demo_cluster = ref_env\<lparr>
     list_pods := \<lambda>h l. Inr [demo_pod ''n1'' ''10.0.0.1'', demo_pod ''n2'' ''10.0.0.2''],
     http_get := \<lambda>h u. Inr u,
     decode_workloads := \<lambda>s. Inr (if s = workloads_url ''http://10.0.0.2:80'' then [Some running_workload] else [])\<rparr>"

abbreviation demo_rc :: OperatorRmdClient where
  "demo_rc \<equiv> NewDefaultOperatorRmdClient"

definition cr_workload :: "string list \<Rightarrow> RmdWorkload" where
  "cr_workload nodes = zero_RmdWorkload\<lparr>wlName := ''wl'', wlNamespace := ''default'',
     wlSpec := wlSpec zero_RmdWorkload\<lparr>CoreIds := [''3''], Nodes := nodes\<rparr>\<rparr>"

section \<open>Addresses\<close>

text \<open>
  (C25) An address is only ever the prefix of the client with the IP of an RMD pod and the first
  port of its first container; the pod is one scheduled to the node, or, when no RMD pod names
  the node, one whose host address belongs to the node object.
\<close>

theorem getPodAddress_spec:
  assumes "getPodAddress env rc n h = (Inr a, h')"
  shows "\<exists>pods p ip c cs port ports.
    list_pods env h rmd_pods_label = Inr pods \<and> p \<in> set pods \<and>
    (podNodeName p = n \<or>
       n \<notin> podNodeName ` set pods \<and>
       (\<exists>node. get_node env (h @ [ListPods rmd_pods_label]) n = Inr node \<and>
          podHostIP p \<in> set (nodeAddresses node))) \<and>
    (ip = podIP p \<and> ip \<noteq> '''' \<or> podIP p = '''' \<and> (\<exists>ips. podIPs p = ip # ips)) \<and>
    podContainers p = c # cs \<and> cPorts c = port # ports \<and>
    a = GetAddressPrefix rc @ ip @ '':'' @ show_int (sint port) \<and> writes h' = writes h"
proof -
  from assms obtain p where p: "find_rmd_pod env n h = (Inr p, h')" and a: "pod_address rc p = Inr a"
    by (auto simp: getPodAddress_def split: prod.splits sum.splits)
  from p obtain pods where pods: "list_pods env h rmd_pods_label = Inr pods"
    by (auto simp: find_rmd_pod_def Let_def split: sum.splits)
  have found: "p \<in> set pods \<and> (podNodeName p = n \<or> n \<notin> podNodeName ` set pods \<and>
      (\<exists>node. get_node env (h @ [ListPods rmd_pods_label]) n = Inr node \<and> podHostIP p \<in> set (nodeAddresses node)))"
    using p pods GetPodFromNodeName_Inl_iff [of pods n]
    by (auto simp: find_rmd_pod_def Let_def split: sum.splits
        dest: GetPodFromNodeName_Inr GetPodFromNodeAddresses_Inr)
  from a obtain ip port where ip: "pod_ip p = Inr ip" and port: "first_port (podContainers p) = Some port"
    and a': "a = service_url rc ip port"
    by (auto simp: pod_address_def split: sum.splits option.splits)
  from ip have "ip = podIP p \<and> ip \<noteq> '''' \<or> podIP p = '''' \<and> (\<exists>ips. podIPs p = ip # ips)"
    by (auto simp: pod_ip_def split: if_splits list.splits)
  moreover from port obtain c cs ports where "podContainers p = c # cs" "cPorts c = port # ports"
    by (cases "podContainers p") (auto split: list.splits)
  moreover have "writes h' = writes h"
    by (rule read_only_writes) (rule find_rmd_pod_read_only [OF p])
  ultimately show ?thesis
    using pods found a' unfolding service_url_def show_int32_def by metis
qed

lemma demo_address:
  "getPodAddress demo_cluster demo_rc ''n2'' [] = (Inr ''http://10.0.0.2:80'', [ListPods rmd_pods_label])"
  by code_simp

theorem getPodAddress_spec_witness:
  "\<exists>pods p. list_pods demo_cluster [] rmd_pods_label = Inr pods \<and> p \<in> set pods"
  using getPodAddress_spec [OF demo_address] by blast

section \<open>Targeted nodes\<close>

text \<open>
  For a resource that lists its nodes, the search returns no error: the result follows the
  order of the list and leaves out exactly the nodes that could not be examined.
\<close>

theorem findTargetedNodes_listed:
  assumes "NodeSelector (wlSpec wl) = []" and "findTargetedNodes env rc wl h = Some (r, h')"
  shows "\<exists>ts. r = Inr ts \<and> subseq (List.map tnNodeName ts) (Nodes (wlSpec wl)) \<and> writes h' = writes h \<and>
    (\<forall>t \<in> set ts. \<exists>h1 h2. getTargetedNode env rc (tnNodeName t) (wlName wl) h1 = Some (Inr t, h2)) \<and>
    (\<forall>n \<in> set (Nodes (wlSpec wl)). n \<notin> tnNodeName ` set ts \<longrightarrow>
       (\<exists>h1 h2 e. getTargetedNode env rc n (wlName wl) h1 = Some (Inl e, h2)))"
proof -
  from assms obtain ts where r: "r = Inr ts"
    and loop: "listed_nodes_loop env rc (wlName wl) (Nodes (wlSpec wl)) h = Some (ts, h')"
    by (auto simp: findTargetedNodes_def split: Option.bind_splits)
  show ?thesis
    using r listed_nodes_subseq [OF loop] listed_nodes_targets [OF loop]
      read_only_writes [OF listed_nodes_loop_read_only [OF loop]] by blast
qed

theorem findTargetedNodes_listed_witness:
  "\<exists>ts h'. findTargetedNodes demo_cluster demo_rc (cr_workload [''n1'', ''nx'', ''n2'']) [] = Some (Inr ts, h') \<and>
    subseq (List.map tnNodeName ts) [''n1'', ''nx'', ''n2'']"
proof -
  let ?run = "findTargetedNodes demo_cluster demo_rc (cr_workload [''n1'', ''nx'', ''n2'']) []"
  have "NodeSelector (wlSpec (cr_workload [''n1'', ''nx'', ''n2''])) = []"
    "Nodes (wlSpec (cr_workload [''n1'', ''nx'', ''n2''])) = [''n1'', ''nx'', ''n2'']"
    by (simp_all add: cr_workload_def zero_RmdWorkload_def)
  moreover have "?run \<noteq> None" by code_simp
  then obtain r h' where "?run = Some (r, h')" by auto
  ultimately show ?thesis using findTargetedNodes_listed by fastforce
qed

text \<open>
  (C24) For a resource with a node selector, a result covers exactly the nodes the cluster lists
  for the labels of the \<open>RmdConfig\<close> merged with those of the resource, in their order; the
  failure of a single one of them is the failure of the search.
\<close>

theorem findTargetedNodes_selected:
  assumes "NodeSelector (wlSpec wl) \<noteq> []"
    and "findTargetedNodes env rc wl h = Some (r, h')"
  shows "(\<forall>ts. r = Inr ts \<longrightarrow> (\<exists>cfg nodes.
      get_config env h defaultNamespace rmdConfigConst = Inr cfg \<and>
      list_nodes env (h @ [GetConfigCR defaultNamespace rmdConfigConst])
        (labels_merge env (selector_labels (RmdNodeSelector (cfgSpec cfg))) (NodeSelector (wlSpec wl))) = Inr nodes \<and>
      List.map tnNodeName ts = List.map nodeName nodes \<and>
      (\<forall>t \<in> set ts. \<exists>h1 h2. getTargetedNode env rc (tnNodeName t) (wlName wl) h1 = Some (Inr t, h2)))) \<and>
    writes h' = writes h"
proof -
  from assms read_only_writes [OF findTargetedNodes_read_only [OF assms(2)]] show ?thesis
    by (auto simp: findTargetedNodes_def Let_def split: sum.splits
        dest: selected_nodes_names selected_nodes_targets)
qed

text \<open>The node a selector of the witness chooses.\<close>

definition select_cluster :: "int64 list env" where
  "select_cluster = demo_cluster\<lparr>
     get_config := \<lambda>h ns n. Inr \<lparr>cfgName = ''rmdconfig'', cfgNamespace = ''default'',
       cfgSpec = \<lparr>RmdImage = '''', DeployNodeAgent = False, RmdNodeSelector = Some [(''a'', ''b'')]\<rparr>,
       cfgStatusNodes = []\<rparr>,
     list_nodes := \<lambda>h l. if map_of l ''a'' = Some ''b'' \<and> map_of l ''c'' = Some ''d''
       then Inr [\<lparr>nodeName = ''n2'', nodeLabels = [], nodeAddresses = []\<rparr>] else Inr []\<rparr>"

definition select_workload :: RmdWorkload where
  "select_workload = (cr_workload [])\<lparr>wlSpec := wlSpec (cr_workload [])\<lparr>NodeSelector := [(''c'', ''d'')]\<rparr>\<rparr>"

theorem findTargetedNodes_selected_witness:
  "\<exists>ts h' nodes. findTargetedNodes select_cluster demo_rc select_workload [] = Some (Inr ts, h') \<and>
    list_nodes select_cluster [GetConfigCR defaultNamespace rmdConfigConst] [(''c'', ''d''), (''a'', ''b'')] = Inr nodes \<and>
    List.map tnNodeName ts = List.map nodeName nodes"
proof -
  have sel: "NodeSelector (wlSpec select_workload) = [(''c'', ''d'')]"
    by (simp add: select_workload_def)
  have merge: "labels_merge select_cluster (selector_labels (Some [(''a'', ''b'')])) [(''c'', ''d'')] =
      [(''c'', ''d''), (''a'', ''b'')]"
    by (simp add: select_cluster_def demo_cluster_def ref_env_def selector_labels_def)
  have "map_option (\<lambda>(r, h'). \<not> isl r) (findTargetedNodes select_cluster demo_rc select_workload []) = Some True"
    by code_simp
  from Some_InrI [OF this] obtain ts h' where
    ts: "findTargetedNodes select_cluster demo_rc select_workload [] = Some (Inr ts, h')" by blast
  have cfg: "get_config select_cluster [] defaultNamespace rmdConfigConst = Inr cfg \<Longrightarrow>
      RmdNodeSelector (cfgSpec cfg) = Some [(''a'', ''b'')]" for cfg
    by (auto simp: select_cluster_def)
  from findTargetedNodes_selected [OF _ ts] sel obtain cfg nodes where
    c: "get_config select_cluster [] defaultNamespace rmdConfigConst = Inr cfg"
    and n: "list_nodes select_cluster ([] @ [GetConfigCR defaultNamespace rmdConfigConst])
        (labels_merge select_cluster (selector_labels (RmdNodeSelector (cfgSpec cfg))) [(''c'', ''d'')]) = Inr nodes"
    and m: "List.map tnNodeName ts = List.map nodeName nodes"
    by auto
  from n have "list_nodes select_cluster [GetConfigCR defaultNamespace rmdConfigConst]
      [(''c'', ''d''), (''a'', ''b'')] = Inr nodes"
    unfolding cfg [OF c] merge by simp
  with ts m show ?thesis by auto
qed

section \<open>Reconciling a resource that exists\<close>


text \<open>
  A run of the demo cluster: the workload leaves node \<open>n2\<close> and is added to \<open>n1\<close>.
\<close>

definition moved_trace :: trace where
  "moved_trace = snd (the (reconcile_present demo_cluster demo_rc [''n1'', ''n2''] (cr_workload [''n1'']) []))"

lemma moved_run:
  "reconcile_present demo_cluster demo_rc [''n1'', ''n2''] (cr_workload [''n1'']) [] =
     Some ((requeue_after 60, None), moved_trace)"
proof -
  have "\<exists>h'. reconcile_present demo_cluster demo_rc [''n1'', ''n2''] (cr_workload [''n1'']) [] =
      Some ((requeue_after 60, None), h')"
  proof -
    have "map_option fst (reconcile_present demo_cluster demo_rc [''n1'', ''n2''] (cr_workload [''n1'']) []) =
        Some (requeue_after 60, None)"
      by code_simp
    then show ?thesis by auto
  qed
  then show ?thesis by (auto simp: moved_trace_def)
qed


lemma demo_status: "status_subresource demo_cluster"
  by (simp add: status_subresource_def demo_cluster_def ref_env_def)


text \<open>
  (C5) A reconcile deletes only what it should: every DELETE goes to the RMD of a registered
  node, at the address of the node's pod, with the id RMD lists for the workload of this name
  there, and only if the spec does not want the node: for a list of nodes, if the node is
  not in it.
\<close>

theorem reconcile_deletes_only_unwanted:
  assumes status: "status_subresource env" and name: "wlName wl \<noteq> ''''"
    and run: "reconcile_present env rc rmdNodeList wl h = Some ((res, err), h')"
    and del: "delete_call a i \<in> set (writes h')" and new: "delete_call a i \<notin> set (writes h)"
  shows "\<exists>n a' i' b. n \<in> set rmdNodeList \<and> workload_url a' i' = workload_url a i \<and>
    (\<exists>h1 h2. getPodAddress env rc n h1 = (Inr a', h2)) \<and> runs_on env rc n (wlName wl) b i' \<and>
    (NodeSelector (wlSpec wl) = [] \<longrightarrow> n \<notin> set (Nodes (wlSpec wl))) \<and>
    (NodeSelector (wlSpec wl) \<noteq> [] \<longrightarrow> (\<exists>h1 node. get_node env h1 n = Inr node \<and>
       \<not> labels_in_whitelist env (NodeSelector (wlSpec wl)) (nodeLabels node)))"
proof -
  from run show ?thesis
  proof (cases rule: reconcile_present_cases)
    case (full ts h1 wl2 h2 rs h3 wl3)
    from apply_loop_writes [OF status full(2)] full(4) obtain cs where
      cs: "writes h3 = writes h @ cs" "targets_done env wl ts True cs"
        "wlName wl2 = wlName wl" "wlSpec wl2 = wlSpec wl" by (auto simp: same_resource_def)
    from removeWorkload_calls [OF full(5) del] new cs(1) targets_done_no_delete [OF cs(2)]
    obtain r where r: "r \<in> set rs" "delete_call a i = delete_call (rnRmdAddress r) (rnWorkloadID r)"
      by (auto simp: delete_call_def)
    from removed_loop_Inr [OF full(3) [unfolded findRemovedNodes_def]] cs(3,4) name have
      sub: "subseq (List.map rnNodeName rs) rmdNodeList"
      and each: "(\<exists>b. runs_on env rc (rnNodeName r) (wlName wl) b (rnWorkloadID r)) \<and>
       (\<exists>h1 h2. node_wanted env (wlSpec wl) (rnNodeName r) h1 = (Inr False, h2)) \<and>
       (\<exists>h1 h2. getPodAddress env rc (rnNodeName r) h1 = (Inr (rnRmdAddress r), h2))"
      using r(1) by auto
    from r(1) have "rnNodeName r \<in> set rmdNodeList"
      using subseq_set [OF sub] by auto
    moreover from r(2) have "workload_url (rnRmdAddress r) (rnWorkloadID r) = workload_url a i"
      by (simp add: delete_call_def)
    ultimately show ?thesis using each node_wanted_False by meson
  next
    case (search e)
    with del new show ?thesis by simp
  next
    case (partial ts h1 e wl2)
    from apply_loop_writes [OF status partial(2)] partial(3) obtain cs where
      "writes h' = writes h @ cs" "targets_done env wl ts False cs" by auto
    with del new targets_done_no_delete [OF this(2)] show ?thesis by auto
  next
    case (stale ts h1 wl2 h2 e)
    from apply_loop_writes [OF status stale(2)] stale(4,5) obtain cs where
      "writes h' = writes h @ cs" "targets_done env wl ts True cs" by auto
    with del new targets_done_no_delete [OF this(2)] show ?thesis by auto
  qed
qed

theorem reconcile_deletes_only_unwanted_witness:
  "\<exists>n a' i'. n \<in> set [''n1'', ''n2''] \<and>
     workload_url a' i' = workload_url ''http://10.0.0.2:80'' ''7'' \<and> n \<notin> set [''n1'']"
proof -
  have "delete_call ''http://10.0.0.2:80'' ''7'' \<in> set (writes moved_trace)"
    by code_simp
  moreover have "wlName (cr_workload [''n1'']) \<noteq> ''''" "NodeSelector (wlSpec (cr_workload [''n1''])) = []"
    "Nodes (wlSpec (cr_workload [''n1''])) = [''n1'']"
    by (simp_all add: cr_workload_def zero_RmdWorkload_def)
  ultimately show ?thesis
    using reconcile_deletes_only_unwanted [OF demo_status _ moved_run, of "''http://10.0.0.2:80''" "''7''"]
    by auto
qed


lemma demo_undisturbed: "undisturbed demo_cluster"
  by (simp add: undisturbed_def demo_cluster_def ref_env_def)


section \<open>Reconciling a resource that is gone\<close>

text \<open>
  (C7) The reconcile of a deleted resource, while nobody else changes the cluster, is all or
  nothing up to the deletions: if one registered node cannot be examined, an error is returned
  and nothing is deleted. Otherwise the obsolete workloads are a map from the address of every
  registered node that runs the workload to the id RMD lists there, the writes are their
  DELETEs, in whatever order the map was ranged over, and if no error is returned all of them
  were sent. It is never queued again by its result.
\<close>

theorem reconcile_deleted_all_or_nothing:
  assumes undist: "undisturbed env" and order: "\<And>m. mset (order m) = mset m" and name: "reqName req \<noteq> ''''"
    and run: "reconcile_deleted env rc order rmdNodeList req h = Some ((res, err), h')"
  shows "res = no_requeue \<and>
    (if \<exists>n \<in> set rmdNodeList. \<exists>e. found_at env rc (reqName req) h n = Some (Inl e)
     then err \<noteq> None \<and> writes h' = writes h
     else \<exists>obs cs. distinct (List.map fst obs) \<and>
       (\<forall>a. map_of obs a =
          (if \<exists>n \<in> set rmdNodeList. running_at env rc (reqName req) h n \<and> fst (getPodAddress env rc n h) = Inr a
           then Some (listed_id env (reqName req) h a) else None)) \<and>
       writes h' = writes h @ cs \<and> mset cs \<subseteq># mset (List.map (\<lambda>(a, i). delete_call a i) obs) \<and>
       (err = None \<longrightarrow> mset cs = mset (List.map (\<lambda>(a, i). delete_call a i) obs)))"
proof -
  from run obtain r h1 where find: "findObseleteWorkloads env rc rmdNodeList (reqName req) h = Some (r, h1)"
    by (auto simp: reconcile_deleted_def split: Option.bind_splits)
  note loop = find [unfolded findObseleteWorkloads_def]
  note w1 = read_only_writes [OF obselete_loop_read_only [OF loop]]
  note failed = obselete_loop_error [OF undist refl loop]
  show ?thesis
  proof (cases r)
    case (Inl e)
    with run find w1 failed show ?thesis by (auto simp: reconcile_deleted_def)
  next
    case (Inr obs)
    with run find have res: "res = no_requeue" and del: "obselete_delete_loop env (order obs) h1 = (err, h')"
      by (auto simp: reconcile_deleted_def split: prod.splits)
    have dist: "distinct (List.map fst obs)"
      using obselete_loop_Inr [OF loop [unfolded Inr], of "set rmdNodeList"] by simp
    have obs: "\<forall>a. map_of obs a =
        (if \<exists>n \<in> set rmdNodeList. running_at env rc (reqName req) h n \<and> fst (getPodAddress env rc n h) = Inr a
         then Some (listed_id env (reqName req) h a) else None)"
      using obselete_loop_exact [OF undist name refl loop [unfolded Inr]] by simp
    let ?f = "\<lambda>(a, i). delete_call a i"
    from obselete_delete_loop_writes [OF del] obtain k where
      k: "writes h' = writes h @ List.map ?f (take k (order obs))" "err = None \<longrightarrow> length (order obs) \<le> k"
      using w1 by auto
    have "mset (take k (order obs)) \<subseteq># mset (order obs)"
      by (metis append_take_drop_id mset_append mset_subset_eq_add_left)
    then have sub: "image_mset ?f (mset (take k (order obs))) \<subseteq># image_mset ?f (mset obs)"
      unfolding order by (rule image_mset_subseteq_mono)
    have all: "err = None \<longrightarrow> mset (take k (order obs)) = mset obs"
      using k(2) order by simp
    have found: "\<not> (\<exists>n \<in> set rmdNodeList. \<exists>e. found_at env rc (reqName req) h n = Some (Inl e))"
      using failed Inr by simp
    show ?thesis
      unfolding if_not_P [OF found]
      by (intro conjI res exI [of _ obs] exI [of _ "List.map ?f (take k (order obs))"] dist obs k(1))
        (use sub all in simp_all)
  qed
qed

theorem reconcile_deleted_all_or_nothing_witness:
  "\<exists>h' obs. reconcile_deleted demo_cluster demo_rc rev [''n1'', ''n2''] \<lparr>reqNamespace = ''default'', reqName = ''wl''\<rparr> [] =
       Some ((no_requeue, None), h') \<and> distinct (List.map fst obs) \<and>
     mset (writes h') = mset (List.map (\<lambda>(a, i). delete_call a i) obs)"
proof -
  let ?run = "reconcile_deleted demo_cluster demo_rc rev [''n1'', ''n2''] \<lparr>reqNamespace = ''default'', reqName = ''wl''\<rparr> []"
  have "map_option fst ?run = Some (no_requeue, None)" by code_simp
  then obtain h' where run: "?run = Some ((no_requeue, None), h')" by auto
  from reconcile_deleted_all_or_nothing [OF demo_undisturbed mset_rev _ run] run show ?thesis
    by (auto split: if_splits)
qed

lemma reconcile_deleted_leaves_node:
  assumes "undisturbed env" and order: "\<And>m. mset (order m) = mset m" and name: "reqName req \<noteq> ''''"
    and run: "reconcile_deleted env rc order rmdNodeList req h = Some ((res, None), h')"
    and n: "n \<in> set rmdNodeList" "running_at env rc (reqName req) h n"
  shows "\<exists>a. fst (getPodAddress env rc n h) = Inr a \<and>
    (\<exists>cs. writes h' = writes h @ cs \<and> delete_call a (listed_id env (reqName req) h a) \<in> set cs)"
proof -
  from n(2) obtain a where a: "fst (getPodAddress env rc n h) = Inr a"
    by (auto simp: running_at_def found_at_eq split: sum.splits)
  from run obtain r h1 where find: "findObseleteWorkloads env rc rmdNodeList (reqName req) h = Some (r, h1)"
    by (auto simp: reconcile_deleted_def split: Option.bind_splits)
  note loop = find [unfolded findObseleteWorkloads_def]
  from run find obtain obs where r: "r = Inr obs" by (cases r) (auto simp: reconcile_deleted_def)
  with run find have del: "obselete_delete_loop env (order obs) h1 = (None, h')"
    by (auto simp: reconcile_deleted_def split: prod.splits)
  have "\<exists>n \<in> set rmdNodeList. running_at env rc (reqName req) h n \<and> fst (getPodAddress env rc n h) = Inr a"
    using n a by blast
  from obselete_loop_exact [OF assms(1) name refl loop [unfolded r], of a, unfolded if_P [OF this]]
  have "(a, listed_id env (reqName req) h a) \<in> set obs" by (rule map_of_SomeD)
  then have "(a, listed_id env (reqName req) h a) \<in> set (order obs)"
    using order by (metis set_mset_mset)
  moreover from obselete_delete_loop_writes [OF del]
  have "writes h' = writes h @ List.map (\<lambda>(a, i). delete_call a i) (order obs)"
    using read_only_writes [OF obselete_loop_read_only [OF loop]] by auto
  ultimately show ?thesis using a by force
qed

text \<open>
  While nobody else changes the cluster, a reconcile of a deleted resource that returns
  no error leaves no registered node with the workload undeleted: each one that runs it gets a
  DELETE of the id its RMD lists.
\<close>

theorem deleted_workload_leaves_every_node:
  assumes undist: "undisturbed env" and order: "\<And>m. mset (order m) = mset m" and name: "reqName req \<noteq> ''''"
    and run: "reconcile_deleted env rc order rmdNodeList req h = Some ((res, None), h')"
    and n: "n \<in> set rmdNodeList" "running_at env rc (reqName req) h n"
  shows "\<exists>a. fst (getPodAddress env rc n h) = Inr a \<and>
    (\<exists>cs. writes h' = writes h @ cs \<and> delete_call a (listed_id env (reqName req) h a) \<in> set cs)"
  by (rule reconcile_deleted_leaves_node [OF undist order name run n])

theorem deleted_workload_leaves_every_node_witness:
  "\<exists>a h'. fst (getPodAddress demo_cluster demo_rc ''n2'' []) = Inr a \<and>
    delete_call a (listed_id demo_cluster ''wl'' [] a) \<in> set (writes h')"
proof -
  let ?run = "reconcile_deleted demo_cluster demo_rc rev [''n1'', ''n2''] \<lparr>reqNamespace = ''default'', reqName = ''wl''\<rparr> []"
  have "map_option fst ?run = Some (no_requeue, None)" by code_simp
  then obtain h' where run: "?run = Some ((no_requeue, None), h')" by auto
  have "map_option (map_sum id (\<lambda>(a, w). UUID w)) (found_at demo_cluster demo_rc ''wl'' [] ''n2'') = Some (Inr ''wl'')"
    by code_simp
  then have "running_at demo_cluster demo_rc ''wl'' [] ''n2''"
    by (cases "the (found_at demo_cluster demo_rc ''wl'' [] ''n2'')") (auto simp: running_at_def)
  with deleted_workload_leaves_every_node [OF demo_undisturbed mset_rev _ run, of "''n2''"]
  show ?thesis by (auto intro!: exI [of _ h'])
qed

section \<open>The status of the resource\<close>

text \<open>
  A request RMD refuses is no error of the reconcile: adding the workload goes on with the
  node's status, in which the refusal is the response.
\<close>

theorem refused_post_only_recorded:
  assumes fmt: "formatWorkload env wl a h = Some (Inr w, h1)"
    and sent: "plugins_marshalable (rdtPlugins w)" "new_request env ''POST'' (workloads_url a) = None"
    and refused: "http_send env h1 ''POST'' (workloads_url a) (Some w) = Answer code body" "code \<notin> {200, 201}"
  shows "\<exists>h2. writes h2 = writes h @ [HttpSend ''POST'' (workloads_url a) (Some w)] \<and>
    addWorkload env a wl n h = updateRmdWorkloadStatus env wl n a (''Fail: '' @ body) h2 \<and>
    (\<forall>wl' h'. updateRmdWorkloadStatus env wl n a (''Fail: '' @ body) h2 = Some ((None, wl'), h') \<longrightarrow>
       (\<exists>s. Response s = ''Fail: '' @ body \<and> writes h' = writes h2 @ [UpdateWorkloadStatus (put_state n s wl)]))"
proof -
  let ?h2 = "h1 @ [HttpSend ''POST'' (workloads_url a) (Some w)]"
  have "PostWorkload env wl a h = Some ((''Fail: '' @ body, Some status_error), ?h2)"
    using fmt sent refused by (simp add: PostWorkload_def marshal_workload_def)
  from adding.apply_ignores_request_error [OF this, of n] have
    "addWorkload env a wl n h = updateRmdWorkloadStatus env wl n a (''Fail: '' @ body) ?h2" .
  moreover have "writes ?h2 = writes h @ [HttpSend ''POST'' (workloads_url a) (Some w)]"
    by (simp add: formatWorkload_writes [OF fmt])
  ultimately show ?thesis using updateRmdWorkloadStatus_writes by blast
qed

theorem refused_post_only_recorded_witness:
  "\<exists>h2. addWorkload (demo_cluster\<lparr>http_send := \<lambda>h m u b. Answer 500 ''busy''\<rparr>) ''http://10.0.0.1:80''
     (cr_workload [''n1'']) ''n1'' [] =
     updateRmdWorkloadStatus (demo_cluster\<lparr>http_send := \<lambda>h m u b. Answer 500 ''busy''\<rparr>)
       (cr_workload [''n1'']) ''n1'' ''http://10.0.0.1:80'' ''Fail: busy'' h2"
proof -
  let ?e = "demo_cluster\<lparr>http_send := \<lambda>h m u b. Answer 500 ''busy''\<rparr>"
  obtain w where f: "formatWorkload ?e (cr_workload [''n1'']) ''http://10.0.0.1:80'' [] = Some (Inr w, [])"
    and p: "rdtPlugins w = []"
    by (simp add: formatWorkload_eq core_ids_def cr_workload_def zero_RmdWorkload_def zero_Plugins_def
        format_plugins_def)
  have m: "plugins_marshalable (rdtPlugins w)" by (simp add: p plugins_marshalable_def)
  have r: "new_request ?e ''POST'' (workloads_url ''http://10.0.0.1:80'') = None"
    by (simp add: demo_cluster_def ref_env_def)
  have a: "http_send ?e [] ''POST'' (workloads_url ''http://10.0.0.1:80'') (Some w) = Answer 500 ''busy''"
    by simp
  have c: "(500 :: int) \<notin> {200, 201}" by simp
  show ?thesis using refused_post_only_recorded [OF f m r a c, of "''n1''"] by auto
qed

text \<open>
  A workload that exists on a node's RMD but not in the resource's status (the status
  update failed, or the resource was created again) is patched without an id: the request goes
  to the bare collection URL, whatever id RMD lists.
\<close>

theorem patch_without_id:
  assumes "map_of (WorkloadStates wl) n = None"
    and "updateWorkload env a wl n h = Some (r, h')"
  shows "\<exists>cs. writes h' = writes h @ cs \<and>
    (\<forall>m u b. HttpSend m u b \<in> set cs \<longrightarrow> m = ''PATCH'' \<and> u = a @ ''/v1/workloads/'')"
proof -
  obtain err wl' where r: "r = (err, wl')" by fastforce
  have "stateID (node_state_of wl n) = ''''"
    using assms(1) by (simp add: node_state_of_def zero_WorkloadState_def)
  with updating.apply_writes [OF assms(2) [unfolded r]] obtain sent st where
    "writes h' = writes h @ sent @ st" and
    "sent = [] \<or> (\<exists>w. sent = [HttpSend ''PATCH'' (workload_url a '''') (Some w)])" and
    "st = [] \<or> (\<exists>s. st = [UpdateWorkloadStatus (put_state n s wl)])"
    by auto
  then show ?thesis by (intro exI [of _ "sent @ st"]) (auto simp: workload_url_def)
qed

theorem patch_without_id_witness:
  "\<exists>h'. phases (writes h') = [Applying] \<and>
    (\<forall>m u b. HttpSend m u b \<in> set (writes h') \<longrightarrow> u = ''http://10.0.0.2:80/v1/workloads/'')"
proof -
  let ?run = "updateWorkload demo_cluster ''http://10.0.0.2:80'' (cr_workload [''n2'']) ''n2'' []"
  have sends: "map_option (\<lambda>(r, h'). phases (writes h')) ?run = Some [Applying]" by code_simp
  then obtain r h' where run: "?run = Some (r, h')" by auto
  have "map_of (WorkloadStates (cr_workload [''n2''])) ''n2'' = None"
    by (simp add: cr_workload_def zero_RmdWorkload_def)
  from patch_without_id [OF this run] have
    "\<forall>m u b. HttpSend m u b \<in> set (writes h') \<longrightarrow> u = ''http://10.0.0.2:80/v1/workloads/''"
    by fastforce
  moreover have "phases (writes h') = [Applying]" using sends run by simp
  ultimately show ?thesis by blast
qed

text \<open>
  (C27) The monitoring mode of the P-State plugin overwrites the ratio in the resource's status:
  for a spec that sets it, the status shows the printed error of a float verb as the ratio,
  and the field for the mode keeps what it was.
\<close>

theorem monitoring_overwrites_ratio:
  assumes "format_plugins p = Inr ps" and "Monitoring p \<noteq> ''''" and "plugins_marshalable ps"
    and "rdtPlugins w = ps" and "filled_state w s = Inr s'"
  shows "Ratio (pstate (statePlugins s')) = ''%!f(string='' @ Monitoring p @ '')'' \<and>
    Monitoring (pstate (statePlugins s')) = Monitoring (pstate (statePlugins s))"
proof -
  from assms(1,2) obtain m where ps: "ps = [(''pstate'', m)]" and m: "map_of m ''monitoring'' = Some (JStr (Monitoring p))"
    by (auto simp: format_plugins_def Let_def update_conv' split: sum.splits if_splits)
  then have "plugins_state ps q = Inr (put_ratio (Some (JStr (Monitoring p))) (put_ratio (map_of m ''ratio'') q))" for q
    using assms(3) by (simp add: plugins_state_def json_plugins_round_trip_def)
  with assms(4,5) show ?thesis
    by (auto simp: filled_state_def put_ratio_def bad_verb_f_def split: option.splits json.splits)
qed

theorem monitoring_overwrites_ratio_witness:
  "\<exists>s'. filled_state running_workload zero_WorkloadState = Inr s' \<and>
    Ratio (pstate (statePlugins s')) = ''%!f(string=on)''"
proof -
  have "\<not> isl (filled_state running_workload zero_WorkloadState)" by code_simp
  then obtain s' where s': "filled_state running_workload zero_WorkloadState = Inr s'"
    by (metis isl_def sum.exhaust)
  have f: "format_plugins \<lparr>Ratio = '''', Monitoring = ''on''\<rparr> = Inr [(''pstate'', [(''monitoring'', JStr ''on'')])]"
    by (simp add: format_plugins_no_ratio)
  have "plugins_marshalable [(''pstate'', [(''monitoring'', JStr ''on'')])]"
    by (simp add: plugins_marshalable_def)
  from monitoring_overwrites_ratio [OF f _ this _ s'] s' show ?thesis
    by (simp add: running_workload_def)
qed

text \<open>
  (C26) What RMD accepted and lists back under an id reaches the status of the resource: the status
  update carries, for the node, the id, status and class RMD gives, the response, the policy and
  the listed cores of the spec, and each number of the spec modulo \<open>2^32\<close>, so that the numbers
  equal those of the spec exactly when all of them are in the range of \<open>uint32\<close>.
\<close>

theorem status_shows_spec:
  assumes fmt: "formatWorkload env wl a h = Some (Inr w, h1)" and enc: "plugins_marshalable (rdtPlugins w)"
    and listed: "GetWorkloads env a h2 = (Inr ws, h3)"
      "FindWorkloadByName ws (wlName wl) = Some (w\<lparr>rdtID := i, rdtStatus := st, CosName := cos\<rparr>)" "i \<noteq> ''''"
    and run: "updateRmdWorkloadStatus env wl n a resp h2 = Some ((err, wl'), h')"
  shows "\<exists>s. writes h' = writes h2 @ [UpdateWorkloadStatus (put_state n s wl)] \<and>
    stateID s = i \<and> stateStatus s = st \<and> stateCosName s = cos \<and> Response s = resp \<and>
    statePolicy s = Policy (wlSpec wl) \<and> (\<not> AllCores (wlSpec wl) \<longrightarrow> stateCoreIds s = CoreIds (wlSpec wl)) \<and>
    sint (cacheMax (rdtCache (stateRdt s))) = sint (cacheMax (rdtCache (specRdt (wlSpec wl)))) mod 2 ^ 32 \<and>
    sint (cacheMin (rdtCache (stateRdt s))) = sint (cacheMin (rdtCache (specRdt (wlSpec wl)))) mod 2 ^ 32 \<and>
    sint (Percentage (rdtMba (stateRdt s))) = sint (Percentage (rdtMba (specRdt (wlSpec wl)))) mod 2 ^ 32 \<and>
    sint (Mbps (rdtMba (stateRdt s))) = sint (Mbps (rdtMba (specRdt (wlSpec wl)))) mod 2 ^ 32 \<and>
    (stateRdt s = specRdt (wlSpec wl) \<longleftrightarrow>
       (\<forall>x \<in> {cacheMax (rdtCache (specRdt (wlSpec wl))), cacheMin (rdtCache (specRdt (wlSpec wl))),
              Percentage (rdtMba (specRdt (wlSpec wl))), Mbps (rdtMba (specRdt (wlSpec wl)))}.
          0 \<le> sint x \<and> sint x < 2 ^ 32))"
proof -
  let ?w = "w\<lparr>rdtID := i, rdtStatus := st, CosName := cos\<rparr>"
  let ?s0 = "(node_state_of wl n)\<lparr>Response := resp\<rparr>"
  have num: "state_number (Some (to_uint32 x)) = from_uint32 (to_uint32 x)"
    "state_number (nonzero_uint32 x) = from_uint32 (to_uint32 x)" for x
    by (simp_all add: state_number_def nonzero_uint32_def from_uint32_def)
  have rdt: "\<lparr>rdtCache = \<lparr>cacheMax = a, cacheMin = b\<rparr>, rdtMba = \<lparr>Percentage = c, Mbps = d\<rparr>\<rparr> = r \<longleftrightarrow>
      a = cacheMax (rdtCache r) \<and> b = cacheMin (rdtCache r) \<and> c = Percentage (rdtMba r) \<and> d = Mbps (rdtMba r)"
    for a b c d and r :: Rdt
    by (cases r; cases "rdtCache r"; cases "rdtMba r") auto
  from fmt obtain cores where cores: "core_ids env (wlSpec wl) a h = Some (Inr cores, h1)"
    and w: "rdtPolicy w = Policy (wlSpec wl)" "CoreIDs w = cores"
      "rdtCacheMax w = Some (to_uint32 (cacheMax (rdtCache (specRdt (wlSpec wl)))))"
      "rdtCacheMin w = Some (to_uint32 (cacheMin (rdtCache (specRdt (wlSpec wl)))))"
      "rdtPercentage w = nonzero_uint32 (Percentage (rdtMba (specRdt (wlSpec wl))))"
      "rdtMbps w = nonzero_uint32 (Mbps (rdtMba (specRdt (wlSpec wl))))"
    unfolding formatWorkload_eq by auto
  have listed_cores: "\<not> AllCores (wlSpec wl) \<longrightarrow> cores = CoreIds (wlSpec wl)" using cores by (auto simp: core_ids_listed)
  have "\<exists>p. plugins_state (rdtPlugins w) q = Inr p" for q
    using enc by (simp add: plugins_state_def json_plugins_round_trip_def split: option.split)
  then obtain p where "plugins_state (rdtPlugins ?w) (pstate (statePlugins ?s0)) = Inr p" by fastforce
  then obtain s where fill: "filled_state ?w ?s0 = Inr s" by (simp add: filled_state_def)
  then have s: "stateID s = i" "stateStatus s = st" "stateCosName s = cos" "statePolicy s = rdtPolicy w"
    "stateCoreIds s = CoreIDs w"
    "stateRdt s = \<lparr>rdtCache = \<lparr>cacheMax = state_number (rdtCacheMax w), cacheMin = state_number (rdtCacheMin w)\<rparr>,
       rdtMba = \<lparr>Percentage = state_number (rdtPercentage w), Mbps = state_number (rdtMbps w)\<rparr>\<rparr>"
    by (auto simp: filled_state_def split: sum.splits)
  have "Response s = resp" using filled_state_Response [OF fill] by simp
  moreover from run listed fill have "write_status env (put_state n s wl) h3 = ((err, wl'), h')"
    by (simp add: updateRmdWorkloadStatus_def Let_def)
  then have "writes h' = writes h2 @ [UpdateWorkloadStatus (put_state n s wl)]"
    using write_status_writes read_only_writes [OF GetWorkloads_read_only [OF listed(1)]] by fastforce
  ultimately show ?thesis using listed_cores
    by (intro exI [of _ s]) (simp add: s w rdt num through_uint32_iff sint_through_uint32)
qed

text \<open>An RMD that lists the workload of the demo spec back under the id 9.\<close>

definition accepting_env :: "int64 list env" where
  "accepting_env = demo_env\<lparr>decode_workloads := \<lambda>s. Inr [Some (zero_RDTWorkLoad\<lparr>UUID := ''wl'', CoreIDs := [''2''],
     rdtCacheMax := Some 2, rdtCacheMin := Some 2, rdtPercentage := Some 50, rdtID := ''9'',
     rdtStatus := ''Successful'', CosName := ''wl''\<rparr>)]\<rparr>"

theorem status_shows_spec_witness:
  "\<exists>r h' s. updateRmdWorkloadStatus accepting_env demo_workload ''n1'' ''http://10.0.0.1:8081'' ''ok'' [] = Some (r, h') \<and>
    writes h' = [UpdateWorkloadStatus (put_state ''n1'' s demo_workload)] \<and>
    stateID s = ''9'' \<and> stateStatus s = ''Successful'' \<and> stateRdt s = specRdt demo_spec"
proof -
  let ?a = "''http://10.0.0.1:8081''"
  let ?w = "zero_RDTWorkLoad\<lparr>UUID := ''wl'', CoreIDs := [''2''], rdtCacheMax := Some 2,
      rdtCacheMin := Some 2, rdtPercentage := Some 50\<rparr>"
  have fmt: "formatWorkload accepting_env demo_workload ?a [] = Some (Inr ?w, [HttpGet (?a @ ''/v1/cache/l3'')])"
    by code_simp
  have enc: "plugins_marshalable (rdtPlugins ?w)" by (simp add: zero_RDTWorkLoad_def plugins_marshalable_def)
  have get: "GetWorkloads accepting_env ?a [] =
      (Inr [Some (?w\<lparr>rdtID := ''9'', rdtStatus := ''Successful'', CosName := ''wl''\<rparr>)], [HttpGet (workloads_url ?a)])"
    by (simp add: GetWorkloads_def accepting_env_def demo_env_def Let_def)
  have "wlName demo_workload = ''wl''" by (simp add: demo_workload_def)
  then have find: "FindWorkloadByName [Some (?w\<lparr>rdtID := ''9'', rdtStatus := ''Successful'', CosName := ''wl''\<rparr>)]
      (wlName demo_workload) = Some (?w\<lparr>rdtID := ''9'', rdtStatus := ''Successful'', CosName := ''wl''\<rparr>)"
    by simp
  have "updateRmdWorkloadStatus accepting_env demo_workload ''n1'' ?a ''ok'' [] \<noteq> None" by code_simp
  then obtain err wl' h' where run:
    "updateRmdWorkloadStatus accepting_env demo_workload ''n1'' ?a ''ok'' [] = Some ((err, wl'), h')" by auto
  have spec: "wlSpec demo_workload = demo_spec" by (simp add: demo_workload_def)
  have id: "''9'' \<noteq> ''''" by simp
  from status_shows_spec [OF fmt enc get find id run] run show ?thesis
    by (auto simp: spec demo_spec_def)
qed

end
