(* ===== verification/Operator_Facts.thy ===== *)
theory Operator_Facts
  imports Config_Controller_Props NodeState_Controller_Props Workload_Controller_Props
begin

text \<open>
  What the three reconcilers of the operator share: each only adds calls to the trace, and each
  ends the process only on the inputs named here. Both are collected for the run of the
  operator: \<open>trace_grows\<close> has the first kind of facts, \<open>nil_fails\<close> the second.
\<close>

named_theorems trace_grows

named_theorems nil_fails

section \<open>The trace only grows\<close>

lemma read_only_prefix: "read_only h h' \<Longrightarrow> prefix h h'"
  by (auto simp: read_only_def extends_def)

lemmas read_only_grows [trace_grows] =
  GetWorkloads_read_only [THEN read_only_prefix] formatWorkload_read_only [THEN read_only_prefix]
  getPodAddress_read_only [THEN read_only_prefix] lookup_workload_read_only [THEN read_only_prefix]
  getTargetedNode_read_only [THEN read_only_prefix] obselete_loop_read_only [THEN read_only_prefix]
  findTargetedNodes_read_only [THEN read_only_prefix] findRemovedNodes_read_only [THEN read_only_prefix]
  removed_node_read_only [THEN read_only_prefix] state_pod_read_only [THEN read_only_prefix]

lemma PostWorkload_grows [trace_grows]: "PostWorkload env wl a h = Some (r, h') \<Longrightarrow> prefix h h'"
  by (auto simp: PostWorkload_def Let_def split: Option.bind_splits sum.splits option.splits send_result.splits if_splits
      dest!: trace_grows)

lemma PatchWorkload_grows [trace_grows]: "PatchWorkload env wl a i h = Some (r, h') \<Longrightarrow> prefix h h'"
  by (auto simp: PatchWorkload_def Let_def split: Option.bind_splits sum.splits option.splits send_result.splits if_splits
      dest!: trace_grows)

lemma DeleteWorkload_grows [trace_grows]: "DeleteWorkload env a i h = (r, h') \<Longrightarrow> prefix h h'"
  by (auto simp: DeleteWorkload_def Let_def split: option.splits send_result.splits if_splits)

lemma write_status_grows [trace_grows]: "write_status env wl h = (r, h') \<Longrightarrow> prefix h h'"
  by (auto simp: write_status_def Let_def split: sum.splits)

lemma updateRmdWorkloadStatus_grows [trace_grows]:
  assumes "updateRmdWorkloadStatus env wl n a resp h = Some (r, h')"
  shows "prefix h h'"
proof -
  obtain err wl' where r: "r = (err, wl')" by fastforce
  from updateRmdWorkloadStatus_cases [OF assms [unfolded r]] obtain h1 where
    "prefix h h1" "h' = h1 \<or> prefix h1 h'" by (auto dest: read_only_prefix trace_grows)
  then show ?thesis by (auto intro: prefix_order.trans)
qed

lemma apply_one_grows [trace_grows]: "apply_one env wl t h = Some (r, h') \<Longrightarrow> prefix h h'"
  by (auto simp: apply_one_def addWorkload_def updateWorkload_def split: if_splits Option.bind_splits
      dest!: trace_grows intro: prefix_order.trans)

lemma apply_loop_grows [trace_grows]: "apply_loop env wl ts h = Some (r, h') \<Longrightarrow> prefix h h'"
proof (induction ts arbitrary: wl h)
  case Nil
  then show ?case by simp
next
  case (Cons t ts)
  from Cons.prems obtain e wl1 h1 where one: "apply_one env wl t h = Some ((e, wl1), h1)"
    and rest: "h' = h1 \<or> apply_loop env wl1 ts h1 = Some (r, h')"
    unfolding apply_loop_Cons by (auto split: Option.bind_splits option.splits)
  from apply_one_grows [OF one] rest Cons.IH show ?case by (auto intro: prefix_order.trans)
qed

lemma remove_loop_grows [trace_grows]: "remove_loop env wl rs h = (r, h') \<Longrightarrow> prefix h h'"
  by (induction rs arbitrary: wl h)
    (auto split: prod.splits option.splits dest!: DeleteWorkload_grows, blast intro: prefix_order.trans)

lemma removeWorkload_grows [trace_grows]: "removeWorkload env wl rs h = (r, h') \<Longrightarrow> prefix h h'"
  by (auto simp: removeWorkload_def split: prod.splits option.splits dest!: trace_grows intro: prefix_order.trans)

lemma obselete_delete_loop_grows [trace_grows]: "obselete_delete_loop env ws h = (r, h') \<Longrightarrow> prefix h h'"
  by (induction ws arbitrary: h)
    (auto split: prod.splits option.splits dest!: DeleteWorkload_grows, blast intro: prefix_order.trans)

lemma reconcile_deleted_grows [trace_grows]: "reconcile_deleted env rc order ns req h = Some (r, h') \<Longrightarrow> prefix h h'"
  by (auto simp: reconcile_deleted_def findObseleteWorkloads_def split: Option.bind_splits prod.splits sum.splits
      dest!: trace_grows intro: prefix_order.trans)

lemma reconcile_present_grows [trace_grows]:
  assumes "reconcile_present env rc ns wl h = Some (r, h')"
  shows "prefix h h'"
proof -
  obtain res err where r: "r = (res, err)" by fastforce
  from assms [unfolded r] show ?thesis
    by (cases rule: reconcile_present_cases) (auto dest!: trace_grows intro: prefix_order.trans)
qed

lemma ReconcileWorkload_grows [trace_grows]: "ReconcileWorkload env rc order ns req h = Some (r, h') \<Longrightarrow> prefix h h'"
  by (auto simp: ReconcileWorkload_def Let_def split: sum.splits if_splits dest!: trace_grows intro: append_prefixD)

section \<open>A nil entry in the list of an RMD\<close>

text \<open>
  After the trace \<open>h\<close> an RMD answers a query for its workloads with a list that holds a nil
  entry: \<open>null\<close> in the JSON text.
\<close>

definition nil_listed :: "'c env \<Rightarrow> trace \<Rightarrow> bool" where
  "nil_listed env h \<longleftrightarrow>
     (\<exists>a h1 ws h2. prefix h h1 \<and> GetWorkloads env a h1 = (Inr ws, h2) \<and> None \<in> set ws)"

lemma nil_listed_mono: "prefix h h' \<Longrightarrow> nil_listed env h' \<Longrightarrow> nil_listed env h"
  unfolding nil_listed_def by (meson prefix_order.trans)

lemma nil_listedI: "GetWorkloads env a h = (Inr ws, h') \<Longrightarrow> None \<in> set ws \<Longrightarrow> nil_listed env h"
  unfolding nil_listed_def by blast

lemma lookup_workload_None [nil_fails]: "lookup_workload env rc n name h = None \<Longrightarrow> nil_listed env h"
  by (auto simp: lookup_workload_def split: prod.splits sum.splits Option.bind_splits
      dest!: FindWorkloadByName_None dest: nil_listedI intro: nil_listed_mono [OF getPodAddress_read_only [THEN read_only_prefix]])

lemma getTargetedNode_None [nil_fails]: "getTargetedNode env rc n name h = None \<Longrightarrow> nil_listed env h"
  by (auto simp: getTargetedNode_def split: Option.bind_splits dest: nil_fails)

lemma obselete_loop_None [nil_fails]: "obselete_loop env rc name ns acc h = None \<Longrightarrow> nil_listed env h"
proof (induction ns arbitrary: acc h)
  case (Cons n ns)
  show ?case
  proof (cases "lookup_workload env rc n name h")
    case None
    then show ?thesis by (rule nil_fails)
  next
    case (Some p)
    obtain r h1 where p: "p = (r, h1)" by fastforce
    with Cons.prems Some obtain acc' where "obselete_loop env rc name ns acc' h1 = None"
      by (auto split: sum.splits if_splits)
    from Cons.IH [OF this] lookup_workload_read_only [OF Some [unfolded p], THEN read_only_prefix] show ?thesis by (blast intro: nil_listed_mono)
  qed
qed simp

lemma listed_nodes_loop_None [nil_fails]: "listed_nodes_loop env rc name ns h = None \<Longrightarrow> nil_listed env h"
proof (induction ns arbitrary: h)
  case (Cons n ns)
  show ?case
  proof (cases "getTargetedNode env rc n name h")
    case None
    then show ?thesis by (rule nil_fails)
  next
    case (Some p)
    obtain r h1 where p: "p = (r, h1)" by fastforce
    with Cons.prems Some have "listed_nodes_loop env rc name ns h1 = None" by (auto split: Option.bind_splits)
    from Cons.IH [OF this] getTargetedNode_read_only [OF Some [unfolded p], THEN read_only_prefix] show ?thesis by (blast intro: nil_listed_mono)
  qed
qed simp

lemma selected_nodes_loop_None [nil_fails]: "selected_nodes_loop env rc name ns h = None \<Longrightarrow> nil_listed env h"
proof (induction ns arbitrary: h)
  case (Cons n ns)
  show ?case
  proof (cases "getTargetedNode env rc (nodeName n) name h")
    case None
    then show ?thesis by (rule nil_fails)
  next
    case (Some p)
    obtain r h1 where p: "p = (r, h1)" by fastforce
    with Cons.prems Some have "selected_nodes_loop env rc name ns h1 = None"
      by (auto split: sum.splits Option.bind_splits)
    from Cons.IH [OF this] getTargetedNode_read_only [OF Some [unfolded p], THEN read_only_prefix] show ?thesis by (blast intro: nil_listed_mono)
  qed
qed simp

lemma findTargetedNodes_None [nil_fails]: "findTargetedNodes env rc wl h = None \<Longrightarrow> nil_listed env h"
  by (auto simp: findTargetedNodes_def Let_def split: if_splits sum.splits Option.bind_splits
      dest!: nil_fails intro: nil_listed_mono [rotated])

lemma removed_node_None [nil_fails]: "removed_node env rc wl n h = None \<Longrightarrow> nil_listed env h"
  by (auto simp: removed_node_def split: Option.bind_splits dest: nil_fails)

lemma removed_loop_None [nil_fails]: "removed_loop env rc wl ns h = None \<Longrightarrow> nil_listed env h"
proof (induction ns arbitrary: h)
  case (Cons n ns)
  show ?case
  proof (cases "removed_node env rc wl n h")
    case None
    then show ?thesis by (rule nil_fails)
  next
    case (Some p)
    obtain r h1 where p: "p = (r, h1)" by fastforce
    with Cons.prems Some have "removed_loop env rc wl ns h1 = None"
      by (auto split: sum.splits Option.bind_splits)
    from Cons.IH [OF this] removed_node_read_only [OF Some [unfolded p]] show ?thesis
      by (blast intro: nil_listed_mono read_only_prefix)
  qed
qed simp

lemma updateRmdWorkloadStatus_None [nil_fails]:
  "updateRmdWorkloadStatus env wl n a resp h = None \<Longrightarrow> nil_listed env h"
  by (cases "GetWorkloads env a h")
    (auto simp: updateRmdWorkloadStatus_def Let_def split: Option.bind_splits sum.splits
      dest!: FindWorkloadByName_None dest: nil_listedI)

lemma workload_map_None [nil_fails]:
  "update_node_state env rc ns p h = None \<Longrightarrow> nil_listed env h"
  by (auto simp: update_node_state_def Let_def split: option.splits prod.splits Option.bind_splits sum.splits
      dest!: workload_map_loop_None dest: nil_listedI)

section \<open>When a reconcile does not return\<close>

lemma apply_one_None:
  "apply_one env wl t h = None \<Longrightarrow> formatWorkload env wl (tnRmdAddress t) h = None \<or> nil_listed env h"
  by (auto simp: apply_one_def adding.apply_crash updating.apply_crash split: if_splits
      dest!: nil_fails intro: nil_listed_mono [rotated] trace_grows)

lemma apply_loop_None:
  assumes "status_subresource env"
  shows "apply_loop env wl ts h = None \<Longrightarrow>
    nil_listed env h \<or> (\<exists>wl' a h'. wlSpec wl' = wlSpec wl \<and> formatWorkload env wl' a h' = None)"
proof (induction ts arbitrary: wl h)
  case Nil
  then show ?case by simp
next
  case (Cons t ts)
  show ?case
  proof (cases "apply_one env wl t h")
    case None
    then show ?thesis by (auto dest: apply_one_None)
  next
    case (Some r)
    then obtain e wl1 h1 where one: "apply_one env wl t h = Some ((e, wl1), h1)" by (metis prod.exhaust)
    with Cons.prems have e: "e = None" and rest: "apply_loop env wl1 ts h1 = None"
      unfolding apply_loop_Cons by (auto split: option.splits)
    have "wlSpec wl1 = wlSpec wl"
      using apply_one_keeps [OF assms one [unfolded e]] by (simp add: same_resource_def)
    with Cons.IH [OF rest] nil_listed_mono [OF apply_one_grows [OF one]] show ?thesis by auto
  qed
qed

lemma reconcile_present_None:
  assumes "status_subresource env" "reconcile_present env rc ns wl h = None"
  shows "nil_listed env h \<or> (\<exists>wl' a h'. wlSpec wl' = wlSpec wl \<and> formatWorkload env wl' a h' = None)"
proof (cases "findTargetedNodes env rc wl h")
  case None
  then show ?thesis by (auto dest: nil_fails)
next
  case (Some f)
  with assms(2) obtain ts h1 where find: "findTargetedNodes env rc wl h = Some (Inr ts, h1)"
    by (cases f; cases "fst f") (auto simp: reconcile_present_def)
  note h1 = findTargetedNodes_read_only [OF find, THEN read_only_prefix]
  show ?thesis
  proof (cases "apply_loop env wl ts h1")
    case None
    with apply_loop_None [OF assms(1)] h1 show ?thesis by (blast intro: nil_listed_mono)
  next
    case (Some p)
    then obtain e wl2 h2 where loop: "apply_loop env wl ts h1 = Some ((e, wl2), h2)" by (metis prod.exhaust)
    with assms(2) find have "findRemovedNodes env rc ns wl2 h2 = None"
      by (auto simp: reconcile_present_def split: option.splits Option.bind_splits)
    then have "nil_listed env h2" unfolding findRemovedNodes_def by (rule nil_fails)
    with nil_listed_mono [OF prefix_order.trans [OF h1 apply_loop_grows [OF loop]]] show ?thesis by blast
  qed
qed

lemma ReconcileWorkload_None:
  assumes "status_subresource env" "ReconcileWorkload env rc order nodes req h = None"
  shows "nil_listed env h \<or> (\<exists>wl wl' a h'. get_workload env h (reqNamespace req) (reqName req) = Inr wl \<and>
    wlSpec wl' = wlSpec wl \<and> formatWorkload env wl' a h' = None)"
proof (cases "get_workload env h (reqNamespace req) (reqName req)")
  case (Inl e)
  with assms(2) have "reconcile_deleted env rc order nodes req (h @ [GetWorkloadCR (reqNamespace req) (reqName req)]) = None"
    by (auto simp: ReconcileWorkload_def Let_def split: if_splits)
  then have "nil_listed env (h @ [GetWorkloadCR (reqNamespace req) (reqName req)])"
    by (auto simp: reconcile_deleted_def findObseleteWorkloads_def split: Option.bind_splits dest: nil_fails)
  then show ?thesis by (auto intro: nil_listed_mono [rotated])
next
  case (Inr wl)
  with assms(2) have "reconcile_present env rc nodes wl (h @ [GetWorkloadCR (reqNamespace req) (reqName req)]) = None"
    by (simp add: ReconcileWorkload_def Let_def)
  from reconcile_present_None [OF assms(1) this] Inr show ?thesis
    by (auto intro: nil_listed_mono [rotated])
qed

lemma ReconcileNodeState_None:
  assumes "distinct (RmdNodeList nd)" "ReconcileNodeState env rc nd req h = None"
  shows "nil_listed env h"
proof -
  from assms obtain ns p h1 where
    "state_pod env (nsNode (nsSpec ns)) (h @ [GetNodeStateCR (reqNamespace req) (reqName req)]) = (Inr p, h1)"
    "update_node_state env rc ns p h1 = None"
    by (auto simp: ReconcileNodeState_def Let_def DeleteRmdNodeData_filter
        split: sum.splits prod.splits if_splits Option.bind_splits)
  from workload_map_None [OF this(2)] state_pod_read_only [OF this(1), THEN read_only_prefix] show ?thesis
    by (auto intro: nil_listed_mono append_prefixD)
qed

lemma ReconcileConfig_None:
  assumes "ReconcileConfig env nd req h = None"
  shows "\<exists>h path. path \<in> {rmdDaemonSetPath, nodeAgentDaemonSetPath} \<and> read_manifest env h path = Inr OtherKind"
proof -
  have "\<exists>h. read_manifest env h rmdDaemonSetPath = Inr OtherKind \<or> read_manifest env h nodeAgentDaemonSetPath = Inr OtherKind"
    using assms by (auto simp: ReconcileConfig_def Let_def sync_node_agent_def createDaemonSetIfNotPresent_None
      split: sum.splits Option.bind_splits option.splits if_splits)
  then show ?thesis by auto
qed

end
