(* ===== verification/Operator.thy ===== *)
theory Operator
  imports Operator_Facts
begin

text \<open>
  The operator process: its three controllers (\<open>pkg/controller\<close>) over the node registry they
  share, as a step relation. A step is one reconcile of one controller for any request; the
  requests and their order are arbitrary, and so are the changes of the cluster in between,
  because an answer may depend on the whole trace. The registry of the controllers is the one
  pointer \<open>cmd/manager/main.go\<close> creates and hands to all of them.
\<close>

section \<open>Steps\<close>

record operator_state =
  opNodes :: RmdNodeData
  opTrace :: trace

definition operator_start :: operator_state where
  "operator_start = \<lparr>opNodes = NewRmdNodeData, opTrace = []\<rparr>"

inductive operator_step :: "'c env \<Rightarrow> OperatorRmdClient \<Rightarrow> operator_state \<Rightarrow> operator_state \<Rightarrow> bool"
  for env :: "'c env" and rc :: OperatorRmdClient
where
  config: "ReconcileConfig env nd req h = Some (r, nd', h') \<Longrightarrow>
    operator_step env rc \<lparr>opNodes = nd, opTrace = h\<rparr> \<lparr>opNodes = nd', opTrace = h'\<rparr>"
| node_state: "ReconcileNodeState env rc nd req h = Some (r, nd', h') \<Longrightarrow>
    operator_step env rc \<lparr>opNodes = nd, opTrace = h\<rparr> \<lparr>opNodes = nd', opTrace = h'\<rparr>"
| workload: "ReconcileWorkload env rc order (RmdNodeList nd) req h = Some (r, h') \<Longrightarrow>
    operator_step env rc \<lparr>opNodes = nd, opTrace = h\<rparr> \<lparr>opNodes = nd, opTrace = h'\<rparr>"

inductive_cases operator_stepE: "operator_step env rc s s'"

inductive operator_reachable :: "'c env \<Rightarrow> OperatorRmdClient \<Rightarrow> operator_state \<Rightarrow> bool"
  for env :: "'c env" and rc :: OperatorRmdClient
where
  start: "operator_reachable env rc operator_start"
| step: "operator_reachable env rc s \<Longrightarrow> operator_step env rc s s' \<Longrightarrow> operator_reachable env rc s'"

section \<open>Labelled runs\<close>

text \<open>
  A run with a log: every call with the controller that made it. What the registry must do is
  read off the log alone: the reconciler of the configuration registers a node once it has
  asked for its node state, unless the answer is that there is none, and then once it has
  created it; the reconciler of the node states removes the node named by a node state that
  the API server does not find; the reconciler of the workloads leaves it alone.
\<close>

datatype controller = ConfigController | NodeStateController | WorkloadController

type_synonym log = "(controller \<times> call) list"

inductive operator_run :: "'c env \<Rightarrow> OperatorRmdClient \<Rightarrow> log \<Rightarrow> operator_state \<Rightarrow> bool"
  for env :: "'c env" and rc :: OperatorRmdClient
where
  start: "operator_run env rc [] operator_start"
| config: "operator_run env rc log \<lparr>opNodes = nd, opTrace = h\<rparr> \<Longrightarrow>
    ReconcileConfig env nd req h = Some (r, nd', h @ cs) \<Longrightarrow>
    operator_run env rc (log @ List.map (Pair ConfigController) cs) \<lparr>opNodes = nd', opTrace = h @ cs\<rparr>"
| node_state: "operator_run env rc log \<lparr>opNodes = nd, opTrace = h\<rparr> \<Longrightarrow>
    ReconcileNodeState env rc nd req h = Some (r, nd', h @ cs) \<Longrightarrow>
    operator_run env rc (log @ List.map (Pair NodeStateController) cs) \<lparr>opNodes = nd', opTrace = h @ cs\<rparr>"
| workload: "operator_run env rc log \<lparr>opNodes = nd, opTrace = h\<rparr> \<Longrightarrow>
    ReconcileWorkload env rc order (RmdNodeList nd) req h = Some (r, h @ cs) \<Longrightarrow>
    operator_run env rc (log @ List.map (Pair WorkloadController) cs) \<lparr>opNodes = nd, opTrace = h @ cs\<rparr>"

fun call_ops :: "'c env \<Rightarrow> controller \<Rightarrow> trace \<Rightarrow> call \<Rightarrow> registry_op list" where
  "call_ops env ConfigController h (GetNodeStateCR ns name) =
     (case get_node_state env h ns name of
        Inl e \<Rightarrow> if IsNotFound e then [] else [AddNode (drop (length rmdNodeStateNameConst) name)]
      | Inr _ \<Rightarrow> [AddNode (drop (length rmdNodeStateNameConst) name)])"
| "call_ops env ConfigController h (CreateNodeStateCR s) =
     (if create_node_state env h s = None then [AddNode (nsNode (nsSpec s))] else [])"
| "call_ops env NodeStateController h (GetNodeStateCR ns name) =
     (case get_node_state env h ns name of
        Inl e \<Rightarrow> if IsNotFound e then [DelNode (ReplaceAll name node_state_prefix '''')] else []
      | Inr _ \<Rightarrow> [])"
| "call_ops env k h c = []"

fun log_ops :: "'c env \<Rightarrow> trace \<Rightarrow> log \<Rightarrow> registry_op list" where
  "log_ops env h [] = []"
| "log_ops env h ((k, c) # log) = call_ops env k h c @ log_ops env (h @ [c]) log"

lemma log_ops_append:
  "log_ops env h (xs @ ys) = log_ops env h xs @ log_ops env (h @ List.map snd xs) ys"
  by (induction env h xs rule: log_ops.induct) auto

lemma log_ops_workload [simp]: "log_ops env h (List.map (Pair WorkloadController) cs) = []"
  by (induction cs arbitrary: h) simp_all

lemma map_snd_Pair [simp]: "List.map (snd \<circ> Pair k) cs = cs"
  by (induction cs) simp_all

text \<open>Calls without bearing on the registry.\<close>

definition unrelated :: "controller \<Rightarrow> call \<Rightarrow> bool" where
  "unrelated k c \<longleftrightarrow> (\<forall>ns name. c \<noteq> GetNodeStateCR ns name) \<and> (\<forall>s. k = ConfigController \<longrightarrow> c \<noteq> CreateNodeStateCR s)"

lemma quiet_ops: "unrelated k c \<Longrightarrow> call_ops env k h c = []"
  by (cases c; cases k) (auto simp: unrelated_def)

lemma log_ops_quiet: "list_all (unrelated k) cs \<Longrightarrow> log_ops env h (List.map (Pair k) cs) = []"
  by (induction cs arbitrary: h) (simp_all add: quiet_ops)

text \<open>The operations a reconcile shows between two traces.\<close>

definition shown :: "'c env \<Rightarrow> controller \<Rightarrow> trace \<Rightarrow> trace \<Rightarrow> registry_op list \<Rightarrow> bool" where
  "shown env k h h' ops \<longleftrightarrow> (\<exists>cs. h' = h @ cs \<and> log_ops env h (List.map (Pair k) cs) = ops)"

lemma shown_refl [simp]: "shown env k h h []"
  by (simp add: shown_def)

lemma shown_quiet: "extends (unrelated k) h h' \<Longrightarrow> shown env k h h' []"
  by (auto simp: shown_def extends_def log_ops_quiet)

lemma shown_trans: "shown env k h h1 xs \<Longrightarrow> shown env k h1 h2 ys \<Longrightarrow> shown env k h h2 (xs @ ys)"
  by (auto simp: shown_def log_ops_append)

lemma shown_prefix: "shown env k h h' ops \<Longrightarrow> prefix h h'"
  by (auto simp: shown_def)

lemma shown_append: "shown env k h (h @ cs) ops \<longleftrightarrow> log_ops env h (List.map (Pair k) cs) = ops"
  by (auto simp: shown_def)

section \<open>What the reconcilers show\<close>

lemma createDaemonSetIfNotPresent_quiet:
  "createDaemonSetIfNotPresent env cfg path h = Some (r, h') \<Longrightarrow> extends (unrelated k) h h'"
  by (auto simp: createDaemonSetIfNotPresent_def newDaemonSet_def sync_selector_def Let_def extends_def unrelated_def
      split: Option.bind_splits sum.splits manifest.splits if_splits)

lemma sync_node_agent_quiet: "sync_node_agent env cfg h = Some (r, h') \<Longrightarrow> extends (unrelated k) h h'"
  by (auto simp: sync_node_agent_def deleteDaemonSetIfPresent_def Let_def extends_def unrelated_def
      split: if_splits sum.splits dest!: createDaemonSetIfNotPresent_quiet [of _ _ _ _ _ _ k, unfolded extends_def])

lemma createNodeStateIfNotPresent_shown:
  "createNodeStateIfNotPresent env n cfg h = (err, h') \<Longrightarrow>
     shown env ConfigController h h' (if err = None then [AddNode n] else [])"
  by (auto simp: createNodeStateIfNotPresent_def new_node_state_def Let_def shown_append
      split: sum.splits if_splits)

lemma UpdateRmdNodeData_spec: "RmdNodeList (UpdateRmdNodeData n nd) = spec_op (AddNode n) (RmdNodeList nd)"
  by (simp add: UpdateRmdNodeData_def update_loop_eq)

lemma node_loop_shown:
  "node_loop env cfg nodes nd h = (err, nd', h') \<Longrightarrow>
     \<exists>k. shown env ConfigController h h' (List.map AddNode (List.map nodeName (take k nodes))) \<and>
       RmdNodeList nd' = fold spec_op (List.map AddNode (List.map nodeName (take k nodes))) (RmdNodeList nd)"
proof (induction nodes arbitrary: nd h)
  case Nil
  then show ?case by simp
next
  case (Cons node nodes)
  obtain e h1 where c: "createNodeStateIfNotPresent env (nodeName node) cfg h = (e, h1)" by fastforce
  note one = createNodeStateIfNotPresent_shown [OF c]
  show ?case
  proof (cases e)
    case (Some e')
    with Cons.prems c have "err \<noteq> None" "h' = h1" "nd' = nd" by auto
    with one Some show ?thesis by (intro exI [of _ 0]) simp
  next
    case None
    with Cons.prems c have "node_loop env cfg nodes (UpdateRmdNodeData (nodeName node) nd) h1 = (err, nd', h')" by simp
    from Cons.IH [OF this] obtain k where k:
      "shown env ConfigController h1 h' (List.map AddNode (List.map nodeName (take k nodes)))"
      "RmdNodeList nd' = fold spec_op (List.map AddNode (List.map nodeName (take k nodes)))
         (RmdNodeList (UpdateRmdNodeData (nodeName node) nd))" by blast
    from shown_trans [OF one k(1)] None k(2) show ?thesis
      by (intro exI [of _ "Suc k"]) (simp add: UpdateRmdNodeData_spec del: spec_op.simps)
  qed
qed

text \<open>The nodes added were listed by the API server before.\<close>

definition listed_by :: "'c env \<Rightarrow> trace \<Rightarrow> string \<Rightarrow> bool" where
  "listed_by env h n \<longleftrightarrow>
     (\<exists>g l ns. prefix (g @ [ListNodes l]) h \<and> list_nodes env g l = Inr ns \<and> n \<in> nodeName ` set ns)"

lemma listed_by_mono: "prefix h h' \<Longrightarrow> listed_by env h n \<Longrightarrow> listed_by env h' n"
  unfolding listed_by_def by (meson prefix_order.trans)

lemma label_nodes_shown:
  assumes "label_nodes env cfg nd h = (r, nd', h')"
  shows "\<exists>ops. shown env ConfigController h h' ops \<and> RmdNodeList nd' = fold spec_op ops (RmdNodeList nd) \<and>
    (\<forall>n. AddNode n \<in> set ops \<longrightarrow> listed_by env h' n)"
proof -
  define l where "l = (case RmdNodeSelector (cfgSpec cfg) of None \<Rightarrow> [] | Some m \<Rightarrow> m)"
  have unrelated: "extends (unrelated ConfigController) h (h @ [ListNodes l])" by (simp add: unrelated_def)
  show ?thesis
  proof (cases "\<exists>ns. list_nodes env h l = Inr ns \<and> ns \<noteq> []")
    case False
    with assms have "nd' = nd" "h' = h @ [ListNodes l]"
      by (auto simp: label_nodes_def l_def Let_def split: sum.splits if_splits)
    with shown_quiet [OF unrelated] show ?thesis by (intro exI [of _ "[]"]) simp
  next
    case True
    then obtain ns where ns: "list_nodes env h l = Inr ns" "ns \<noteq> []" by blast
    obtain e nd1 h1 where loop: "node_loop env cfg ns nd (h @ [ListNodes l]) = (e, nd1, h1)"
      by (metis prod.exhaust)
    with assms ns have end1: "nd' = nd1" "h' = h1 \<or> (\<exists>w. h' = h1 @ [UpdateConfigStatus w])"
      by (auto simp: label_nodes_def Let_def l_def split: option.splits)
    from node_loop_shown [OF loop] obtain k where
      k: "shown env ConfigController (h @ [ListNodes l]) h1 (List.map AddNode (List.map nodeName (take k ns)))"
        "RmdNodeList nd1 = fold spec_op (List.map AddNode (List.map nodeName (take k ns))) (RmdNodeList nd)" by blast
    have status: "shown env ConfigController h1 h' []"
      using end1(2) by (auto intro!: shown_quiet simp: unrelated_def)
    from shown_trans [OF shown_trans [OF shown_quiet [OF unrelated] k(1)] status]
    have "shown env ConfigController h h' (List.map AddNode (List.map nodeName (take k ns)))" by simp
    moreover have "prefix (h @ [ListNodes l]) h'"
      using shown_prefix [OF k(1)] shown_prefix [OF status] by (rule prefix_order.trans)
    with ns(1) have "listed_by env h' n" if "n \<in> nodeName ` set ns" for n
      using that unfolding listed_by_def by blast
    ultimately show ?thesis using k(2) end1(1)
      by (intro exI [of _ "List.map AddNode (List.map nodeName (take k ns))"]) (auto dest!: in_set_takeD)
  qed
qed

lemma ReconcileConfig_shown:
  assumes "ReconcileConfig env nd req h = Some (r, nd', h')"
  shows "\<exists>ops. shown env ConfigController h h' ops \<and> RmdNodeList nd' = fold spec_op ops (RmdNodeList nd) \<and>
    (\<forall>n. AddNode n \<in> set ops \<longrightarrow> listed_by env h' n)"
proof -
  let ?c = "[GetConfigCR (reqNamespace req) (reqName req)]"
  have get: "extends (unrelated ConfigController) h (h @ ?c)" by (simp add: unrelated_def)
  have early: ?thesis if "nd' = nd" "extends (unrelated ConfigController) h h'"
    using that shown_quiet by (intro exI [of _ "[]"]) simp
  show ?thesis
  proof (cases "get_config env h (reqNamespace req) (reqName req)")
    case (Inl e)
    with assms get show ?thesis by (intro early) (auto simp: ReconcileConfig_def Let_def)
  next
    case (Inr cfg)
    with assms obtain e1 h1 where ds: "createDaemonSetIfNotPresent env cfg rmdDaemonSetPath (h @ ?c) = Some (e1, h1)"
      by (auto simp: ReconcileConfig_def Let_def split: Option.bind_splits)
    note q1 = extends_trans [OF get createDaemonSetIfNotPresent_quiet [OF ds]]
    show ?thesis
    proof (cases e1)
      case (Some e)
      with assms Inr ds q1 show ?thesis by (intro early) (auto simp: ReconcileConfig_def Let_def)
    next
      case None
      with assms Inr ds obtain e2 h2 where ag: "sync_node_agent env cfg h1 = Some (e2, h2)"
        by (auto simp: ReconcileConfig_def Let_def split: Option.bind_splits)
      note q2 = extends_trans [OF q1 sync_node_agent_quiet [OF ag]]
      show ?thesis
      proof (cases e2)
        case (Some e)
        with assms Inr ds None ag q2 show ?thesis by (intro early) (auto simp: ReconcileConfig_def Let_def)
      next
        case e2: None
        with assms Inr ds None ag have "label_nodes env cfg nd h2 = (r, nd', h')"
          by (simp add: ReconcileConfig_def Let_def)
        from label_nodes_shown [OF this] shown_trans [OF shown_quiet [OF q2]] show ?thesis by fastforce
      qed
    qed
  qed
qed

lemma state_pod_quiet: "state_pod env n h = (r, h') \<Longrightarrow> extends (unrelated k) h h'"
  by (auto simp: state_pod_def Let_def extends_def unrelated_def split: sum.splits)

lemma update_node_state_quiet: "update_node_state env rc ns p h = Some (r, h') \<Longrightarrow> extends (unrelated k) h h'"
  by (auto simp: update_node_state_def GetWorkloads_def Let_def extends_def unrelated_def
      split: option.splits sum.splits Option.bind_splits)

lemma ReconcileNodeState_shown:
  assumes "ReconcileNodeState env rc nd req h = Some (r, nd', h')" "distinct (RmdNodeList nd)"
  shows "\<exists>ops. shown env NodeStateController h h' ops \<and> RmdNodeList nd' = fold spec_op ops (RmdNodeList nd) \<and>
    (\<forall>n. AddNode n \<notin> set ops)"
proof -
  let ?c = "[GetNodeStateCR (reqNamespace req) (reqName req)]"
  show ?thesis
  proof (cases "get_node_state env h (reqNamespace req) (reqName req)")
    case (Inl e)
    show ?thesis
    proof (cases "IsNotFound e")
      case True
      let ?ops = "[DelNode (ReplaceAll (reqName req) node_state_prefix '''')]"
      have "shown env NodeStateController h (h @ ?c) ?ops" using Inl True by (simp add: shown_append)
      with assms Inl True show ?thesis
        by (intro exI [of _ ?ops]) (auto simp: ReconcileNodeState_def Let_def DeleteRmdNodeData_distinct)
    next
      case False
      have "shown env NodeStateController h (h @ ?c) []" using Inl False by (simp add: shown_append)
      with assms(1) Inl False show ?thesis by (auto simp: ReconcileNodeState_def Let_def)
    qed
  next
    case (Inr ns)
    have first: "shown env NodeStateController h (h @ ?c) []" using Inr by (simp add: shown_append)
    from assms(1) Inr have "nd' = nd" and "extends (unrelated NodeStateController) (h @ ?c) h'"
      by (auto simp: ReconcileNodeState_def Let_def split: prod.splits sum.splits Option.bind_splits
          dest!: state_pod_quiet [of _ _ _ _ _ NodeStateController] update_node_state_quiet [of _ _ _ _ _ _ _ NodeStateController]
          intro: extends_trans)
    from shown_trans [OF first shown_quiet [OF this(2)]] this(1) show ?thesis
      by (intro exI [of _ "[]"]) simp
  qed
qed

section \<open>The registry\<close>

lemma distinct_spec_ops: "distinct xs \<Longrightarrow> distinct (fold spec_op ops xs)"
proof (induction ops arbitrary: xs)
  case (Cons op ops)
  then show ?case by (cases op) auto
qed simp

lemma fold_spec_op_names: "set (fold spec_op ops xs) \<subseteq> set xs \<union> {n. AddNode n \<in> set ops}"
proof (induction ops arbitrary: xs)
  case Nil
  then show ?case by simp
next
  case (Cons op ops)
  have "set (spec_op op xs) \<subseteq> set xs \<union> {n. op = AddNode n}"
    by (cases op) (auto dest: set_remove1_subset [THEN subsetD])
  with Cons.IH [of "spec_op op xs"] show ?case by auto
qed

text \<open>The registry a log calls for.\<close>

definition follows_log :: "'c env \<Rightarrow> log \<Rightarrow> operator_state \<Rightarrow> bool" where
  "follows_log env log s \<longleftrightarrow> List.map snd log = opTrace s \<and>
     RmdNodeList (opNodes s) = fold spec_op (log_ops env [] log) [] \<and>
     (\<forall>n. AddNode n \<in> set (log_ops env [] log) \<longrightarrow> listed_by env (opTrace s) n)"

lemma follows_log_distinct: "follows_log env log s \<Longrightarrow> distinct (RmdNodeList (opNodes s))"
  by (simp add: follows_log_def distinct_spec_ops)

lemma follows_log_step:
  assumes "follows_log env log \<lparr>opNodes = nd, opTrace = h\<rparr>" "shown env k h (h @ cs) ops"
    and "RmdNodeList nd' = fold spec_op ops (RmdNodeList nd)"
    and "\<And>n. AddNode n \<in> set ops \<Longrightarrow> listed_by env (h @ cs) n"
  shows "follows_log env (log @ List.map (Pair k) cs) \<lparr>opNodes = nd', opTrace = h @ cs\<rparr>"
proof -
  have "log_ops env [] (log @ List.map (Pair k) cs) = log_ops env [] log @ ops"
    using assms(1,2) by (simp add: log_ops_append follows_log_def shown_append)
  with assms(1,3,4) listed_by_mono [of h "h @ cs" env] show ?thesis
    by (auto simp: follows_log_def)
qed

lemma operator_run_follows: "operator_run env rc log s \<Longrightarrow> follows_log env log s"
proof (induction rule: operator_run.induct)
  case start
  show ?case by (simp add: follows_log_def operator_start_def NewRmdNodeData_def)
next
  case (config log nd h req r nd' cs)
  from ReconcileConfig_shown [OF config.hyps(2)] obtain ops where
    "shown env ConfigController h (h @ cs) ops" "RmdNodeList nd' = fold spec_op ops (RmdNodeList nd)"
    "\<forall>n. AddNode n \<in> set ops \<longrightarrow> listed_by env (h @ cs) n" by blast
  with follows_log_step [OF config.IH] show ?case by blast
next
  case (node_state log nd h req r nd' cs)
  from follows_log_distinct [OF node_state.IH] have "distinct (RmdNodeList nd)" by simp
  from ReconcileNodeState_shown [OF node_state.hyps(2) this] obtain ops where
    "shown env NodeStateController h (h @ cs) ops" "RmdNodeList nd' = fold spec_op ops (RmdNodeList nd)"
    "\<forall>n. AddNode n \<notin> set ops" by blast
  with follows_log_step [OF node_state.IH] show ?case by blast
next
  case (workload log nd h order req r cs)
  from follows_log_step [OF workload.IH, of WorkloadController cs "[]"] show ?case
    by (simp add: shown_append)
qed

text \<open>Every reachable state has a run, and a run ends in a reachable state.\<close>

lemma operator_step_run:
  assumes "operator_step env rc s s'" "operator_run env rc log s"
  shows "\<exists>log'. operator_run env rc log' s'"
  using assms(1)
proof (cases rule: operator_step.cases)
  case (config nd req h r nd' h')
  from ReconcileConfig_shown [OF config(3)] obtain cs where "h' = h @ cs" by (auto simp: shown_def)
  with operator_run.config assms(2) config show ?thesis by blast
next
  case (node_state nd req h r nd' h')
  have "distinct (RmdNodeList nd)"
    using follows_log_distinct [OF operator_run_follows [OF assms(2)]] node_state(1) by simp
  from ReconcileNodeState_shown [OF node_state(3) this] obtain cs where "h' = h @ cs" by (auto simp: shown_def)
  with operator_run.node_state assms(2) node_state show ?thesis by blast
next
  case (workload order nd req h r h')
  from ReconcileWorkload_grows [OF workload(3)] obtain cs where "h' = h @ cs" by (auto simp: prefix_def)
  with operator_run.workload assms(2) workload show ?thesis by blast
qed

lemma operator_reachable_run: "operator_reachable env rc s \<Longrightarrow> \<exists>log. operator_run env rc log s"
proof (induction rule: operator_reachable.induct)
  case start
  show ?case using operator_run.start by blast
next
  case (step s s')
  then show ?case using operator_step_run by blast
qed

lemma operator_run_reachable: "operator_run env rc log s \<Longrightarrow> operator_reachable env rc s"
proof (induction rule: operator_run.induct)
  case (config log nd h req r nd' cs)
  from operator_reachable.step [OF config.IH operator_step.config [OF config.hyps(2)]] show ?case .
next
  case (node_state log nd h req r nd' cs)
  from operator_reachable.step [OF node_state.IH operator_step.node_state [OF node_state.hyps(2)]] show ?case .
next
  case (workload log nd h order req r cs)
  from operator_reachable.step [OF workload.IH operator_step.workload [OF workload.hyps(2)]] show ?case .
qed (rule operator_reachable.start)

lemma reachable_distinct: "operator_reachable env rc s \<Longrightarrow> distinct (RmdNodeList (opNodes s))"
  by (metis operator_reachable_run operator_run_follows follows_log_distinct)

text \<open>
  (C1) Whatever the controllers do, in whatever order, the registry they share is determined by
  the log of their calls and the answers to them: a reachable state has a log, and for any
  log of it the registry is what the operations shown in the log leave of the empty list, in the
  order of the log: an addition at the end of the list, unless the node is there, for each node
  whose node state the reconciler of the configuration did not find missing, or created, and a
  removal of the named node for each node state that the other one found missing. The
  registry has no duplicate and holds only nodes that the API server listed before.
\<close>

theorem operator_refines_registry:
  assumes "operator_reachable env rc s"
  shows "(\<exists>log. operator_run env rc log s) \<and>
    (\<forall>log. operator_run env rc log s \<longrightarrow>
       List.map snd log = opTrace s \<and> RmdNodeList (opNodes s) = fold spec_op (log_ops env [] log) []) \<and>
    distinct (RmdNodeList (opNodes s)) \<and>
    (\<forall>n \<in> set (RmdNodeList (opNodes s)). listed_by env (opTrace s) n)"
proof (intro conjI allI impI ballI)
  show run: "\<exists>log. operator_run env rc log s" by (rule operator_reachable_run [OF assms])
  show "distinct (RmdNodeList (opNodes s))" by (rule reachable_distinct [OF assms])
  fix log assume "operator_run env rc log s"
  from operator_run_follows [OF this] show "List.map snd log = opTrace s"
    "RmdNodeList (opNodes s) = fold spec_op (log_ops env [] log) []" by (simp_all add: follows_log_def)
next
  fix n assume n: "n \<in> set (RmdNodeList (opNodes s))"
  from operator_reachable_run [OF assms] obtain log where "follows_log env log s"
    using operator_run_follows by blast
  with n fold_spec_op_names [of "log_ops env [] log" "[]"] show "listed_by env (opTrace s) n"
    by (auto simp: follows_log_def)
qed

section \<open>Panics\<close>

text \<open>
  (C2) In no reachable state does the registry make a controller panic. The reconcile of a node
  state ends the process only if an RMD answers it with a list of workloads that holds a nil
  entry; that of the configuration only on a manifest file that is no daemon set; that of a
  workload only on such a list, or when the object read asks for all cores and its list of
  reserved cores does not parse.
\<close>

theorem operator_panics_only_on_input:
  assumes laws: "cpuset_laws env cpus" and status: "status_subresource env"
    and reach: "operator_reachable env rc s"
  shows "(ReconcileNodeState env rc (opNodes s) req (opTrace s) = None \<longrightarrow> nil_listed env (opTrace s)) \<and>
    (ReconcileConfig env (opNodes s) req (opTrace s) = None \<longrightarrow>
       (\<exists>h path. path \<in> {rmdDaemonSetPath, nodeAgentDaemonSetPath} \<and> read_manifest env h path = Inr OtherKind)) \<and>
    (ReconcileWorkload env rc order (RmdNodeList (opNodes s)) req (opTrace s) = None \<longrightarrow>
       nil_listed env (opTrace s) \<or>
       (\<exists>wl. get_workload env (opTrace s) (reqNamespace req) (reqName req) = Inr wl \<and>
          AllCores (wlSpec wl) \<and> ReservedCoreIds (wlSpec wl) \<noteq> [] \<and>
          isl (cpu_parse env (Join (ReservedCoreIds (wlSpec wl)) '',''))))"
proof (intro conjI impI)
  assume "ReconcileNodeState env rc (opNodes s) req (opTrace s) = None"
  then show "nil_listed env (opTrace s)"
    by (rule ReconcileNodeState_None [OF reachable_distinct [OF reach]])
next
  assume "ReconcileConfig env (opNodes s) req (opTrace s) = None"
  then show "\<exists>h path. path \<in> {rmdDaemonSetPath, nodeAgentDaemonSetPath} \<and> read_manifest env h path = Inr OtherKind"
    by (rule ReconcileConfig_None)
next
  assume "ReconcileWorkload env rc order (RmdNodeList (opNodes s)) req (opTrace s) = None"
  from ReconcileWorkload_None [OF status this] formatWorkload_None_iff [OF laws] show
    "nil_listed env (opTrace s) \<or> (\<exists>wl. get_workload env (opTrace s) (reqNamespace req) (reqName req) = Inr wl \<and>
          AllCores (wlSpec wl) \<and> ReservedCoreIds (wlSpec wl) \<noteq> [] \<and>
          isl (cpu_parse env (Join (ReservedCoreIds (wlSpec wl)) '','')))" by metis
qed

text \<open>A cluster whose RMD answers with a nil entry: the reconcile of a workload panics.\<close>

definition nil_cluster :: "int64 list env" where
  "nil_cluster = demo_cluster\<lparr>decode_workloads := \<lambda>s. Inr [None],
     get_workload := \<lambda>h ns n. Inr (cr_workload [''n1''])\<rparr>"

theorem operator_panics_only_on_input_witness:
  "let req = \<lparr>reqNamespace = ''default'', reqName = ''wl''\<rparr> in
   ReconcileWorkload nil_cluster demo_rc rev (RmdNodeList (opNodes operator_start)) req (opTrace operator_start) = None \<and>
   nil_listed nil_cluster (opTrace operator_start)"
proof -
  let ?req = "\<lparr>reqNamespace = ''default'', reqName = ''wl''\<rparr>"
  have laws: "cpuset_laws nil_cluster (\<lambda>a. sint ` set a)"
    by (rule list_cpuset_laws) (simp_all add: nil_cluster_def demo_cluster_def)
  have status: "status_subresource nil_cluster"
    by (simp add: status_subresource_def nil_cluster_def demo_cluster_def ref_env_def)
  have none: "ReconcileWorkload nil_cluster demo_rc rev (RmdNodeList (opNodes operator_start)) ?req
      (opTrace operator_start) = None" by code_simp
  have "get_workload nil_cluster h ns n = Inr wl \<Longrightarrow> \<not> AllCores (wlSpec wl)" for h ns n wl
    by (auto simp: nil_cluster_def cr_workload_def zero_RmdWorkload_def)
  with none operator_panics_only_on_input [OF laws status operator_reachable.start, of demo_rc ?req rev]
  show ?thesis unfolding Let_def by blast
qed

section \<open>From the labels to the deletions\<close>

lemma node_loop_prefix: "node_loop env cfg nodes nd h = (r, nd', h') \<Longrightarrow> prefix h h'"
  by (auto dest!: node_loop_shown shown_prefix)

text \<open>A reconcile of the configuration that is to run again after 5 seconds registered the nodes it listed.\<close>

lemma ReconcileConfig_registers:
  assumes run: "ReconcileConfig env nd req h = Some ((requeue_after 5, None), nd', h')"
    and dist: "distinct (RmdNodeList nd)"
    and cfg: "get_config env h (reqNamespace req) (reqName req) = Inr cfg"
  defines "l \<equiv> (case RmdNodeSelector (cfgSpec cfg) of None \<Rightarrow> [] | Some m \<Rightarrow> m)"
  shows "\<exists>h2 ns. prefix (h2 @ [ListNodes l]) h' \<and> list_nodes env h2 l = Inr ns \<and>
    nodeName ` set ns \<subseteq> set (RmdNodeList nd')"
proof -
  have "requeue_after 5 \<noteq> no_requeue" by (simp add: requeue_after_def no_requeue_def)
  with run cfg obtain h2 where lab: "label_nodes env cfg nd h2 = ((requeue_after 5, None), nd', h')"
    by (auto simp: ReconcileConfig_def Let_def split: Option.bind_splits option.splits)
  then obtain ns where ns: "list_nodes env h2 l = Inr ns"
    using \<open>requeue_after 5 \<noteq> no_requeue\<close>
    by (cases "list_nodes env h2 l") (auto simp: label_nodes_def l_def)
  show ?thesis
  proof (cases "ns = []")
    case True
    with lab ns have "h' = h2 @ [ListNodes l]" by (simp add: label_nodes_def Let_def l_def)
    with True ns show ?thesis by (intro exI [of _ h2] exI [of _ ns]) simp
  next
    case False
    obtain e nd1 h3 where loop: "node_loop env cfg ns nd (h2 @ [ListNodes l]) = (e, nd1, h3)"
      by (metis prod.exhaust)
    with lab ns False have "e = None" "nd' = nd1" "prefix h3 h'"
      by (auto simp: label_nodes_def Let_def l_def split: option.splits)
    moreover from node_loop_registry [OF loop] \<open>e = None\<close>
    have "nd1 = fold UpdateRmdNodeData (List.map nodeName ns) nd" by auto
    ultimately show ?thesis
      using reg.names_add_all [OF dist, of "List.map nodeName ns"] node_loop_prefix [OF loop] ns
      by (intro exI [of _ h2] exI [of _ ns]) (auto intro: prefix_order.trans)
  qed
qed

text \<open>
  (C3) The controllers together keep the promise that a deleted workload leaves the labelled
  nodes: after a reconcile of the configuration that went through, a reconcile of a workload
  whose object is gone, if it returns no error, sends to the RMD of every node the cluster
  listed for the configured labels that runs the workload a DELETE of its id there, as long as
  nobody else changes the cluster.
\<close>

theorem deleted_workload_leaves_labelled_nodes:
  assumes undist: "undisturbed env" and order: "\<And>m. mset (order m) = mset m" and name: "reqName wreq \<noteq> ''''"
    and reach: "operator_reachable env rc s"
    and cfg: "get_config env (opTrace s) (reqNamespace creq) (reqName creq) = Inr cfg"
    and config: "ReconcileConfig env (opNodes s) creq (opTrace s) = Some ((requeue_after 5, None), nd, h1)"
    and gone: "get_workload env h1 (reqNamespace wreq) (reqName wreq) = Inl e" "IsNotFound e"
    and workload: "ReconcileWorkload env rc order (RmdNodeList nd) wreq h1 = Some ((res, None), h')"
  defines "l \<equiv> (case RmdNodeSelector (cfgSpec cfg) of None \<Rightarrow> [] | Some m \<Rightarrow> m)"
  shows "\<exists>h2 ns. prefix (h2 @ [ListNodes l]) h1 \<and> list_nodes env h2 l = Inr ns \<and>
    (\<forall>n \<in> nodeName ` set ns. running_at env rc (reqName wreq) h1 n \<longrightarrow>
       (\<exists>a cs. fst (getPodAddress env rc n h1) = Inr a \<and> writes h' = writes h1 @ cs \<and>
          delete_call a (listed_id env (reqName wreq) h1 a) \<in> set cs))"
proof -
  from ReconcileConfig_registers [OF config reachable_distinct [OF reach] cfg] obtain h2 ns where
    ns: "prefix (h2 @ [ListNodes l]) h1" "list_nodes env h2 l = Inr ns" "nodeName ` set ns \<subseteq> set (RmdNodeList nd)"
    unfolding l_def by auto
  let ?h = "h1 @ [GetWorkloadCR (reqNamespace wreq) (reqName wreq)]"
  from workload gone have del: "reconcile_deleted env rc order (RmdNodeList nd) wreq ?h = Some ((res, None), h')"
    by (simp add: ReconcileWorkload_def Let_def)
  have w: "writes h1 = writes ?h" by simp
  have "\<exists>a cs. fst (getPodAddress env rc n h1) = Inr a \<and> writes h' = writes h1 @ cs \<and>
      delete_call a (listed_id env (reqName wreq) h1 a) \<in> set cs"
    if "n \<in> nodeName ` set ns" "running_at env rc (reqName wreq) h1 n" for n
  proof -
    have n: "n \<in> set (RmdNodeList nd)" using that(1) ns(3) by blast
    have "running_at env rc (reqName wreq) ?h n"
      using that(2) found_at_undisturbed [OF undist w] by (simp add: running_at_def)
    from reconcile_deleted_leaves_node [OF undist order name del n this] obtain a cs where
      a: "fst (getPodAddress env rc n ?h) = Inr a" "writes h' = writes ?h @ cs"
      "delete_call a (listed_id env (reqName wreq) ?h a) \<in> set cs" by blast
    moreover have "listed_id env (reqName wreq) ?h a = listed_id env (reqName wreq) h1 a"
      using GetWorkloads_undisturbed [OF undist w, of a] by (simp add: listed_id_def)
    moreover have "fst (getPodAddress env rc n h1) = fst (getPodAddress env rc n ?h)"
      by (rule getPodAddress_undisturbed [OF undist w])
    ultimately show ?thesis by (intro exI [of _ a] exI [of _ cs]) simp
  qed
  with ns(1,2) show ?thesis by blast
qed

text \<open>
  A run: the configuration is reconciled on a cluster with two labelled nodes, then the
  workload that runs on \<open>n2\<close> and has no object any more.
\<close>

definition labelled_cluster :: "int64 list env" where
  "labelled_cluster = demo_cluster\<lparr>
     get_config := \<lambda>h ns n. Inr demo_config,
     read_manifest := \<lambda>h p. Inr (DaemonSetManifest demo_ds),
     list_nodes := \<lambda>h l. Inr [\<lparr>nodeName = ''n1'', nodeLabels = [], nodeAddresses = []\<rparr>,
       \<lparr>nodeName = ''n2'', nodeLabels = [], nodeAddresses = []\<rparr>]\<rparr>"

definition any_request :: Request where
  "any_request = \<lparr>reqNamespace = ''default'', reqName = ''wl''\<rparr>"

lemma labelled_config:
  obtains h1 where "ReconcileConfig labelled_cluster (opNodes operator_start) any_request (opTrace operator_start) =
      Some ((requeue_after 5, None), \<lparr>RmdNodeList = [''n1'', ''n2'']\<rparr>, h1)"
    "fst (the (ReconcileWorkload labelled_cluster demo_rc rev [''n1'', ''n2''] any_request h1)) = (no_requeue, None)"
    "ReconcileWorkload labelled_cluster demo_rc rev [''n1'', ''n2''] any_request h1 \<noteq> None"
    "map_option (map_sum id (\<lambda>(a, w). UUID w)) (found_at labelled_cluster demo_rc ''wl'' h1 ''n2'') = Some (Inr ''wl'')"
proof -
  define h1 where "h1 = snd (snd (the (ReconcileConfig labelled_cluster (opNodes operator_start) any_request [])))"
  have c: "map_option (\<lambda>(r, nd, h). (r, nd)) (ReconcileConfig labelled_cluster (opNodes operator_start) any_request []) =
      Some ((requeue_after 5, None), \<lparr>RmdNodeList = [''n1'', ''n2'']\<rparr>)"
    by code_simp
  then have "ReconcileConfig labelled_cluster (opNodes operator_start) any_request (opTrace operator_start) =
      Some ((requeue_after 5, None), \<lparr>RmdNodeList = [''n1'', ''n2'']\<rparr>, h1)"
    by (auto simp: h1_def operator_start_def)
  moreover have "map_option fst (ReconcileWorkload labelled_cluster demo_rc rev [''n1'', ''n2''] any_request h1) =
      Some (no_requeue, None)"
    unfolding h1_def by code_simp
  moreover have "map_option (map_sum id (\<lambda>(a, w). UUID w)) (found_at labelled_cluster demo_rc ''wl'' h1 ''n2'') = Some (Inr ''wl'')"
    unfolding h1_def by code_simp
  ultimately show thesis using that by auto
qed

theorem operator_refines_registry_witness:
  "\<exists>s. opNodes s = \<lparr>RmdNodeList = [''n1'', ''n2'']\<rparr> \<and> distinct (RmdNodeList (opNodes s)) \<and>
     operator_reachable labelled_cluster demo_rc s"
proof -
  obtain h1 where c: "ReconcileConfig labelled_cluster (opNodes operator_start) any_request (opTrace operator_start) =
      Some ((requeue_after 5, None), \<lparr>RmdNodeList = [''n1'', ''n2'']\<rparr>, h1)"
    by (rule labelled_config)
  let ?s = "\<lparr>opNodes = \<lparr>RmdNodeList = [''n1'', ''n2'']\<rparr>, opTrace = h1\<rparr>"
  from operator_step.config [OF c] have "operator_step labelled_cluster demo_rc operator_start ?s"
    by (simp add: operator_start_def)
  then have r: "operator_reachable labelled_cluster demo_rc ?s"
    by (rule operator_reachable.step [OF operator_reachable.start])
  from operator_refines_registry [OF r] have "distinct (RmdNodeList (opNodes ?s))" by (elim conjE)
  with r show ?thesis by (intro exI [of _ ?s]) simp
qed

theorem deleted_workload_leaves_labelled_nodes_witness:
  "\<exists>h1 h' a. fst (getPodAddress labelled_cluster demo_rc ''n2'' h1) = Inr a \<and>
     delete_call a (listed_id labelled_cluster ''wl'' h1 a) \<in> set (writes h')"
proof -
  obtain h1 where c: "ReconcileConfig labelled_cluster (opNodes operator_start) any_request (opTrace operator_start) =
      Some ((requeue_after 5, None), \<lparr>RmdNodeList = [''n1'', ''n2'']\<rparr>, h1)"
    and w: "fst (the (ReconcileWorkload labelled_cluster demo_rc rev [''n1'', ''n2''] any_request h1)) = (no_requeue, None)"
      "ReconcileWorkload labelled_cluster demo_rc rev [''n1'', ''n2''] any_request h1 \<noteq> None"
    and l: "map_option (map_sum id (\<lambda>(a, w). UUID w)) (found_at labelled_cluster demo_rc ''wl'' h1 ''n2'') = Some (Inr ''wl'')"
    by (rule labelled_config)
  from w obtain h' where w': "ReconcileWorkload labelled_cluster demo_rc rev
      (RmdNodeList \<lparr>RmdNodeList = [''n1'', ''n2'']\<rparr>) any_request h1 = Some ((no_requeue, None), h')"
    by (auto simp: prod_eq_iff)
  have u: "undisturbed labelled_cluster"
    by (simp add: undisturbed_def labelled_cluster_def demo_cluster_def ref_env_def)
  have name: "reqName any_request \<noteq> ''''" by (simp add: any_request_def)
  have cfg: "get_config labelled_cluster (opTrace operator_start) (reqNamespace any_request) (reqName any_request) = Inr demo_config"
    by (simp add: labelled_cluster_def)
  have gone: "get_workload labelled_cluster h1 (reqNamespace any_request) (reqName any_request) = Inl (NotFound ''not found'')"
    by (simp add: labelled_cluster_def demo_cluster_def ref_env_def no_object_def)
  have e: "reqName any_request = ''wl''" "RmdNodeSelector (cfgSpec demo_config) = None"
    by (simp_all add: any_request_def demo_config_def)
  from deleted_workload_leaves_labelled_nodes
    [OF u mset_rev name operator_reachable.start cfg c gone _ w', unfolded e option.case IsNotFound.simps]
  obtain h2 ns where ns: "list_nodes labelled_cluster h2 [] = Inr ns" and del: "\<forall>n \<in> nodeName ` set ns.
      running_at labelled_cluster demo_rc ''wl'' h1 n \<longrightarrow>
      (\<exists>a cs. fst (getPodAddress labelled_cluster demo_rc n h1) = Inr a \<and> writes h' = writes h1 @ cs \<and>
        delete_call a (listed_id labelled_cluster ''wl'' h1 a) \<in> set cs)"
    by blast
  from ns have "''n2'' \<in> nodeName ` set ns" by (auto simp: labelled_cluster_def)
  moreover have "running_at labelled_cluster demo_rc ''wl'' h1 ''n2''"
    using l by (cases "the (found_at labelled_cluster demo_rc ''wl'' h1 ''n2'')") (auto simp: running_at_def)
  ultimately obtain a cs where "fst (getPodAddress labelled_cluster demo_rc ''n2'' h1) = Inr a"
    "writes h' = writes h1 @ cs" "delete_call a (listed_id labelled_cluster ''wl'' h1 a) \<in> set cs"
    using del by blast
  then show ?thesis by (intro exI [of _ h1] exI [of _ h'] exI [of _ a]) simp
qed

end
