(* ===== verification/Pod_Resources.thy ===== *)
theory Pod_Resources
  imports Cluster_Env
begin

text \<open>
  \<open>pkg/podresourcesclient\<close>: the CPUs of a container, as the kubelet's pod resources endpoint
  lists them.
\<close>

definition listPodResources :: "'c env \<Rightarrow> trace \<Rightarrow> (gerr + pod_resources) \<times> trace" where
  "listPodResources env h = (list_pod_resources env h, h @ [ListPodResources])"

text \<open>\<open>cpuIDsToStringSlice\<close>: the ids in ascending order, in decimal.\<close>

definition cpuIDsToStringSlice :: "int64 list \<Rightarrow> string list" where
  "cpuIDsToStringSlice cpuIds = List.map Itoa (sort_key sint cpuIds)"

fun container_cpus_loop :: "(string \<times> int64 list) list \<Rightarrow> string \<Rightarrow> string list option" where
  "container_cpus_loop [] containerName = None"
| "container_cpus_loop ((name, cpuIds) # containers) containerName =
     (if name = containerName then Some (cpuIDsToStringSlice cpuIds)
      else container_cpus_loop containers containerName)"

fun pod_cpus_loop :: "pod_resources \<Rightarrow> string \<Rightarrow> string \<Rightarrow> string list option" where
  "pod_cpus_loop [] name containerName = None"
| "pod_cpus_loop ((resourceName, containers) # podResources) name containerName =
     (if resourceName = name then
        (case container_cpus_loop containers containerName of
           Some cpus \<Rightarrow> Some cpus
         | None \<Rightarrow> pod_cpus_loop podResources name containerName)
      else pod_cpus_loop podResources name containerName)"

definition GetContainerCPUs :: "'c env \<Rightarrow> string \<Rightarrow> string \<Rightarrow> trace \<Rightarrow> (gerr + string list) \<times> trace" where
  "GetContainerCPUs env name containerName h =
     (case listPodResources env h of
        (Inl err, h') \<Rightarrow> (Inl err, h')
      | (Inr podResources, h') \<Rightarrow>
          (case pod_cpus_loop podResources name containerName of
             Some cpus \<Rightarrow> (Inr cpus, h')
           | None \<Rightarrow> (Inl (ServiceUnavailable (''cpus for Pod:'' @ name @ '' Container:'' @ containerName
                             @ '' not found'')), h')))"

lemma GetContainerCPUs_read_only [trace_ext]:
  "GetContainerCPUs env p c h = (r, h') \<Longrightarrow> read_only h h'"
  by (auto simp: GetContainerCPUs_def listPodResources_def split: sum.splits option.splits)

text \<open>The entry that is found: the first container of that name in a pod of that name.\<close>

lemma container_cpus_loop_find:
  "container_cpus_loop cs c = map_option cpuIDsToStringSlice (map_of cs c)"
  by (induction cs) auto

lemma pod_cpus_loop_Some:
  "pod_cpus_loop ps p c = Some cpus \<Longrightarrow>
     \<exists>cs ids. (p, cs) \<in> set ps \<and> map_of cs c = Some ids \<and> cpus = cpuIDsToStringSlice ids"
proof (induction ps)
  case Nil
  then show ?case by simp
next
  case (Cons x ps)
  obtain n cs where x: "x = (n, cs)" by fastforce
  show ?case
  proof (cases "n = p \<and> map_of cs c \<noteq> None")
    case True
    with Cons.prems x show ?thesis by (auto simp: container_cpus_loop_find)
  next
    case False
    with Cons.prems x have "pod_cpus_loop ps p c = Some cpus"
      by (auto simp: container_cpus_loop_find split: if_splits)
    from Cons.IH [OF this] show ?thesis by auto
  qed
qed

lemma pod_cpus_loop_None:
  "pod_cpus_loop ps p c = None \<longleftrightarrow> (\<forall>cs. (p, cs) \<in> set ps \<longrightarrow> map_of cs c = None)"
  by (induction ps p c rule: pod_cpus_loop.induct)
    (auto simp: container_cpus_loop_find split: option.splits)

end
