(* ===== verification/Node_Agent.thy ===== *)
theory Node_Agent
  imports Pod_Resources
begin

text \<open>
  \<open>pkg/nodeagent/pod_controller.go\<close>: the node agent's reconciler of pods, which creates an
  \<open>RmdWorkload\<close> for every container that asks for cache ways. \<open>None\<close> is the dereference of a
  missing node agent pod.
\<close>

record containerInformation =
  coreIDs :: "string list"
  maxCache :: int64

definition agentNamespace :: string where
  "agentNamespace = ''default''"

definition rmdWorkloadNameConst :: string where
  "rmdWorkloadNameConst = ''-rmd-workload-''"

definition policyConst :: string where
  "policyConst = ''policy''"

definition pstateMonitoringConst :: string where
  "pstateMonitoringConst = ''pstate_monitoring''"

definition pstateRatioConst :: string where
  "pstateRatioConst = ''pstate_ratio''"

definition mbaPercentageConst :: string where
  "mbaPercentageConst = ''mba_percentage''"

definition mbaMbpsConst :: string where
  "mbaMbpsConst = ''mba_mbps''"

definition l3Cache :: string where
  "l3Cache = ''intel.com/l3_cache_ways''"

section \<open>What a container asks for\<close>

fun limits_loop :: "Container \<Rightarrow> Quantity smap \<Rightarrow> Container list" where
  "limits_loop container [] = []"
| "limits_loop container ((resourceName, limit) # limits) =
     (if resourceName = l3Cache then container # limits_loop container limits
      else limits_loop container limits)"

definition getContainersRequestingCache :: "Pod \<Rightarrow> Container list" where
  "getContainersRequestingCache pod =
     concat (List.map (\<lambda>container. limits_loop container (cLimits container))
       (podInitContainers pod @ podContainers pod))"

fun max_cache_loop :: "Quantity smap \<Rightarrow> gerr + int64" where
  "max_cache_loop [] = Inr 0"
| "max_cache_loop ((resourceName, limit) # limits) =
     (if resourceName = l3Cache then Atoi (qString limit) else max_cache_loop limits)"

definition getMaxCache :: "Container \<Rightarrow> gerr + int64" where
  "getMaxCache container = max_cache_loop (cLimits container)"

definition zero_Quantity :: Quantity where
  "zero_Quantity = \<lparr>qString = ''0'', qValue = 0, qMilliValue = 0\<rparr>"

definition exclusiveCPUs :: "'c env \<Rightarrow> Pod \<Rightarrow> Container \<Rightarrow> bool" where
  "exclusiveCPUs env pod container =
     (if pod_qos env pod \<noteq> ''Guaranteed'' then False
      else
        let cpuQuantity = (case map_of (cRequests container) ''cpu'' of None \<Rightarrow> zero_Quantity | Some q \<Rightarrow> q)
        in qValue cpuQuantity * 1000 = qMilliValue cpuQuantity)"

definition no_information :: containerInformation where
  "no_information = \<lparr>coreIDs = [], maxCache = 0\<rparr>"

definition getContainerInfo ::
  "'c env \<Rightarrow> Pod \<Rightarrow> Container \<Rightarrow> trace \<Rightarrow> (gerr + containerInformation) \<times> trace"
where
  "getContainerInfo env pod container h =
     (if \<not> exclusiveCPUs env pod container then (Inr no_information, h)
      else if podUID pod = '''' then (Inl (ServiceUnavailable ''pod UID not found''), h)
      else
        case GetContainerCPUs env (podName pod) (cName container) h of
          (Inl err, h') \<Rightarrow> (Inl err, h')
        | (Inr ids, h') \<Rightarrow>
            if length ids = 0
            then (Inl (ServiceUnavailable ''coreIDs list for container is empty''), h')
            else
              case getMaxCache container of
                Inl err \<Rightarrow> (Inl err, h')
              | Inr m \<Rightarrow> (Inr \<lparr>coreIDs = ids, maxCache = m\<rparr>, h'))"

section \<open>Annotations\<close>

definition set_mba :: "(Mba \<Rightarrow> Mba) \<Rightarrow> RmdWorkloadSpec \<Rightarrow> RmdWorkloadSpec" where
  "set_mba f spec = spec\<lparr>specRdt := (specRdt spec)\<lparr>rdtMba := f (rdtMba (specRdt spec))\<rparr>\<rparr>"

definition set_pstate :: "(Pstate \<Rightarrow> Pstate) \<Rightarrow> RmdWorkloadSpec \<Rightarrow> RmdWorkloadSpec" where
  "set_pstate f spec = spec\<lparr>specPlugins := \<lparr>pstate = f (pstate (specPlugins spec))\<rparr>\<rparr>"

text \<open>One annotation: the container's name is a prefix of its key, the field a suffix.\<close>

definition annotation_step :: "string \<Rightarrow> string \<times> string \<Rightarrow> RmdWorkloadSpec \<Rightarrow> RmdWorkloadSpec" where
  "annotation_step containerName kv spec =
     (case kv of (field, data) \<Rightarrow>
        if \<not> HasPrefix field containerName then spec
        else if HasSuffix field policyConst then
          (if data \<noteq> '''' then spec\<lparr>Policy := data\<rparr> else spec)
        else if HasSuffix field mbaPercentageConst then
          (case Atoi data of
             Inl _ \<Rightarrow> spec
           | Inr mbaPercentage \<Rightarrow> set_mba (\<lambda>m. m\<lparr>Percentage := mbaPercentage\<rparr>) spec)
        else if HasSuffix field mbaMbpsConst then
          (case Atoi data of
             Inl _ \<Rightarrow> spec
           | Inr mbaMbps \<Rightarrow> set_mba (\<lambda>m. m\<lparr>Mbps := mbaMbps\<rparr>) spec)
        else if HasSuffix field pstateRatioConst then
          (if data \<noteq> '''' then set_pstate (\<lambda>p. p\<lparr>Ratio := data\<rparr>) spec else spec)
        else if HasSuffix field pstateMonitoringConst then
          (if data \<noteq> '''' then set_pstate (\<lambda>p. p\<lparr>Monitoring := data\<rparr>) spec else spec)
        else spec)"

text \<open>
  Go ranges over the annotations in an unspecified order: \<open>order\<close> gives it, and may differ
  from container to container.
\<close>

definition getAnnotationInfo ::
  "(string \<Rightarrow> string smap \<Rightarrow> string smap) \<Rightarrow> RmdWorkload \<Rightarrow> Pod \<Rightarrow> string \<Rightarrow> RmdWorkload"
where
  "getAnnotationInfo order rmdWorkload pod containerName =
     rmdWorkload\<lparr>wlSpec :=
       fold (annotation_step containerName) (order containerName (podAnnotations pod)) (wlSpec rmdWorkload)\<rparr>"

section \<open>The workloads of a pod\<close>

definition new_workload :: "Pod \<Rightarrow> Container \<Rightarrow> containerInformation \<Rightarrow> RmdWorkload" where
  "new_workload pod container containerInfo =
     zero_RmdWorkload\<lparr>
       wlName := podName pod @ rmdWorkloadNameConst @ cName container,
       wlNamespace := (if podNamespace pod = '''' then agentNamespace else podNamespace pod),
       wlSpec := (wlSpec zero_RmdWorkload)\<lparr>
         specRdt := zero_Rdt\<lparr>rdtCache := \<lparr>cacheMax = maxCache containerInfo, cacheMin = maxCache containerInfo\<rparr>\<rparr>,
         CoreIds := coreIDs containerInfo,
         Nodes := [podNodeName pod],
         NodeSelector := []\<rparr>\<rparr>"

fun build_loop ::
  "'c env \<Rightarrow> (string \<Rightarrow> string smap \<Rightarrow> string smap) \<Rightarrow> Pod \<Rightarrow> Container list \<Rightarrow> trace \<Rightarrow>
    (gerr + RmdWorkload list) \<times> trace"
where
  "build_loop env order pod [] h = (Inr [], h)"
| "build_loop env order pod (container # containers) h =
     (if Contains (cName container) rmdWorkloadNameConst then build_loop env order pod containers h
      else
        case getContainerInfo env pod container h of
          (Inl err, h') \<Rightarrow> (Inl err, h')
        | (Inr containerInfo, h') \<Rightarrow>
            let rmdWorkload = getAnnotationInfo order (new_workload pod container containerInfo) pod (cName container)
            in case build_loop env order pod containers h' of
                 (Inl err, h'') \<Rightarrow> (Inl err, h'')
               | (Inr rmdWorkloads, h'') \<Rightarrow> (Inr (rmdWorkload # rmdWorkloads), h''))"

definition buildRmdWorkload ::
  "'c env \<Rightarrow> (string \<Rightarrow> string smap \<Rightarrow> string smap) \<Rightarrow> Pod \<Rightarrow> trace \<Rightarrow> (gerr + RmdWorkload list) \<times> trace"
where
  "buildRmdWorkload env order pod h =
     (let containersRequestingCache = getContainersRequestingCache pod in
      if length containersRequestingCache = 0 then (Inr [], h)
      else build_loop env order pod containersRequestingCache h)"

section \<open>The node agent's own pod\<close>

text \<open>
  The pointer is that of the last namespace tried: an empty pod if none was, and what
  \<open>k8sutil.GetPod\<close> returned beside its error if the pod was found in none.
\<close>

definition empty_pod :: Pod where
  "empty_pod =
     \<lparr>podName = '''', podNamespace = '''', podUID = '''', podAnnotations = [], podNodeName = '''',
      podInitContainers = [], podContainers = [], podPhase = '''', podHostIP = '''', podIP = '''', podIPs = []\<rparr>"

fun namespace_loop ::
  "'c env \<Rightarrow> string list \<Rightarrow> Pod option \<Rightarrow> trace \<Rightarrow> (gerr + Pod option) \<times> trace"
where
  "namespace_loop env [] nodeAgentPod h = (Inr nodeAgentPod, h)"
| "namespace_loop env (namespaceName # namespaces) nodeAgentPod h =
     (if namespaceName = ''kube-system'' \<or> namespaceName = ''kube-public'' \<or> namespaceName = ''kube-node-lease''
      then namespace_loop env namespaces nodeAgentPod h
      else
        let h' = h @ [GetOwnPod namespaceName] in
        case get_own_pod env h namespaceName of
          (pod, None) \<Rightarrow> (Inr pod, h')
        | (pod, Some err) \<Rightarrow>
            if IsNotFound err then namespace_loop env namespaces pod h' else (Inl err, h'))"

definition getNodeAgentPod :: "'c env \<Rightarrow> trace \<Rightarrow> (gerr + Pod option) \<times> trace" where
  "getNodeAgentPod env h =
     (let resp = list_namespaces env h; h' = h @ [ListNamespaces] in
      case resp of
        Inl err \<Rightarrow> (Inl err, h')
      | Inr namespaceList \<Rightarrow> namespace_loop env namespaceList (Some empty_pod) h')"

section \<open>Reconcile\<close>

text \<open>
  The query stores the object it finds over the workload that was built; the update then
  sends that object.
\<close>

fun apply_workloads ::
  "'c env \<Rightarrow> Request \<Rightarrow> Pod \<Rightarrow> RmdWorkload list \<Rightarrow> trace \<Rightarrow> (Result \<times> gerr option) \<times> trace"
where
  "apply_workloads env request cachePod [] h = ((no_requeue, None), h)"
| "apply_workloads env request cachePod (rmdWorkload # rmdWorkloads) h =
     (let resp = get_workload env h (reqNamespace request) (wlName rmdWorkload);
          h1 = h @ [GetWorkloadCR (reqNamespace request) (wlName rmdWorkload)]
      in case resp of
           Inl err \<Rightarrow>
             if IsNotFound err then
               (case set_controller_reference env (podName cachePod) (wlOwner rmdWorkload) of
                  Inl e \<Rightarrow> ((no_requeue, Some e), h1)
                | Inr owner \<Rightarrow>
                    let owned = rmdWorkload\<lparr>wlOwner := owner\<rparr>;
                        h2 = h1 @ [CreateWorkloadCR owned]
                    in case create_workload env h1 owned of
                         Some e \<Rightarrow> ((no_requeue, Some e), h2)
                       | None \<Rightarrow> apply_workloads env request cachePod rmdWorkloads h2)
             else ((no_requeue, Some err), h1)
         | Inr found \<Rightarrow>
             let h2 = h1 @ [UpdateWorkloadCR found]
             in case update_workload env h1 found of
                  Some e \<Rightarrow> ((no_requeue, Some e), h2)
                | None \<Rightarrow> apply_workloads env request cachePod rmdWorkloads h2)"

definition reconcile_pod ::
  "'c env \<Rightarrow> (string \<Rightarrow> string smap \<Rightarrow> string smap) \<Rightarrow> Request \<Rightarrow> Pod \<Rightarrow> trace \<Rightarrow>
    ((Result \<times> gerr option) \<times> trace) option"
where
  "reconcile_pod env order request cachePod h =
     (if podPhase cachePod \<noteq> ''Running'' then
        Some ((no_requeue, Some (ServiceUnavailable ''pod not in running phase'')), h)
      else
        case getNodeAgentPod env h of
          (Inl err, h1) \<Rightarrow> Some ((no_requeue, Some err), h1)
        | (Inr None, h1) \<Rightarrow> None
        | (Inr (Some nodeAgentPod), h1) \<Rightarrow>
            if podHostIP cachePod \<noteq> podHostIP nodeAgentPod then Some ((no_requeue, None), h1)
            else
              Some (case buildRmdWorkload env order cachePod h1 of
                  (Inl err, h2) \<Rightarrow> ((no_requeue, Some err), h2)
                | (Inr rmdWorkloads, h2) \<Rightarrow>
                    if length rmdWorkloads = 0 then ((no_requeue, None), h2)
                    else apply_workloads env request cachePod rmdWorkloads h2))"

definition ReconcilePod ::
  "'c env \<Rightarrow> (string \<Rightarrow> string smap \<Rightarrow> string smap) \<Rightarrow> Request \<Rightarrow> trace \<Rightarrow>
    ((Result \<times> gerr option) \<times> trace) option"
where
  "ReconcilePod env order request h =
     (let resp = get_pod env h (reqNamespace request) (reqName request);
          h' = h @ [GetPodObj (reqNamespace request) (reqName request)]
      in case resp of
           Inl err \<Rightarrow> Some ((no_requeue, if IsNotFound err then None else Some err), h')
         | Inr cachePod \<Rightarrow> reconcile_pod env order request cachePod h')"

end
