(* ===== verification/Node_Agent_Props.thy ===== *)
theory Node_Agent_Props
  imports Node_Agent Reference_Env "HOL-Library.Multiset"
begin

text \<open>
  Facts about the node agent (\<open>pkg/nodeagent\<close>) and its source of CPU ids
  (\<open>pkg/podresourcesclient\<close>), and their properties: the CPUs of a container, the fields set by
  annotations, the workloads built for a pod, and what a reconcile of the pod writes.
\<close>

section \<open>The CPUs of a container\<close>

text \<open>
  (C34) The CPU ids of a container are those the kubelet lists for the first container of that
  name in some pod of that name (in whatever namespace), each id as often as it is listed,
  in ascending order, and every string reads back to its id. No entry is an error.
\<close>

theorem GetContainerCPUs_sorted:
  assumes "list_pod_resources env h = Inr ps"
  shows "case fst (GetContainerCPUs env p c h) of
      Inl e \<Rightarrow> \<not> IsNotFound e \<and> (\<forall>cs. (p, cs) \<in> set ps \<longrightarrow> c \<notin> fst ` set cs)
    | Inr cpus \<Rightarrow> \<exists>cs ids xs. (p, cs) \<in> set ps \<and> map_of cs c = Some ids \<and>
        List.map Atoi cpus = List.map Inr xs \<and> mset xs = mset ids \<and> sorted (List.map sint xs)"
proof (cases "pod_cpus_loop ps p c")
  case None
  have "map_of cs c = None \<longleftrightarrow> c \<notin> fst ` set cs" for cs :: "(string \<times> int64 list) list"
    by (simp add: map_of_eq_None_iff)
  with None [unfolded pod_cpus_loop_None] None assms show ?thesis
    by (simp add: GetContainerCPUs_def listPodResources_def)
next
  case (Some cpus)
  from pod_cpus_loop_Some [OF this] obtain cs ids where
    "(p, cs) \<in> set ps" "map_of cs c = Some ids" "cpus = cpuIDsToStringSlice ids" by blast
  moreover from this(3) have "List.map Atoi cpus = List.map Inr (sort_key sint ids)"
    by (simp add: cpuIDsToStringSlice_def)
  ultimately show ?thesis
    using Some assms
    by (simp add: GetContainerCPUs_def listPodResources_def)
      (intro exI [of _ cs] exI [of _ ids] conjI exI [of _ "sort_key sint ids"]; simp)
qed

theorem GetContainerCPUs_sorted_witness:
  "\<exists>xs. List.map Atoi [''2'', ''5'', ''11''] = List.map Inr xs \<and> mset xs = mset [11, 2, 5 :: int64]"
proof -
  let ?e = "ref_env\<lparr>list_pod_resources := \<lambda>h. Inr [(''p'', [(''c'', [11, 2, 5])])]\<rparr>"
  have l: "list_pod_resources ?e [] = Inr [(''p'', [(''c'', [11, 2, 5])])]" by simp
  have "fst (GetContainerCPUs ?e ''p'' ''c'' []) = Inr [''2'', ''5'', ''11'']" by code_simp
  with GetContainerCPUs_sorted [OF l, of "''p''" "''c''"] obtain cs ids xs where
    "(''p'', cs) \<in> set [(''p'', [(''c'', [11, 2, 5 :: int64])])]" "map_of cs ''c'' = Some ids"
    "List.map Atoi [''2'', ''5'', ''11''] = List.map Inr xs" "mset xs = mset ids"
    by (simp only: sum.case) blast
  then show ?thesis by (intro exI [of _ xs]) simp
qed

section \<open>Annotations\<close>

lemma two_suffixes: "HasSuffix s a \<Longrightarrow> HasSuffix s b \<Longrightarrow> HasSuffix a b \<or> HasSuffix b a"
  by (auto simp: HasSuffix_iff append_eq_append_conv2)

lemmas agent_fields = policyConst_def mbaPercentageConst_def mbaMbpsConst_def pstateRatioConst_def
  pstateMonitoringConst_def

text \<open>No key has two of the five suffixes, so that the order of the cases does not matter.\<close>

definition agent_suffixes :: "string list" where
  "agent_suffixes = [policyConst, mbaPercentageConst, mbaMbpsConst, pstateRatioConst, pstateMonitoringConst]"

lemma agent_suffixes_unrelated:
  "list_all (\<lambda>a. list_all (\<lambda>b. a \<noteq> b \<longrightarrow> \<not> HasSuffix a b) agent_suffixes) agent_suffixes"
  by code_simp

lemma suffix_exclusive:
  assumes "HasSuffix s a" "a \<in> set agent_suffixes" "b \<in> set agent_suffixes" "a \<noteq> b"
  shows "\<not> HasSuffix s b"
proof
  assume "HasSuffix s b"
  with two_suffixes assms(1) have "HasSuffix a b \<or> HasSuffix b a" by blast
  moreover have "\<not> HasSuffix x y" if "x \<in> set agent_suffixes" "y \<in> set agent_suffixes" "x \<noteq> y" for x y
    using agent_suffixes_unrelated that by (simp add: list_all_iff)
  ultimately show False using assms(2-4) by blast
qed

lemma agent_suffixes_set [simp]:
  "set agent_suffixes = {policyConst, mbaPercentageConst, mbaMbpsConst, pstateRatioConst, pstateMonitoringConst}"
  by (simp add: agent_suffixes_def)

text \<open>The values the annotations of a container give a field, in the order of the range.\<close>

definition field_values :: "string \<Rightarrow> string \<Rightarrow> string smap \<Rightarrow> string list" where
  "field_values c suffix kvs = List.map snd (filter (\<lambda>(k, d). HasPrefix k c \<and> HasSuffix k suffix) kvs)"

definition numbers :: "string list \<Rightarrow> int64 list" where
  "numbers ds = List.map projr (filter (\<lambda>r. \<not> isl r) (List.map Atoi ds))"

definition last_or :: "'a \<Rightarrow> 'a list \<Rightarrow> 'a" where
  "last_or x xs = (if xs = [] then x else last xs)"

lemma last_or_simps [simp]: "last_or x [] = x" "last_or x (y # xs) = last_or y xs"
  by (simp_all add: last_or_def)

lemma field_values_Cons:
  "field_values c suffix ((k, d) # kvs) =
     (if HasPrefix k c \<and> HasSuffix k suffix then [d] else []) @ field_values c suffix kvs"
  by (simp add: field_values_def)

lemma numbers_Cons [simp]:
  "numbers [] = []" "numbers (d # ds) = (case Atoi d of Inl _ \<Rightarrow> [] | Inr n \<Rightarrow> [n]) @ numbers ds"
  by (auto simp: numbers_def split: sum.splits)

lemma annotation_step_keeps [simp]:
  "CoreIds (annotation_step c kv s) = CoreIds s" "Nodes (annotation_step c kv s) = Nodes s"
  "NodeSelector (annotation_step c kv s) = NodeSelector s"
  "rdtCache (specRdt (annotation_step c kv s)) = rdtCache (specRdt s)"
  "AllCores (annotation_step c kv s) = AllCores s"
  by (auto simp: annotation_step_def set_mba_def set_pstate_def split: prod.splits sum.splits)

lemma fold_annotations_keeps [simp]:
  "CoreIds (fold (annotation_step c) kvs s) = CoreIds s" "Nodes (fold (annotation_step c) kvs s) = Nodes s"
  "NodeSelector (fold (annotation_step c) kvs s) = NodeSelector s"
  "rdtCache (specRdt (fold (annotation_step c) kvs s)) = rdtCache (specRdt s)"
  "AllCores (fold (annotation_step c) kvs s) = AllCores s"
  by (induction kvs arbitrary: s) simp_all

lemma fold_annotations:
  "Policy (fold (annotation_step c) kvs s) = last_or (Policy s) (filter (\<lambda>d. d \<noteq> '''') (field_values c policyConst kvs)) \<and>
   Percentage (rdtMba (specRdt (fold (annotation_step c) kvs s))) =
     last_or (Percentage (rdtMba (specRdt s))) (numbers (field_values c mbaPercentageConst kvs)) \<and>
   Mbps (rdtMba (specRdt (fold (annotation_step c) kvs s))) =
     last_or (Mbps (rdtMba (specRdt s))) (numbers (field_values c mbaMbpsConst kvs)) \<and>
   Ratio (pstate (specPlugins (fold (annotation_step c) kvs s))) =
     last_or (Ratio (pstate (specPlugins s))) (filter (\<lambda>d. d \<noteq> '''') (field_values c pstateRatioConst kvs)) \<and>
   Monitoring (pstate (specPlugins (fold (annotation_step c) kvs s))) =
     last_or (Monitoring (pstate (specPlugins s))) (filter (\<lambda>d. d \<noteq> '''') (field_values c pstateMonitoringConst kvs))"
proof (induction kvs arbitrary: s)
  case Nil
  then show ?case by (simp add: field_values_def)
next
  case (Cons kv kvs)
  obtain k d where kv: "kv = (k, d)" by fastforce
  note ex = suffix_exclusive [of k]
  have dist: "policyConst \<noteq> mbaPercentageConst" "policyConst \<noteq> mbaMbpsConst" "policyConst \<noteq> pstateRatioConst"
    "policyConst \<noteq> pstateMonitoringConst" "mbaPercentageConst \<noteq> mbaMbpsConst" "mbaPercentageConst \<noteq> pstateRatioConst"
    "mbaPercentageConst \<noteq> pstateMonitoringConst" "mbaMbpsConst \<noteq> pstateRatioConst"
    "mbaMbpsConst \<noteq> pstateMonitoringConst" "pstateRatioConst \<noteq> pstateMonitoringConst"
    by (simp_all add: agent_fields)
  consider "\<not> HasPrefix k c" | "HasPrefix k c" "HasSuffix k policyConst" | "HasPrefix k c" "HasSuffix k mbaPercentageConst"
    | "HasPrefix k c" "HasSuffix k mbaMbpsConst" | "HasPrefix k c" "HasSuffix k pstateRatioConst"
    | "HasPrefix k c" "HasSuffix k pstateMonitoringConst"
    | "\<not> HasSuffix k policyConst" "\<not> HasSuffix k mbaPercentageConst" "\<not> HasSuffix k mbaMbpsConst"
      "\<not> HasSuffix k pstateRatioConst" "\<not> HasSuffix k pstateMonitoringConst" by blast
  then show ?case
    using Cons.IH [of "annotation_step c kv s"] dist
    by cases (auto simp: kv annotation_step_def field_values_Cons set_mba_def set_pstate_def ex split: sum.splits)
qed

text \<open>
  (C33) The five fields of a spec an annotation can set: the value is that of the last
  annotation, in the order the map is ranged over, whose key starts with the container's name
  and ends with the field's suffix, among those with a value (a text that is not empty, a
  number that parses); without one it stays as built. The name, the cores, the caches and the nodes are untouched.
\<close>

theorem annotations_set_fields:
  "let kvs = order c (podAnnotations pod); s = wlSpec wl; s' = wlSpec (getAnnotationInfo order wl pod c) in
   Policy s' = last_or (Policy s) (filter (\<lambda>d. d \<noteq> '''') (field_values c policyConst kvs)) \<and>
   Percentage (rdtMba (specRdt s')) = last_or (Percentage (rdtMba (specRdt s))) (numbers (field_values c mbaPercentageConst kvs)) \<and>
   Mbps (rdtMba (specRdt s')) = last_or (Mbps (rdtMba (specRdt s))) (numbers (field_values c mbaMbpsConst kvs)) \<and>
   Ratio (pstate (specPlugins s')) =
     last_or (Ratio (pstate (specPlugins s))) (filter (\<lambda>d. d \<noteq> '''') (field_values c pstateRatioConst kvs)) \<and>
   Monitoring (pstate (specPlugins s')) =
     last_or (Monitoring (pstate (specPlugins s))) (filter (\<lambda>d. d \<noteq> '''') (field_values c pstateMonitoringConst kvs)) \<and>
   wlName (getAnnotationInfo order wl pod c) = wlName wl \<and>
   CoreIds s' = CoreIds s \<and> rdtCache (specRdt s') = rdtCache (specRdt s) \<and> Nodes s' = Nodes s"
  using fold_annotations [of c "order c (podAnnotations pod)" "wlSpec wl"]
  by (simp add: Let_def getAnnotationInfo_def)

text \<open>
  The prefix test does not separate containers: an annotation of container \<open>c1\<close> is one of
  container \<open>c\<close> too, whenever the name \<open>c\<close> is a prefix of the name \<open>c1\<close>. If both have a policy,
  the order of the range decides which one \<open>c\<close> gets.
\<close>

theorem annotations_leak_by_prefix:
  assumes "a \<noteq> ''''" "b \<noteq> ''''"
  shows "Policy (wlSpec (getAnnotationInfo (\<lambda>_ m. m) wl
      (pod\<lparr>podAnnotations := [(c @ ''_policy'', a), (c @ r @ ''_policy'', b)]\<rparr>) c)) = b \<and>
    Policy (wlSpec (getAnnotationInfo (\<lambda>_ m. rev m) wl
      (pod\<lparr>podAnnotations := [(c @ ''_policy'', a), (c @ r @ ''_policy'', b)]\<rparr>) c)) = a"
proof -
  have s: "HasSuffix (u @ ''_policy'') policyConst" for u
    unfolding HasSuffix_iff by (rule exI [of _ "u @ ''_''"]) (simp add: policyConst_def)
  have p: "HasPrefix (c @ u) c" for u by (simp add: HasPrefix_iff)
  have s2: "HasSuffix (c @ r @ ''_policy'') policyConst" using s [of "c @ r"] by simp
  show ?thesis
    using assms s s2 p by (simp add: getAnnotationInfo_def annotation_step_def)
qed

theorem annotations_leak_by_prefix_witness:
  "\<exists>wl pod. Policy (wlSpec (getAnnotationInfo (\<lambda>_ m. m) wl pod ''c'')) = ''gold'' \<and>
     map_of (podAnnotations pod) ''c_policy'' = Some ''silver''"
proof -
  let ?pod = "empty_pod\<lparr>podAnnotations := [(''c'' @ ''_policy'', ''silver''), (''c'' @ ''1'' @ ''_policy'', ''gold'')]\<rparr>"
  have "Policy (wlSpec (getAnnotationInfo (\<lambda>_ m. m) zero_RmdWorkload ?pod ''c'')) = ''gold''"
    by (rule annotations_leak_by_prefix [THEN conjunct1]) simp_all
  moreover have "map_of (podAnnotations ?pod) ''c_policy'' = Some ''silver''" by simp
  ultimately show ?thesis by blast
qed

section \<open>The workloads built for a pod\<close>

lemma limits_loop_eq: "limits_loop c ls = replicate (length (filter (\<lambda>(k, q). k = l3Cache) ls)) c"
  by (induction ls) auto

lemma max_cache_loop_eq:
  "max_cache_loop ls = (case map_of ls l3Cache of None \<Rightarrow> Inr 0 | Some q \<Rightarrow> Atoi (qString q))"
  by (induction ls) auto

text \<open>The limits are a map: a container is listed once.\<close>

lemma getContainersRequestingCache_eq:
  assumes "\<And>c. c \<in> set (podInitContainers pod @ podContainers pod) \<Longrightarrow> distinct (List.map fst (cLimits c))"
  shows "getContainersRequestingCache pod =
    filter (\<lambda>c. map_of (cLimits c) l3Cache \<noteq> None) (podInitContainers pod @ podContainers pod)"
proof -
  have once: "length (filter (\<lambda>(k, q). k = l3Cache) ls) = (if map_of ls l3Cache = None then 0 else 1)"
    if "distinct (List.map fst ls)" for ls :: "Quantity smap"
    using that by (induction ls) (auto simp: map_of_eq_None_iff filter_empty_conv)
  have "concat (List.map (\<lambda>c. limits_loop c (cLimits c)) cs) = filter (\<lambda>c. map_of (cLimits c) l3Cache \<noteq> None) cs"
    if "\<And>c. c \<in> set cs \<Longrightarrow> distinct (List.map fst (cLimits c))" for cs
    using that by (induction cs) (auto simp: limits_loop_eq once)
  with assms show ?thesis unfolding getContainersRequestingCache_def by blast
qed

lemma getAnnotationInfo_keeps [simp]:
  "wlName (getAnnotationInfo order wl pod c) = wlName wl"
  "wlNamespace (getAnnotationInfo order wl pod c) = wlNamespace wl"
  "wlOwner (getAnnotationInfo order wl pod c) = wlOwner wl"
  by (simp_all add: getAnnotationInfo_def)

text \<open>What the workload built for a container looks like.\<close>

definition workload_for :: "'c env \<Rightarrow> Pod \<Rightarrow> Container \<Rightarrow> RmdWorkload \<Rightarrow> bool" where
  "workload_for env pod c wl \<longleftrightarrow>
     wlName wl = podName pod @ rmdWorkloadNameConst @ cName c \<and>
     wlNamespace wl = (if podNamespace pod = '''' then agentNamespace else podNamespace pod) \<and>
     Nodes (wlSpec wl) = [podNodeName pod] \<and> NodeSelector (wlSpec wl) = [] \<and> \<not> AllCores (wlSpec wl) \<and>
     cacheMax (rdtCache (specRdt (wlSpec wl))) = cacheMin (rdtCache (specRdt (wlSpec wl))) \<and>
     (if exclusiveCPUs env pod c
      then CoreIds (wlSpec wl) \<noteq> [] \<and> getMaxCache c = Inr (cacheMax (rdtCache (specRdt (wlSpec wl))))
      else CoreIds (wlSpec wl) = [] \<and> cacheMax (rdtCache (specRdt (wlSpec wl))) = 0)"

lemma workload_for_built:
  assumes "getContainerInfo env pod c h = (Inr info, h')"
  shows "workload_for env pod c (getAnnotationInfo order (new_workload pod c info) pod (cName c))"
proof -
  have "if exclusiveCPUs env pod c then coreIDs info \<noteq> [] \<and> getMaxCache c = Inr (maxCache info)
      else coreIDs info = [] \<and> maxCache info = 0"
    using assms by (auto simp: getContainerInfo_def no_information_def split: if_splits prod.splits sum.splits)
  then show ?thesis
    by (simp add: workload_for_def new_workload_def getAnnotationInfo_def zero_RmdWorkload_def split: if_splits)
qed

lemma build_loop_built:
  "build_loop env order pod cs h = (Inr wls, h') \<Longrightarrow>
     list_all2 (workload_for env pod) (filter (\<lambda>c. \<not> Contains (cName c) rmdWorkloadNameConst) cs) wls"
proof (induction cs arbitrary: h wls)
  case Nil
  then show ?case by simp
next
  case (Cons c cs)
  show ?case
  proof (cases "Contains (cName c) rmdWorkloadNameConst")
    case True
    with Cons show ?thesis by simp
  next
    case False
    obtain r h1 where r: "getContainerInfo env pod c h = (r, h1)" by fastforce
    with Cons.prems False obtain info wls1 where info: "r = Inr info"
      and rest: "build_loop env order pod cs h1 = (Inr wls1, h')"
      and wls: "wls = getAnnotationInfo order (new_workload pod c info) pod (cName c) # wls1"
      by (cases r) (auto simp: Let_def split: prod.splits sum.splits)
    from Cons.IH [OF rest] workload_for_built [OF r [unfolded info]] False wls show ?thesis by simp
  qed
qed

text \<open>
  (C30) The workloads built for a pod are one for each of its init and main containers that asks
  for cache ways and whose name does not contain the separator, in that order: named after
  pod and container, for the pod's node only, with equal cache bounds, which are the
  container's limit, and at least one CPU. A container without exclusive CPUs still gets one,
  with no core and cache 0.
\<close>

theorem buildRmdWorkload_built:
  assumes "\<And>c. c \<in> set (podInitContainers pod @ podContainers pod) \<Longrightarrow> distinct (List.map fst (cLimits c))"
    and "buildRmdWorkload env order pod h = (Inr wls, h')"
  shows "list_all2 (workload_for env pod)
    (filter (\<lambda>c. map_of (cLimits c) ''intel.com/l3_cache_ways'' \<noteq> None \<and> \<not> Contains (cName c) ''-rmd-workload-'')
       (podInitContainers pod @ podContainers pod)) wls"
proof -
  from assms(2) have "list_all2 (workload_for env pod)
      (filter (\<lambda>c. \<not> Contains (cName c) rmdWorkloadNameConst) (getContainersRequestingCache pod)) wls"
    using build_loop_built [of env order pod] by (auto simp: buildRmdWorkload_def Let_def split: if_splits)
  moreover have "getContainersRequestingCache pod =
      filter (\<lambda>c. map_of (cLimits c) l3Cache \<noteq> None) (podInitContainers pod @ podContainers pod)"
    by (rule getContainersRequestingCache_eq) (rule assms(1))
  ultimately show ?thesis by (simp add: l3Cache_def rmdWorkloadNameConst_def conj_commute)
qed

definition cache_container :: "string \<Rightarrow> Container" where
  "cache_container n = \<lparr>cName = n, cPorts = [],
     cLimits = [(''intel.com/l3_cache_ways'', \<lparr>qString = ''2'', qValue = 2, qMilliValue = 2000\<rparr>)],
     cRequests = [(''cpu'', \<lparr>qString = ''1'', qValue = 1, qMilliValue = 1000\<rparr>)]\<rparr>"

definition cache_pod :: "string \<Rightarrow> string \<Rightarrow> Pod" where
  "cache_pod p c = empty_pod\<lparr>podName := p, podUID := ''u'', podNodeName := ''n1'', podPhase := ''Running'',
     podHostIP := ''10.0.0.1'', podContainers := [cache_container c]\<rparr>"

definition agent_env :: "int64 list env" where
  "agent_env = ref_env\<lparr>
     list_pod_resources := \<lambda>h. Inr [(''p'', [(''c'', [3])])],
     list_namespaces := \<lambda>h. Inr [''kube-system'', ''default''],
     get_own_pod := \<lambda>h ns. (Some (empty_pod\<lparr>podHostIP := ''10.0.0.1''\<rparr>), None)\<rparr>"

theorem buildRmdWorkload_built_witness:
  "\<exists>wls. list_all2 (workload_for agent_env (cache_pod ''p'' ''c'')) [cache_container ''c''] wls"
proof -
  let ?o = "\<lambda>(_ :: string) m. m"
  have "\<not> isl (fst (buildRmdWorkload agent_env ?o (cache_pod ''p'' ''c'') []))" by code_simp
  then obtain wls h' where b: "buildRmdWorkload agent_env ?o (cache_pod ''p'' ''c'') [] = (Inr wls, h')"
    by (metis isl_def prod.collapse sum.exhaust)
  have pod: "podInitContainers (cache_pod ''p'' ''c'') = []" "podContainers (cache_pod ''p'' ''c'') = [cache_container ''c'']"
    by (simp_all add: cache_pod_def empty_pod_def)
  have "\<not> Contains (cName (cache_container ''c'')) ''-rmd-workload-''" by code_simp
  moreover have "list_all2 (workload_for agent_env (cache_pod ''p'' ''c''))
     (filter (\<lambda>c. map_of (cLimits c) ''intel.com/l3_cache_ways'' \<noteq> None \<and> \<not> Contains (cName c) ''-rmd-workload-'')
       (podInitContainers (cache_pod ''p'' ''c'') @ podContainers (cache_pod ''p'' ''c''))) wls"
    by (rule buildRmdWorkload_built [OF _ b]) (auto simp: pod cache_container_def)
  ultimately show ?thesis by (auto simp: pod cache_container_def)
qed

text \<open>
  The name of a workload tells the containers of one pod apart, but not those of two pods:
  container \<open>rmd-workload-x\<close> of pod \<open>a\<close> and container \<open>x\<close> of pod \<open>a-rmd-workload\<close> pass the check of
  the separator and share a workload.
\<close>

theorem workload_names:
  "(podName p @ rmdWorkloadNameConst @ c = podName p @ rmdWorkloadNameConst @ d \<longleftrightarrow> c = d) \<and>
   (\<exists>p q c d. p \<noteq> q \<and> \<not> Contains c rmdWorkloadNameConst \<and> \<not> Contains d rmdWorkloadNameConst \<and>
      wlName (new_workload (cache_pod p c) (cache_container c) no_information) =
      wlName (new_workload (cache_pod q d) (cache_container d) no_information))"
proof
  have "\<not> Contains ''rmd-workload-x'' rmdWorkloadNameConst" "\<not> Contains ''x'' rmdWorkloadNameConst"
    by code_simp+
  then show "\<exists>p q c d. p \<noteq> q \<and> \<not> Contains c rmdWorkloadNameConst \<and> \<not> Contains d rmdWorkloadNameConst \<and>
      wlName (new_workload (cache_pod p c) (cache_container c) no_information) =
      wlName (new_workload (cache_pod q d) (cache_container d) no_information)"
    by (intro exI [of _ "''a''"] exI [of _ "''a-rmd-workload''"] exI [of _ "''rmd-workload-x''"] exI [of _ "''x''"])
      (simp add: new_workload_def cache_pod_def empty_pod_def cache_container_def rmdWorkloadNameConst_def)
qed simp

section \<open>Reconcile\<close>

text \<open>
  The write of a reconcile for the workload \<open>wl\<close> built for a pod, in the trace \<open>h'\<close>: it follows
  at once the query of the workload. If the query found none, the workload is created, with the
  owner the pod gives it; otherwise the object the query returned is sent back.
\<close>

definition agent_call :: "'c env \<Rightarrow> string \<Rightarrow> Pod \<Rightarrow> trace \<Rightarrow> RmdWorkload \<Rightarrow> call \<Rightarrow> bool" where
  "agent_call env ns pod h' wl c \<longleftrightarrow>
     (\<exists>h1 h2. h' = h1 @ [GetWorkloadCR ns (wlName wl), c] @ h2 \<and>
        (case get_workload env h1 ns (wlName wl) of
           Inl e \<Rightarrow> IsNotFound e \<and> (\<exists>own. set_controller_reference env (podName pod) (wlOwner wl) = Inr own \<and>
             c = CreateWorkloadCR (wl\<lparr>wlOwner := own\<rparr>))
         | Inr found \<Rightarrow> c = UpdateWorkloadCR found))"

lemma agent_callI:
  assumes "case get_workload env h ns (wlName wl) of
       Inl e \<Rightarrow> IsNotFound e \<and> (\<exists>own. set_controller_reference env (podName pod) (wlOwner wl) = Inr own \<and>
         c = CreateWorkloadCR (wl\<lparr>wlOwner := own\<rparr>))
     | Inr found \<Rightarrow> c = UpdateWorkloadCR found"
  shows "agent_call env ns pod (h @ GetWorkloadCR ns (wlName wl) # c # x) wl c"
  unfolding agent_call_def using assms by (intro exI [of _ h] exI [of _ x]) auto

lemma apply_workloads_writes:
  assumes "apply_workloads env req pod wls h = ((res, err), h')"
  shows "res = no_requeue \<and> (\<exists>x. h' = h @ x \<and> length (writes x) \<le> length wls \<and>
    list_all2 (agent_call env (reqNamespace req) pod h') (take (length (writes x)) wls) (writes x) \<and>
    (err = None \<longrightarrow> length (writes x) = length wls))"
  using assms
proof (induction wls arbitrary: h)
  case Nil
  then show ?case by auto
next
  case (Cons wl wls)
  let ?g = "GetWorkloadCR (reqNamespace req) (wlName wl)"
  let ?r = "get_workload env h (reqNamespace req) (wlName wl)"
  have stop: ?case if "res = no_requeue" "err \<noteq> None" "h' = h @ [?g]" using that by auto
  have step: ?case if c: "\<not> is_read c" "case ?r of
       Inl e \<Rightarrow> IsNotFound e \<and> (\<exists>own. set_controller_reference env (podName pod) (wlOwner wl) = Inr own \<and>
         c = CreateWorkloadCR (wl\<lparr>wlOwner := own\<rparr>))
     | Inr found \<Rightarrow> c = UpdateWorkloadCR found"
    and rest: "(\<exists>e. res = no_requeue \<and> err = Some e \<and> h' = h @ [?g] @ [c]) \<or>
      apply_workloads env req pod wls (h @ [?g] @ [c]) = ((res, err), h')" for c
    using rest
  proof
    assume "\<exists>e. res = no_requeue \<and> err = Some e \<and> h' = h @ [?g] @ [c]"
    with agent_callI [OF c(2), of "[]"] c(1) show ?thesis by auto
  next
    assume "apply_workloads env req pod wls (h @ [?g] @ [c]) = ((res, err), h')"
    from Cons.IH [OF this] agent_callI [OF c(2)] c(1) show ?thesis by auto
  qed
  show ?case
  proof (cases ?r)
    case (Inr found)
    with Cons.prems(1) show ?thesis
      by (intro step [of "UpdateWorkloadCR found"]) (auto simp: Let_def intro: sym split: option.splits)
  next
    case (Inl e)
    show ?thesis
    proof (cases "IsNotFound e")
      case False
      with Inl Cons.prems(1) show ?thesis by (intro stop) (auto simp: Let_def)
    next
      case True
      show ?thesis
      proof (cases "set_controller_reference env (podName pod) (wlOwner wl)")
        case (Inl e')
        with True \<open>?r = Inl e\<close> Cons.prems(1) show ?thesis by (intro stop) (auto simp: Let_def)
      next
        case (Inr own)
        with True \<open>?r = Inl e\<close> Cons.prems(1) show ?thesis
          by (intro step [of "CreateWorkloadCR (wl\<lparr>wlOwner := own\<rparr>)"]) (auto simp: Let_def intro: sym split: option.splits)
      qed
    qed
  qed
qed

lemma namespace_loop_read_only [trace_ext]: "namespace_loop env nss p h = (r, h') \<Longrightarrow> read_only h h'"
proof (induction nss arbitrary: p h)
  case Nil
  then show ?case by simp
next
  case (Cons ns nss)
  have "read_only (h @ [GetOwnPod ns]) h' \<Longrightarrow> read_only h h'" by (erule read_only_after) simp
  with Cons show ?case by (auto simp: Let_def split: if_splits prod.splits option.splits)
qed

lemma getNodeAgentPod_read_only [trace_ext]:
  assumes "getNodeAgentPod env h = (r, h')"
  shows "read_only h h'"
proof -
  have "read_only (h @ [ListNamespaces]) h' \<Longrightarrow> read_only h h'" by (erule read_only_after) simp
  with assms show ?thesis
    by (auto simp: getNodeAgentPod_def Let_def split: sum.splits dest: namespace_loop_read_only)
qed

lemma getContainerInfo_read_only [trace_ext]: "getContainerInfo env pod c h = (r, h') \<Longrightarrow> read_only h h'"
  by (auto simp: getContainerInfo_def split: if_splits prod.splits sum.splits dest: GetContainerCPUs_read_only)

lemma build_loop_read_only [trace_ext]: "build_loop env order pod cs h = (r, h') \<Longrightarrow> read_only h h'"
  by (induction cs arbitrary: h r)
    (auto simp: Let_def split: if_splits prod.splits sum.splits dest!: getContainerInfo_read_only intro: read_only_trans)

lemma buildRmdWorkload_read_only [trace_ext]: "buildRmdWorkload env order pod h = (r, h') \<Longrightarrow> read_only h h'"
  by (auto simp: buildRmdWorkload_def Let_def split: if_splits dest: build_loop_read_only)

lemma ReconcilePod_cases:
  assumes "ReconcilePod env order req h = Some ((res, err), h')"
  obtains e where "get_pod env h (reqNamespace req) (reqName req) = Inl e" "err = (if IsNotFound e then None else Some e)"
      "res = no_requeue" "writes h' = writes h"
  | pod where "get_pod env h (reqNamespace req) (reqName req) = Inr pod" "podPhase pod \<noteq> ''Running''" "err \<noteq> None"
      "res = no_requeue" "writes h' = writes h"
  | pod e h1 where "get_pod env h (reqNamespace req) (reqName req) = Inr pod" "podPhase pod = ''Running''"
      "getNodeAgentPod env (h @ [GetPodObj (reqNamespace req) (reqName req)]) = (Inl e, h1)" "err = Some e"
      "res = no_requeue" "writes h' = writes h"
  | pod agent h1 where "get_pod env h (reqNamespace req) (reqName req) = Inr pod" "podPhase pod = ''Running''"
      "getNodeAgentPod env (h @ [GetPodObj (reqNamespace req) (reqName req)]) = (Inr (Some agent), h1)"
      "podHostIP pod \<noteq> podHostIP agent" "err = None" "res = no_requeue" "writes h' = writes h"
  | pod agent h1 e h2 where "get_pod env h (reqNamespace req) (reqName req) = Inr pod" "podPhase pod = ''Running''"
      "getNodeAgentPod env (h @ [GetPodObj (reqNamespace req) (reqName req)]) = (Inr (Some agent), h1)"
      "podHostIP pod = podHostIP agent" "buildRmdWorkload env order pod h1 = (Inl e, h2)" "err = Some e"
      "res = no_requeue" "writes h' = writes h"
  | pod agent h1 wls h2 where "get_pod env h (reqNamespace req) (reqName req) = Inr pod" "podPhase pod = ''Running''"
      "getNodeAgentPod env (h @ [GetPodObj (reqNamespace req) (reqName req)]) = (Inr (Some agent), h1)"
      "podHostIP pod = podHostIP agent" "buildRmdWorkload env order pod h1 = (Inr wls, h2)" "writes h2 = writes h"
      "apply_workloads env req pod wls h2 = ((res, err), h')"
proof (cases "get_pod env h (reqNamespace req) (reqName req)")
  case (Inl e)
  with assms that(1) show thesis by (auto simp: ReconcilePod_def Let_def)
next
  case (Inr pod)
  let ?h = "h @ [GetPodObj (reqNamespace req) (reqName req)]"
  from assms Inr have run: "reconcile_pod env order req pod ?h = Some ((res, err), h')"
    by (simp add: ReconcilePod_def Let_def)
  obtain a h1 where a: "getNodeAgentPod env ?h = (a, h1)" by fastforce
  obtain b h2 where b: "buildRmdWorkload env order pod h1 = (b, h2)" by fastforce
  have w: "writes h1 = writes h" "writes h2 = writes h"
    using getNodeAgentPod_read_only [OF a] buildRmdWorkload_read_only [OF b] by (auto dest!: read_only_writes)
  show thesis
  proof (cases "podPhase pod = ''Running''")
    case False
    with run Inr that(2) show thesis by (auto simp: reconcile_pod_def)
  next
    case run1: True
    consider (search) e where "a = Inl e" | (other) agent where "a = Inr (Some agent)" "podHostIP pod \<noteq> podHostIP agent"
      | (built) agent where "a = Inr (Some agent)" "podHostIP pod = podHostIP agent"
      using run run1 a by (cases a) (auto simp: reconcile_pod_def split: option.splits)
    then show thesis
    proof cases
      case search
      with run run1 a Inr w that(3) show thesis by (auto simp: reconcile_pod_def)
    next
      case other
      with run run1 a Inr w that(4) show thesis by (auto simp: reconcile_pod_def)
    next
      case built
      show thesis
      proof (cases b)
        case (Inl e)
        with run run1 a b built \<open>get_pod _ _ _ _ = Inr pod\<close> w that(5) show thesis by (auto simp: reconcile_pod_def)
      next
        case b': (Inr wls)
        then have "apply_workloads env req pod wls h2 = ((res, err), h')"
          using run run1 a b built by (auto simp: reconcile_pod_def split: if_splits)
        with run1 a b built b' Inr w that(6) show thesis by auto
      qed
    qed
  qed
qed

text \<open>
  (C31) What a reconcile of a pod writes. If the pod is running, the node agent's own pod is found
  on the same host, and workloads are built for it, these get their writes in order: the first
  ones, all of them if no error is returned, exactly one write each, which creates the
  workload, with the owner the pod gives it, if it does not exist, and otherwise writes back the
  object that was just read, so that a change of the pod's annotations never reaches its
  workloads. In all other cases nothing is written, and an error is returned unless the pod is
  gone or is on another host.
\<close>

theorem ReconcilePod_writes:
  assumes "ReconcilePod env order req h = Some ((res, err), h')"
  shows "res = no_requeue \<and>
    ((\<exists>pod agent h1 wls h2 cs. get_pod env h (reqNamespace req) (reqName req) = Inr pod \<and> podPhase pod = ''Running'' \<and>
        getNodeAgentPod env (h @ [GetPodObj (reqNamespace req) (reqName req)]) = (Inr (Some agent), h1) \<and>
        podHostIP pod = podHostIP agent \<and> buildRmdWorkload env order pod h1 = (Inr wls, h2) \<and>
        writes h' = writes h @ cs \<and> length cs \<le> length wls \<and>
        list_all2 (agent_call env (reqNamespace req) pod h') (take (length cs) wls) cs \<and>
        (err = None \<longrightarrow> length cs = length wls)) \<or>
     writes h' = writes h \<and>
     (case get_pod env h (reqNamespace req) (reqName req) of
        Inl e \<Rightarrow> err = (if IsNotFound e then None else Some e)
      | Inr pod \<Rightarrow> err \<noteq> None \<or> podPhase pod = ''Running'' \<and> (\<exists>agent h1.
          getNodeAgentPod env (h @ [GetPodObj (reqNamespace req) (reqName req)]) = (Inr (Some agent), h1) \<and>
          podHostIP pod \<noteq> podHostIP agent)))"
  using assms
proof (cases rule: ReconcilePod_cases)
  case (6 pod agent h1 wls h2)
  from apply_workloads_writes [OF this(7)] obtain x where x: "res = no_requeue" "h' = h2 @ x"
    "length (writes x) \<le> length wls"
    "list_all2 (agent_call env (reqNamespace req) pod h') (take (length (writes x)) wls) (writes x)"
    "err = None \<longrightarrow> length (writes x) = length wls" by blast
  moreover have "writes h' = writes h @ writes x" using x(2) 6(6) by simp
  ultimately show ?thesis using 6(1-5) by blast
qed auto

text \<open>The annotated pod has a workload already: its policy stays as it was.\<close>

theorem ReconcilePod_writes_witness:
  "let env = agent_env\<lparr>get_pod := \<lambda>h ns n. Inr ((cache_pod ''p'' ''c'')\<lparr>podAnnotations := [(''c_policy'', ''gold'')]\<rparr>),
       get_workload := \<lambda>h ns n. Inr (zero_RmdWorkload\<lparr>wlName := n\<rparr>)\<rparr> in
   \<exists>h' wls pod. writes h' = [UpdateWorkloadCR (zero_RmdWorkload\<lparr>wlName := ''p-rmd-workload-c''\<rparr>)] \<and>
     list_all2 (agent_call env '''' pod h') wls (writes h')"
proof -
  let ?env = "agent_env\<lparr>get_pod := \<lambda>h ns n. Inr ((cache_pod ''p'' ''c'')\<lparr>podAnnotations := [(''c_policy'', ''gold'')]\<rparr>),
       get_workload := \<lambda>h ns n. Inr (zero_RmdWorkload\<lparr>wlName := n\<rparr>)\<rparr>"
  let ?run = "ReconcilePod ?env (\<lambda>_ m. m) \<lparr>reqNamespace = '''', reqName = ''p''\<rparr> []"
  have w: "map_option (\<lambda>(r, h'). writes h') ?run =
      Some [UpdateWorkloadCR (zero_RmdWorkload\<lparr>wlName := ''p-rmd-workload-c''\<rparr>)]" by code_simp
  then obtain res err h' where run: "?run = Some ((res, err), h')"
    and u: "writes h' = [UpdateWorkloadCR (zero_RmdWorkload\<lparr>wlName := ''p-rmd-workload-c''\<rparr>)]" by auto
  from ReconcilePod_writes [OF run] consider
      pod wls cs where "list_all2 (agent_call ?env (reqNamespace \<lparr>reqNamespace = '''', reqName = ''p''\<rparr>) pod h') (take (length cs) wls) cs"
        "writes h' = writes [] @ cs"
    | "writes h' = writes []" by blast
  then show ?thesis unfolding Let_def using u by cases (simp, fastforce, simp)
qed

text \<open>
  The answers to the search for the node agent's own pod, if it goes on to the end: one for each
  namespace that is none of the system's.
\<close>

definition user_namespaces :: "string list \<Rightarrow> string list" where
  "user_namespaces nss = filter (\<lambda>n. n \<notin> {''kube-system'', ''kube-public'', ''kube-node-lease''}) nss"

fun own_pod_answers :: "'c env \<Rightarrow> trace \<Rightarrow> string list \<Rightarrow> (Pod option \<times> gerr option) list" where
  "own_pod_answers env h [] = []"
| "own_pod_answers env h (ns # nss) = get_own_pod env h ns # own_pod_answers env (h @ [GetOwnPod ns]) nss"

definition not_found :: "Pod option \<times> gerr option \<Rightarrow> bool" where
  "not_found a \<longleftrightarrow> (\<exists>e. snd a = Some e \<and> IsNotFound e)"

definition ends_nil :: "(Pod option \<times> gerr option) list \<Rightarrow> bool" where
  "ends_nil answers \<longleftrightarrow> (\<exists>as a bs. answers = as @ a # bs \<and> list_all not_found as \<and> fst a = None \<and>
     (snd a = None \<or> bs = [] \<and> not_found a))"

lemma ends_nil_Cons:
  "ends_nil (a # as) \<longleftrightarrow>
     (if snd a = None then fst a = None else not_found a \<and> (if as = [] then fst a = None else ends_nil as))"
proof
  assume "ends_nil (a # as)"
  then obtain us b bs where b: "a # as = us @ b # bs" "list_all not_found us" "fst b = None"
    "snd b = None \<or> bs = [] \<and> not_found b" unfolding ends_nil_def by blast
  show "if snd a = None then fst a = None else not_found a \<and> (if as = [] then fst a = None else ends_nil as)"
  proof (cases us)
    case Nil
    with b show ?thesis by (auto simp: not_found_def)
  next
    case (Cons u us')
    with b have "not_found a" "as = us' @ b # bs" "list_all not_found us'" by simp_all
    with b(3,4) have "ends_nil as" unfolding ends_nil_def by blast
    with \<open>not_found a\<close> \<open>as = us' @ b # bs\<close> show ?thesis by (auto simp: not_found_def)
  qed
next
  assume rhs: "if snd a = None then fst a = None else not_found a \<and> (if as = [] then fst a = None else ends_nil as)"
  consider "snd a = None" "fst a = None" | "as = []" "not_found a" "fst a = None"
    | "not_found a" "ends_nil as" using rhs by (auto split: if_splits)
  then show "ends_nil (a # as)"
  proof cases
    case 1
    then show ?thesis unfolding ends_nil_def by (intro exI [of _ "[]"] exI [of _ a] exI [of _ as]) simp
  next
    case 2
    then show ?thesis unfolding ends_nil_def by (intro exI [of _ "[]"] exI [of _ a]) simp
  next
    case 3
    then have "not_found a" "ends_nil as" by auto
    then obtain us b bs where "as = us @ b # bs" "list_all not_found us" "fst b = None"
      "snd b = None \<or> bs = [] \<and> not_found b" unfolding ends_nil_def by blast
    with \<open>not_found a\<close> show ?thesis unfolding ends_nil_def
      by (intro exI [of _ "a # us"] exI [of _ b] exI [of _ bs]) simp
  qed
qed

lemma namespace_loop_nil:
  "(\<exists>h'. namespace_loop env nss p h = (Inr None, h')) \<longleftrightarrow>
     (if user_namespaces nss = [] then p = None else ends_nil (own_pod_answers env h (user_namespaces nss)))"
proof (induction nss arbitrary: p h)
  case Nil
  then show ?case by (simp add: user_namespaces_def)
next
  case (Cons ns nss)
  show ?case
  proof (cases "ns \<in> {''kube-system'', ''kube-public'', ''kube-node-lease''}")
    case True
    then show ?thesis using Cons.IH by (auto simp: user_namespaces_def)
  next
    case False
    then have user: "user_namespaces (ns # nss) = ns # user_namespaces nss" by (simp add: user_namespaces_def)
    obtain pod err where a: "get_own_pod env h ns = (pod, err)" by fastforce
    have empty: "own_pod_answers env h' us = [] \<longleftrightarrow> us = []" for h' us by (cases us) simp_all
    show ?thesis
      using False a Cons.IH [of pod "h @ [GetOwnPod ns]"]
      by (cases err) (auto simp: user ends_nil_Cons empty not_found_def Let_def)
  qed
qed

text \<open>
  (C32) The reconciler ends in a nil dereference exactly when the pod to reconcile is running, the
  namespaces can be listed, and the search for the node agent's own pod through those that are
  none of the system's comes to a nil pointer: all the answers before say "not found", and
  one holds no pod without an error, or is the last and says "not found" as well. With no such
  namespace there is no panic.
\<close>

theorem ReconcilePod_panics_iff:
  "ReconcilePod env order req h = None \<longleftrightarrow>
     (\<exists>pod nss. get_pod env h (reqNamespace req) (reqName req) = Inr pod \<and> podPhase pod = ''Running'' \<and>
        list_namespaces env (h @ [GetPodObj (reqNamespace req) (reqName req)]) = Inr nss \<and>
        ends_nil (own_pod_answers env (h @ [GetPodObj (reqNamespace req) (reqName req), ListNamespaces])
          (user_namespaces nss)))"
proof -
  let ?h = "h @ [GetPodObj (reqNamespace req) (reqName req)]"
  have "\<not> ends_nil []" by (simp add: ends_nil_def)
  then have search: "(\<exists>h'. getNodeAgentPod env ?h = (Inr None, h')) \<longleftrightarrow> (\<exists>nss. list_namespaces env ?h = Inr nss \<and>
      ends_nil (own_pod_answers env (?h @ [ListNamespaces]) (user_namespaces nss)))"
    using namespace_loop_nil [of env _ "Some empty_pod" "?h @ [ListNamespaces]"]
    by (auto simp: getNodeAgentPod_def Let_def split: sum.splits if_splits)
  have "ReconcilePod env order req h = None \<longleftrightarrow>
      (\<exists>pod h'. get_pod env h (reqNamespace req) (reqName req) = Inr pod \<and> podPhase pod = ''Running'' \<and>
        getNodeAgentPod env ?h = (Inr None, h'))"
    by (cases "get_pod env h (reqNamespace req) (reqName req)")
      (auto simp: ReconcilePod_def reconcile_pod_def Let_def split: if_splits prod.splits sum.splits option.splits,
       metis surj_pair)
  with search show ?thesis by auto
qed

text \<open>A node agent that finds itself in no namespace.\<close>

theorem ReconcilePod_panics_iff_witness:
  "ReconcilePod (agent_env\<lparr>get_pod := \<lambda>h ns n. Inr (cache_pod ''p'' ''c''),
       get_own_pod := \<lambda>h ns. (None, Some (NotFound ''not found''))\<rparr>)
     (\<lambda>_ m. m) \<lparr>reqNamespace = ''default'', reqName = ''p''\<rparr> [] = None"
  unfolding ReconcilePod_panics_iff
  by (simp add: agent_env_def cache_pod_def user_namespaces_def ends_nil_Cons not_found_def)

end
