(* ===== verification/Device_Plugin.thy ===== *)
theory Device_Plugin
  imports Rmd_Client
begin

text \<open>
  \<open>cmd/deviceplugin/main.go\<close>: the device plugin that offers the guaranteed cache ways of the
  node to the kubelet. The gRPC server, the registration and the sockets are not modelled;
  the state is the device map, the operations are its discovery, the stream of device lists
  and the allocation.
\<close>

record pluginManager =
  rmdClient :: OperatorRmdClient
  devices :: "Device smap"

definition newPluginManager :: "OperatorRmdClient \<Rightarrow> pluginManager" where
  "newPluginManager rc = \<lparr>rmdClient = rc, devices = []\<rparr>"

definition resourceName :: string where
  "resourceName = ''intel.com/l3_cache_ways''"

text \<open>\<open>None\<close> is the end of the process on a malformed list of ways.\<close>

definition discoverResources ::
  "'c env \<Rightarrow> pluginManager \<Rightarrow> trace \<Rightarrow> ((gerr option \<times> pluginManager) \<times> trace) option"
where
  "discoverResources env pm h =
     do {
       (r, h') \<leftarrow> GetGuaranteedCacheWayPools env (rmdClient pm) h;
       Some (case r of
           Inl err \<Rightarrow> ((Some err, pm), h')
         | Inr devs \<Rightarrow> ((None, pm\<lparr>devices := devs\<rparr>), h'))
     }"

definition GetDeviceState :: "string \<Rightarrow> string" where
  "GetDeviceState DeviceName = Healthy"

section \<open>ListAndWatch\<close>

text \<open>The check of the device states: the devices with their present state, and whether one changed.\<close>

fun health_loop :: "Device smap \<Rightarrow> bool \<Rightarrow> bool \<times> Device smap" where
  "health_loop [] changed = (changed, [])"
| "health_loop ((i, dev) # devs) changed =
     (let state = GetDeviceState i in
      if Health dev \<noteq> state then
        (case health_loop devs True of (c, devs') \<Rightarrow> (c, (i, dev\<lparr>Health := state\<rparr>) # devs'))
      else (case health_loop devs changed of (c, devs') \<Rightarrow> (c, (i, dev) # devs')))"

text \<open>
  The endless loop, cut off after \<open>fuel\<close> rounds. \<open>send\<close> is the stream's answer to the n-th
  message; \<open>order\<close> the order in which the map is ranged over. The result is the error that
  ended the loop, if one did, the messages sent and the devices. That the loop also stops the
  server on an error concerns the process, not this state.
\<close>

fun watch_loop ::
  "(Device smap \<Rightarrow> Device smap) \<Rightarrow> (nat \<Rightarrow> gerr option) \<Rightarrow> nat \<Rightarrow> bool \<Rightarrow> pluginManager \<Rightarrow> Device list list \<Rightarrow>
    gerr option \<times> Device list list \<times> pluginManager"
where
  "watch_loop order send 0 changed pm sent = (None, sent, pm)"
| "watch_loop order send (Suc fuel) changed pm sent =
     (case health_loop (devices pm) changed of (changed', devs) \<Rightarrow>
      let pm' = pm\<lparr>devices := devs\<rparr> in
      if changed' then
        let resp = List.map snd (order devs) in
        case send (length sent) of
          Some err \<Rightarrow> (Some err, sent @ [resp], pm')
        | None \<Rightarrow> watch_loop order send fuel False pm' (sent @ [resp])
      else watch_loop order send fuel False pm' sent)"

definition ListAndWatch ::
  "(Device smap \<Rightarrow> Device smap) \<Rightarrow> (nat \<Rightarrow> gerr option) \<Rightarrow> nat \<Rightarrow> pluginManager \<Rightarrow>
    gerr option \<times> Device list list \<times> pluginManager"
where
  "ListAndWatch order send fuel pm = watch_loop order send fuel True pm []"

section \<open>Allocate\<close>

text \<open>
  The ids of one container, added to those so far; \<open>None\<close> is the index into an empty list of
  NUMA nodes.
\<close>

fun ids_loop :: "Device smap \<Rightarrow> string list \<Rightarrow> string \<Rightarrow> (gerr + string) option" where
  "ids_loop devs [] ids = Some (Inr ids)"
| "ids_loop devs (i # is) ids =
     (case map_of devs i of
        None \<Rightarrow> Some (Inl (GoError (''Error. Invalid allocation request with non-existing device '' @ i)))
      | Some dev \<Rightarrow>
          if Health dev \<noteq> Healthy
          then Some (Inl (GoError (''Error. Invalid allocation request with unhealthy device '' @ i)))
          else
            case numaNodes dev of
              [] \<Rightarrow> None
            | n # _ \<Rightarrow> ids_loop devs is (ids @ ''{'' @ i @ '', '' @ Itoa n @ ''}''))"

fun allocate_loop :: "Device smap \<Rightarrow> string list list \<Rightarrow> string \<Rightarrow> (gerr + string smap list) option" where
  "allocate_loop devs [] ids = Some (Inr [])"
| "allocate_loop devs (container # containers) ids =
     do {
       r \<leftarrow> ids_loop devs container ids;
       case r of
         Inl err \<Rightarrow> Some (Inl err)
       | Inr ids' \<Rightarrow>
           do {
             rs \<leftarrow> allocate_loop devs containers ids';
             Some (case rs of
                 Inl err \<Rightarrow> Inl err
               | Inr resps \<Rightarrow> Inr ([(resourceName, ids')] # resps))
           }
     }"

definition Allocate :: "pluginManager \<Rightarrow> string list list \<Rightarrow> (gerr + string smap list) option" where
  "Allocate pm containerRequests = allocate_loop (devices pm) containerRequests ''''"

section \<open>The other calls of the service\<close>

text \<open>The kubelet is told not to ask for a call before a container starts; such a call answers nothing.\<close>

record DevicePluginOptions =
  PreStartRequired :: bool

definition GetDevicePluginOptions :: "pluginManager \<Rightarrow> gerr + DevicePluginOptions" where
  "GetDevicePluginOptions pm = Inr \<lparr>PreStartRequired = False\<rparr>"

definition PreStartContainer :: "pluginManager \<Rightarrow> string list \<Rightarrow> gerr + unit" where
  "PreStartContainer pm devicesIDs = Inr ()"

end
