(* ===== verification/Device_Plugin_Props.thy ===== *)
theory Device_Plugin_Props
  imports Device_Plugin Rmd_Client_Props
begin

text \<open>
  Properties of the device plugin (\<open>cmd/deviceplugin\<close>): what it answers to an allocation, which
  requests it refuses, that devices it discovered can be allocated, and what it tells the
  kubelet.
\<close>

section \<open>Allocate\<close>

text \<open>The devices that can be allocated, and the text of one in the answer.\<close>

definition allocatable :: "Device smap \<Rightarrow> string \<Rightarrow> bool" where
  "allocatable devs i \<longleftrightarrow> (case map_of devs i of None \<Rightarrow> False | Some d \<Rightarrow> Health d = Healthy)"

definition on_nodes :: "Device smap \<Rightarrow> bool" where
  "on_nodes devs \<longleftrightarrow> (\<forall>i d. map_of devs i = Some d \<longrightarrow> numaNodes d \<noteq> [])"

definition id_text :: "Device smap \<Rightarrow> string \<Rightarrow> string" where
  "id_text devs i = ''{'' @ i @ '', '' @ Itoa (hd (numaNodes (the (map_of devs i)))) @ ''}''"

definition refusal :: "Device smap \<Rightarrow> string \<Rightarrow> gerr" where
  "refusal devs i = GoError ((case map_of devs i of
      None \<Rightarrow> ''Error. Invalid allocation request with non-existing device ''
    | Some _ \<Rightarrow> ''Error. Invalid allocation request with unhealthy device '') @ i)"

lemma ids_loop_ok:
  assumes "on_nodes devs" "\<And>i. i \<in> set is \<Longrightarrow> allocatable devs i"
  shows "ids_loop devs is ids = Some (Inr (ids @ concat (List.map (id_text devs) is)))"
  using assms(2)
proof (induction "is" arbitrary: ids)
  case Nil
  then show ?case by simp
next
  case (Cons i "is")
  have "allocatable devs i" using Cons.prems by simp
  then obtain d where d: "map_of devs i = Some d" "Health d = Healthy"
    by (auto simp: allocatable_def split: option.splits)
  with assms(1) have "numaNodes d \<noteq> []" by (auto simp: on_nodes_def)
  with d Cons show ?case by (cases "numaNodes d") (auto simp: id_text_def)
qed

lemma ids_loop_bad:
  assumes "on_nodes devs" "\<And>i. i \<in> set us \<Longrightarrow> allocatable devs i" "\<not> allocatable devs i"
  shows "ids_loop devs (us @ i # vs) ids = Some (Inl (refusal devs i))"
  using assms(2)
proof (induction us arbitrary: ids)
  case Nil
  with assms(3) show ?case by (auto simp: allocatable_def refusal_def split: option.splits)
next
  case (Cons u us)
  have "allocatable devs u" using Cons.prems by simp
  then obtain d where d: "map_of devs u = Some d" "Health d = Healthy"
    by (auto simp: allocatable_def split: option.splits)
  with assms(1) have "numaNodes d \<noteq> []" by (auto simp: on_nodes_def)
  with d Cons show ?case by (cases "numaNodes d") auto
qed

lemma allocate_loop_ok:
  assumes "on_nodes devs" "\<And>i. i \<in> set (concat reqs) \<Longrightarrow> allocatable devs i"
  shows "allocate_loop devs reqs ids = Some (Inr (List.map
    (\<lambda>k. [(resourceName, ids @ concat (List.map (id_text devs) (concat (take (Suc k) reqs))))]) [0..<length reqs]))"
  using assms(2)
proof (induction reqs arbitrary: ids)
  case Nil
  then show ?case by simp
next
  case (Cons r reqs)
  have "ids_loop devs r ids = Some (Inr (ids @ concat (List.map (id_text devs) r)))"
    by (rule ids_loop_ok [OF assms(1)]) (use Cons.prems in auto)
  with Cons show ?case by (simp add: upt_conv_Cons map_Suc_upt [symmetric] del: upt_Suc)
qed

lemma allocate_loop_bad:
  assumes "on_nodes devs" "\<And>i. i \<in> set (concat reqs @ us) \<Longrightarrow> allocatable devs i" "\<not> allocatable devs i"
  shows "allocate_loop devs (reqs @ (us @ i # vs) # rest) ids = Some (Inl (refusal devs i))"
  using assms(2)
proof (induction reqs arbitrary: ids)
  case Nil
  have "ids_loop devs (us @ i # vs) ids = Some (Inl (refusal devs i))"
    by (rule ids_loop_bad [OF assms(1) _ assms(3)]) (use Nil in auto)
  then show ?case by simp
next
  case (Cons r reqs)
  have "ids_loop devs r ids = Some (Inr (ids @ concat (List.map (id_text devs) r)))"
    by (rule ids_loop_ok [OF assms(1)]) (use Cons.prems in auto)
  with Cons show ?case by simp
qed

text \<open>
  (C36) The answer to an allocation of devices that are all known, healthy and on a NUMA node: one
  environment variable for each container. The ids are not reset between the containers, so
  that the variable of a container lists the devices of all containers before it as well.
\<close>

theorem Allocate_accumulates:
  assumes "on_nodes (devices pm)" "\<And>i. i \<in> set (concat reqs) \<Longrightarrow> allocatable (devices pm) i"
  shows "Allocate pm reqs = Some (Inr (List.map (\<lambda>k. [(''intel.com/l3_cache_ways'',
      concat (List.map (id_text (devices pm)) (concat (take (Suc k) reqs))))]) [0..<length reqs]))"
  using allocate_loop_ok [OF assms, of reqs] by (simp add: Allocate_def resourceName_def)

theorem Allocate_accumulates_witness:
  "Allocate \<lparr>rmdClient = NewDefaultOperatorRmdClient,
      devices = [(''00'', \<lparr>devID = ''00'', Health = Healthy, numaNodes = [0]\<rparr>),
                 (''01'', \<lparr>devID = ''01'', Health = Healthy, numaNodes = [0]\<rparr>)]\<rparr> [[''00''], [''01'']] =
    Some (Inr [[(''intel.com/l3_cache_ways'', ''{00, 0}'')], [(''intel.com/l3_cache_ways'', ''{00, 0}{01, 0}'')]])"
proof -
  let ?pm = "\<lparr>rmdClient = NewDefaultOperatorRmdClient,
      devices = [(''00'', \<lparr>devID = ''00'', Health = Healthy, numaNodes = [0]\<rparr>),
                 (''01'', \<lparr>devID = ''01'', Health = Healthy, numaNodes = [0]\<rparr>)]\<rparr>"
  have "Itoa 0 = ''0''" by code_simp
  moreover have "on_nodes (devices ?pm)" by (simp add: on_nodes_def)
  moreover have "allocatable (devices ?pm) i" if "i \<in> set (concat [[''00''], [''01'']])" for i
    using that by (auto simp: allocatable_def)
  ultimately show ?thesis
    by (subst Allocate_accumulates) (simp_all add: id_text_def upt_conv_Cons)
qed

text \<open>
  (C35) After a discovery that succeeded, whatever the plugin held before, no allocation request
  panics; it is granted exactly when every requested id is the id of a device, and else
  refused with the name of the first id that is not. A discovery that fails keeps the devices.
\<close>

theorem discovered_devices_allocatable:
  assumes "discoverResources env pm h = Some ((err, pm'), h')"
  shows "if err = None
    then \<forall>reqs. case Allocate pm' reqs of
        None \<Rightarrow> False
      | Some (Inr resps) \<Rightarrow> set (concat reqs) \<subseteq> fst ` set (devices pm') \<and> length resps = length reqs
      | Some (Inl e) \<Rightarrow> \<exists>us i vs. concat reqs = us @ i # vs \<and> set us \<subseteq> fst ` set (devices pm') \<and>
          i \<notin> fst ` set (devices pm') \<and>
          e = GoError (''Error. Invalid allocation request with non-existing device '' @ i)
    else pm' = pm"
proof (cases err)
  case None
  with assms obtain devs where g: "GetGuaranteedCacheWayPools env (rmdClient pm) h = Some (Inr devs, h')"
    and pm': "devices pm' = devs"
    by (auto simp: discoverResources_def split: Option.bind_splits sum.splits)
  obtain caches h1 where i: "GetInfos env (local_address (rmdClient pm)) h = (Inr caches, h1)"
    using g by (auto simp: GetGuaranteedCacheWayPools_def split: prod.splits sum.splits Option.bind_splits)
  from i g have loop: "pools_loop env caches [] = Some (Inr devs)"
    by (auto simp: GetGuaranteedCacheWayPools_def split: Option.bind_splits)
  have ok: "devices_ok devs" by (rule pools_loop_ok [OF loop]) simp
  then have on: "on_nodes devs"
    unfolding on_nodes_def devices_ok_def device_ok_def by (auto dest!: map_of_SomeD)
  have al: "allocatable devs j \<longleftrightarrow> j \<in> fst ` set devs" for j
    using ok by (auto simp: allocatable_def devices_ok_def device_ok_def map_of_eq_None_iff
        dest!: map_of_SomeD intro: rev_image_eqI split: option.splits)
  have "case Allocate pm' reqs of
        None \<Rightarrow> False
      | Some (Inr resps) \<Rightarrow> set (concat reqs) \<subseteq> fst ` set (devices pm') \<and> length resps = length reqs
      | Some (Inl e) \<Rightarrow> \<exists>us i vs. concat reqs = us @ i # vs \<and> set us \<subseteq> fst ` set (devices pm') \<and>
          i \<notin> fst ` set (devices pm') \<and>
          e = GoError (''Error. Invalid allocation request with non-existing device '' @ i)" for reqs
  proof (cases "set (concat reqs) \<subseteq> fst ` set devs")
    case True
    have "allocatable devs j" if "j \<in> set (concat reqs)" for j using that True al by blast
    from allocate_loop_ok [OF on this, where reqs = reqs and ids = "''''"] True pm' show ?thesis by (simp add: Allocate_def)
  next
    case False
    then obtain r where r: "\<not> set r \<subseteq> fst ` set devs" "r \<in> set reqs" by auto
    from split_list_first_prop [of reqs "\<lambda>r. \<not> set r \<subseteq> fst ` set devs"] r
    obtain rs r' rest where rs: "reqs = rs @ r' # rest" "\<not> set r' \<subseteq> fst ` set devs"
      "\<forall>r \<in> set rs. set r \<subseteq> fst ` set devs" by blast
    from split_list_first_prop [of r' "\<lambda>j. j \<notin> fst ` set devs"] rs(2)
    obtain us j vs where j: "r' = us @ j # vs" "j \<notin> fst ` set devs" "\<forall>u \<in> set us. u \<in> fst ` set devs" by blast
    have "allocatable devs u" if "u \<in> set (concat rs @ us)" for u using that rs(3) j(3) al by auto
    from allocate_loop_bad [OF on this, where reqs = rs and us = us and i = j and vs = vs and rest = rest and ids = "''''"] j(2) al
    have "Allocate pm' reqs = Some (Inl (refusal devs j))" by (simp add: Allocate_def pm' rs(1) j(1))
    moreover from j(2) have "map_of devs j = None" by (simp add: map_of_eq_None_iff)
    moreover have "concat reqs = (concat rs @ us) @ j # vs @ concat rest" using rs(1) j(1) by simp
    moreover have "set (concat rs @ us) \<subseteq> fst ` set devs" using rs(3) j(3) by auto
    ultimately show ?thesis using j(2) pm'
      by (simp add: refusal_def)
        (intro exI [of _ "concat rs @ us"] exI [of _ j] exI [of _ "vs @ concat rest"], auto)
  qed
  with None show ?thesis by simp
next
  case (Some e)
  with assms show ?thesis by (auto simp: discoverResources_def split: Option.bind_splits sum.splits)
qed

theorem discovered_devices_allocatable_witness:
  "\<exists>pm. fst ` set (devices pm) = {''00'', ''01''} \<and>
     (case Allocate pm [[''00''], [''02'']] of
        Some (Inl e) \<Rightarrow> e = GoError ''Error. Invalid allocation request with non-existing device 02'' | _ \<Rightarrow> False)"
proof -
  let ?d = "discoverResources demo_env (newPluginManager NewDefaultOperatorRmdClient) []"
  have "map_option (\<lambda>((e, pm), h). (e, List.map fst (devices pm))) ?d = Some (None, [''00'', ''01''])"
    by code_simp
  then obtain pm h' where d: "?d = Some ((None, pm), h')" and devs: "List.map fst (devices pm) = [''00'', ''01'']"
    by auto
  from arg_cong [OF devs, of set] have ids: "fst ` set (devices pm) = {''00'', ''01''}" by simp
  from discovered_devices_allocatable [OF d] have
    "case Allocate pm [[''00''], [''02'']] of
        None \<Rightarrow> False
      | Some (Inr resps) \<Rightarrow> set (concat [[''00''], [''02'']]) \<subseteq> fst ` set (devices pm) \<and>
          length resps = length [[''00''], [''02'']]
      | Some (Inl e) \<Rightarrow> \<exists>us i vs. concat [[''00''], [''02'']] = us @ i # vs \<and> set us \<subseteq> fst ` set (devices pm) \<and>
          i \<notin> fst ` set (devices pm) \<and>
          e = GoError (''Error. Invalid allocation request with non-existing device '' @ i)"
    by (simp only: simp_thms if_True)
  with ids show ?thesis
    by (intro exI [of _ pm]) (auto simp: Cons_eq_append_conv split: option.splits sum.splits)
qed

section \<open>ListAndWatch\<close>

text \<open>The devices after a check of their states.\<close>

definition healed :: "Device smap \<Rightarrow> Device smap" where
  "healed devs = List.map (\<lambda>(i, d). (i, d\<lparr>Health := Healthy\<rparr>)) devs"

lemma health_loop_eq:
  "health_loop devs changed = (changed \<or> (\<exists>kd \<in> set devs. Health (snd kd) \<noteq> Healthy), healed devs)"
  by (induction devs arbitrary: changed) (auto simp: Let_def GetDeviceState_def healed_def)

lemma healed_healthy: "kd \<in> set (healed devs) \<Longrightarrow> Health (snd kd) = Healthy"
  by (auto simp: healed_def)

lemma healed_idem [simp]: "healed (healed devs) = healed devs"
  by (simp add: healed_def case_prod_beta)

lemma watch_loop_quiet:
  assumes "devices pm = healed devs"
  shows "watch_loop order send fuel False pm sent = (None, sent, pm)"
proof (induction fuel)
  case 0
  then show ?case by simp
next
  case (Suc fuel)
  have "health_loop (devices pm) False = (False, devices pm)"
    using healed_healthy [of _ devs] by (auto simp: health_loop_eq assms)
  with Suc show ?case by simp
qed

text \<open>
  However many rounds the stream runs, the kubelet is told the devices once: all of them,
  all healthy, in the first round. The stream ends only with the error of that one message;
  devices discovered later are never sent. The devices are left healthy.
\<close>

theorem ListAndWatch_sends_once:
  "ListAndWatch order send (Suc fuel) pm =
     (send 0, [List.map snd (order (healed (devices pm)))], pm\<lparr>devices := healed (devices pm)\<rparr>)"
  using watch_loop_quiet [of "pm\<lparr>devices := healed (devices pm)\<rparr>" "devices pm"]
  by (auto simp: ListAndWatch_def health_loop_eq Let_def split: option.splits)

end
