(* ===== verification/Endpoint.thy ===== *)
theory Endpoint
  imports Go_Base
begin

text \<open>
  The socket helpers of \<open>pkg/util/util.go\<close> and the client construction of
  \<open>pkg/podresourcesclient\<close> that uses them. An operation on the file system or a socket is a call
  that is recorded in a trace and answered by the environment; \<open>url.Parse\<close>, the quoting of
  \<open>%q\<close> and \<open>filepath.Dir\<close> are parameters.
\<close>

section \<open>Calls\<close>

datatype os_error = NotExist string | OsError string

datatype os_call =
    Unlink string
  | MkdirAll string
  | TempFile string
  | RemoveFile string
  | Listen string string
  | RenameFile string string
  | DialGrpc string

record URL =
  urlScheme :: string
  urlHost :: string
  urlPath :: string

record os_env =
  os_answer :: "os_call list \<Rightarrow> os_call \<Rightarrow> os_error option"
  temp_name :: "os_call list \<Rightarrow> string"
  url_parse :: "string \<Rightarrow> gerr + URL"
  quote :: "string \<Rightarrow> string"
  path_dir :: "string \<Rightarrow> string"

fun IsNotExist :: "os_error \<Rightarrow> bool" where
  "IsNotExist (NotExist _) = True"
| "IsNotExist (OsError _) = False"

fun error_text :: "os_error \<Rightarrow> string" where
  "error_text (NotExist s) = s"
| "error_text (OsError s) = s"

section \<open>Endpoints\<close>

definition unixProtocol :: string where
  "unixProtocol = ''unix''"

text \<open>The three results of the Go function: protocol, address and error.\<close>

definition parseEndpoint :: "os_env \<Rightarrow> string \<Rightarrow> string \<times> string \<times> gerr option" where
  "parseEndpoint oe endpoint =
     (case url_parse oe endpoint of
        Inl err \<Rightarrow> ('''', '''', Some err)
      | Inr u \<Rightarrow>
          if urlScheme u = ''tcp'' then (''tcp'', urlHost u, None)
          else if urlScheme u = ''unix'' then (''unix'', urlPath u, None)
          else if urlScheme u = '''' then
            ('''', '''', Some (GoError (''using '' @ quote oe endpoint
               @ '' as endpoint is deprecated, please consider using full url format'')))
          else (urlScheme u, '''', Some (GoError (''protocol '' @ quote oe (urlScheme u) @ '' not supported''))))"

definition parseEndpointWithFallbackProtocol ::
  "os_env \<Rightarrow> string \<Rightarrow> string \<Rightarrow> string \<times> string \<times> gerr option"
where
  "parseEndpointWithFallbackProtocol oe endpoint fallbackProtocol =
     (case parseEndpoint oe endpoint of (protocol, addr, err) \<Rightarrow>
      if err \<noteq> None \<and> protocol = '''' then
        let fallbackEndpoint = fallbackProtocol @ ''://'' @ endpoint
        in parseEndpoint oe fallbackEndpoint
      else (protocol, addr, err))"

definition only_unix :: gerr where
  "only_unix = GoError ''only support unix socket endpoint''"

text \<open>The dialer that is returned beside the address always dials the protocol \<open>unix\<close>.\<close>

definition GetAddressAndDialer :: "os_env \<Rightarrow> string \<Rightarrow> gerr + string" where
  "GetAddressAndDialer oe endpoint =
     (case parseEndpointWithFallbackProtocol oe endpoint unixProtocol of (protocol, addr, err) \<Rightarrow>
      case err of
        Some e \<Rightarrow> Inl e
      | None \<Rightarrow> if protocol \<noteq> unixProtocol then Inl only_unix else Inr addr)"

text \<open>The result is the name the listener is reachable under.\<close>

definition CreateListener :: "os_env \<Rightarrow> string \<Rightarrow> os_call list \<Rightarrow> (gerr + string) \<times> os_call list" where
  "CreateListener oe endpoint h =
     (case parseEndpointWithFallbackProtocol oe endpoint unixProtocol of (protocol, addr, err) \<Rightarrow>
      case err of
        Some e \<Rightarrow> (Inl e, h)
      | None \<Rightarrow>
        if protocol \<noteq> unixProtocol then (Inl only_unix, h)
        else
          let unlinked = os_answer oe h (Unlink addr); h1 = h @ [Unlink addr] in
          if unlinked \<noteq> None \<and> \<not> IsNotExist (the unlinked) then
            (Inl (GoError (''failed to unlink socket file '' @ quote oe addr @ '': '' @ error_text (the unlinked))), h1)
          else
            let dir = path_dir oe addr;
                made = os_answer oe h1 (MkdirAll dir); h2 = h1 @ [MkdirAll dir] in
            case made of
              Some e \<Rightarrow> (Inl (GoError (''error creating socket directory '' @ quote oe dir @ '': '' @ error_text e)), h2)
            | None \<Rightarrow>
              let file = temp_name oe h2;
                  created = os_answer oe h2 (TempFile dir); h3 = h2 @ [TempFile dir] in
              case created of
                Some e \<Rightarrow> (Inl (GoError (''failed to create temporary file: '' @ error_text e)), h3)
              | None \<Rightarrow>
                let removed = os_answer oe h3 (RemoveFile file); h4 = h3 @ [RemoveFile file] in
                case removed of
                  Some e \<Rightarrow> (Inl (GoError (''failed to remove temporary file: '' @ error_text e)), h4)
                | None \<Rightarrow>
                  let listened = os_answer oe h4 (Listen protocol file); h5 = h4 @ [Listen protocol file] in
                  case listened of
                    Some e \<Rightarrow> (Inl (GoError (error_text e)), h5)
                  | None \<Rightarrow>
                    let renamed = os_answer oe h5 (RenameFile file addr); h6 = h5 @ [RenameFile file addr] in
                    case renamed of
                      Some e \<Rightarrow> (Inl (GoError (''failed to move temporary file to addr '' @ quote oe addr
                                  @ '': '' @ error_text e)), h6)
                    | None \<Rightarrow> (Inr addr, h6))"

section \<open>The client of the kubelet\<close>

definition podResourcesSocket :: string where
  "podResourcesSocket = ''unix:///var/lib/kubelet/pod-resources/kubelet.sock''"

definition getV1Client :: "os_env \<Rightarrow> string \<Rightarrow> os_call list \<Rightarrow> (gerr + string) \<times> os_call list" where
  "getV1Client oe endpoint h =
     (case GetAddressAndDialer oe endpoint of
        Inl err \<Rightarrow> (Inl err, h)
      | Inr addr \<Rightarrow>
          let h' = h @ [DialGrpc addr] in
          case os_answer oe h (DialGrpc addr) of
            Some e \<Rightarrow> (Inl (ServiceUnavailable (''error dialing socket '' @ endpoint @ '': '' @ error_text e)), h')
          | None \<Rightarrow> (Inr addr, h'))"

definition NewPodResourcesClient :: "os_env \<Rightarrow> os_call list \<Rightarrow> (gerr + string) \<times> os_call list" where
  "NewPodResourcesClient oe h =
     (case getV1Client oe podResourcesSocket h of
        (Inl err, h') \<Rightarrow> (Inl (ServiceUnavailable ''failed to create podresouces client''), h')
      | (Inr client, h') \<Rightarrow> (Inr client, h'))"

end
