(* ===== verification/Processes.thy ===== *)
theory Processes
  imports Endpoint Device_Plugin
begin

text \<open>
  The three programs from their \<open>main\<close> functions on: \<open>cmd/manager/main.go\<close>,
  \<open>cmd/nodeagent/main.go\<close>, the registration of the controllers and their watches
  (\<open>pkg/controller\<close>, \<open>pkg/nodeagent\<close>), and the server side of \<open>cmd/deviceplugin/main.go\<close>.

  Every call of the SDK, of controller-runtime or of gRPC is recorded in a trace and answered
  by the environment: it succeeds, fails with an error, or never returns. Flags are parsed,
  but not modelled further; logging is left out.
\<close>

section \<open>Calls\<close>

datatype start_error = ErrRunLocal | StartError string | RmdError gerr

datatype answer = Success | Failure start_error | Blocked

datatype watch = Primary string | OwnedBy string string

datatype process_call =
    ParseFlags
  | GetWatchNamespace
  | GetConfig
  | BecomeLeader string
  | NewManager string string
  | AddToScheme
  | AddIntelToScheme
  | NewController string bool
  | Watch string watch
  | GetGVKs
  | GetOperatorNamespace
  | GenerateAndServeCRMetrics "string list" string int
  | CreateMetricsService "int list"
  | CreateServiceMonitors string bool
  | StartManager
  | RemoveSocket string
  | ListenUnix string
  | Serve
  | DialPlugin string
  | DialKubelet string
  | RegisterPlugin string string
  | AwaitSignal
  | StopServer

record process_env =
  answer_of :: "process_call list \<Rightarrow> process_call \<Rightarrow> answer"
  watch_namespace :: string
  operator_namespace :: string
  is_not_exist :: "start_error \<Rightarrow> bool"

text \<open>How a function that returns an error ends: with \<open>nil\<close>, with an error, or not at all.\<close>

datatype ending = Done | Failed start_error | Stuck

text \<open>A sequence of calls each of which is followed by \<open>if err != nil { return err }\<close>.\<close>

fun try_calls :: "process_env \<Rightarrow> process_call list \<Rightarrow> process_call list \<Rightarrow> ending \<times> process_call list" where
  "try_calls pe [] h = (Done, h)"
| "try_calls pe (c # cs) h =
     (case answer_of pe h c of
        Success \<Rightarrow> try_calls pe cs (h @ [c])
      | Failure e \<Rightarrow> (Failed e, h @ [c])
      | Blocked \<Rightarrow> (Stuck, h @ [c]))"

text \<open>How a process ends: with an exit code, by the return of \<open>main\<close>, or not at all.\<close>

datatype outcome = Exit nat | Returned | Hanging

text \<open>A part of \<open>main\<close> whose error ends the process with a code.\<close>

definition or_exit ::
  "nat \<Rightarrow> ending \<times> process_call list \<Rightarrow> (process_call list \<Rightarrow> outcome \<times> process_call list) \<Rightarrow>
    outcome \<times> process_call list"
where
  "or_exit code r k =
     (case r of
        (Done, h) \<Rightarrow> k h
      | (Failed e, h) \<Rightarrow> (Exit code, h)
      | (Stuck, h) \<Rightarrow> (Hanging, h))"

section \<open>The registration of the controllers\<close>

definition add_rmdconfig :: "process_env \<Rightarrow> process_call list \<Rightarrow> ending \<times> process_call list" where
  "add_rmdconfig pe = try_calls pe
     [NewController ''rmdconfig-controller'' True,
      Watch ''rmdconfig-controller'' (Primary ''RmdConfig''),
      Watch ''rmdconfig-controller'' (OwnedBy ''DaemonSet'' ''RmdConfig''),
      Watch ''rmdconfig-controller'' (OwnedBy ''RmdNodeState'' ''RmdConfig'')]"

definition add_rmdnodestate :: "process_env \<Rightarrow> process_call list \<Rightarrow> ending \<times> process_call list" where
  "add_rmdnodestate pe = try_calls pe
     [NewController ''rmdnodestate-controller'' True,
      Watch ''rmdnodestate-controller'' (Primary ''RmdNodeState''),
      Watch ''rmdnodestate-controller'' (OwnedBy ''Pod'' ''RmdNodeState'')]"

definition add_rmdworkload :: "process_env \<Rightarrow> process_call list \<Rightarrow> ending \<times> process_call list" where
  "add_rmdworkload pe = try_calls pe
     [NewController ''rmdworkload-controller'' True,
      Watch ''rmdworkload-controller'' (Primary ''RmdWorkload''),
      Watch ''rmdworkload-controller'' (OwnedBy ''Pod'' ''RmdWorkload'')]"

text \<open>
  The reconciler of the node agent is \<open>nil\<close> when the client of the kubelet could not be made;
  \<open>client\<close> is what \<open>NewPodResourcesClient\<close> returned.
\<close>

definition add_pod ::
  "process_env \<Rightarrow> gerr + string \<Rightarrow> process_call list \<Rightarrow> ending \<times> process_call list"
where
  "add_pod pe client = try_calls pe
     [NewController ''pod-controller'' (\<not> isl client),
      Watch ''pod-controller'' (Primary ''Pod''),
      Watch ''pod-controller'' (OwnedBy ''RmdWorkload'' ''Pod'')]"

text \<open>\<open>AddToManager\<close> of both packages: the functions registered by \<open>init\<close>, until one fails.\<close>

fun AddToManager ::
  "(process_call list \<Rightarrow> ending \<times> process_call list) list \<Rightarrow> process_call list \<Rightarrow> ending \<times> process_call list"
where
  "AddToManager [] h = (Done, h)"
| "AddToManager (f # fs) h =
     (case f h of
        (Done, h') \<Rightarrow> AddToManager fs h'
      | (Failed e, h') \<Rightarrow> (Failed e, h')
      | (Stuck, h') \<Rightarrow> (Stuck, h'))"

text \<open>The order of the \<open>init\<close> functions of a package is that of its file names.\<close>

definition AddToManagerFuncs :: "process_env \<Rightarrow> (process_call list \<Rightarrow> ending \<times> process_call list) list" where
  "AddToManagerFuncs pe = [add_rmdconfig pe, add_rmdnodestate pe, add_rmdworkload pe]"

section \<open>Metrics\<close>

definition metricsHost :: string where
  "metricsHost = ''0.0.0.0''"

definition metricsPort :: int where
  "metricsPort = 8383"

definition agentMetricsPort :: int where
  "agentMetricsPort = 8384"

definition operatorMetricsPort :: int where
  "operatorMetricsPort = 8686"

definition metricsAddress :: "int \<Rightarrow> string" where
  "metricsAddress port = metricsHost @ '':'' @ show_int port"

definition serveCRMetrics :: "process_env \<Rightarrow> process_call list \<Rightarrow> ending \<times> process_call list" where
  "serveCRMetrics pe = try_calls pe
     [GetGVKs, GetOperatorNamespace,
      GenerateAndServeCRMetrics [operator_namespace pe] metricsHost operatorMetricsPort]"

text \<open>
  No error of the metrics ends the process; outside a cluster nothing more is created. The
  service passed on is missing when it could not be created.
\<close>

definition add_metrics :: "process_env \<Rightarrow> int \<Rightarrow> process_call list \<Rightarrow> ending \<times> process_call list" where
  "add_metrics pe port h =
     (case serveCRMetrics pe h of
        (Stuck, h1) \<Rightarrow> (Stuck, h1)
      | (r, h1) \<Rightarrow>
        if r = Failed ErrRunLocal then (Done, h1)
        else
          let created = answer_of pe h1 (CreateMetricsService [port, operatorMetricsPort]);
              h2 = h1 @ [CreateMetricsService [port, operatorMetricsPort]] in
          if created = Blocked then (Stuck, h2)
          else
            let monitored = answer_of pe h2 (CreateServiceMonitors (watch_namespace pe) (created = Success));
                h3 = h2 @ [CreateServiceMonitors (watch_namespace pe) (created = Success)] in
            if monitored = Blocked then (Stuck, h3) else (Done, h3))"

definition addMetrics :: "process_env \<Rightarrow> process_call list \<Rightarrow> ending \<times> process_call list" where
  "addMetrics pe = add_metrics pe metricsPort"

section \<open>The operator\<close>

definition operatorLock :: string where
  "operatorLock = ''intel-rmd-operator-lock''"

text \<open>
  \<open>rc\<close> is the result of \<open>rmd.NewClient\<close>, \<open>None\<close> its panic, which ends the process with code 2.
\<close>

definition manager_main ::
  "process_env \<Rightarrow> OperatorRmdClient option \<Rightarrow> process_call list \<Rightarrow> outcome \<times> process_call list"
where
  "manager_main pe rc h =
     or_exit 2 (try_calls pe [ParseFlags] h) (\<lambda>h.
     or_exit 1 (try_calls pe
       [GetWatchNamespace, GetConfig, BecomeLeader operatorLock, NewManager (watch_namespace pe) (metricsAddress metricsPort), AddToScheme] h) (\<lambda>h.
     case rc of
       None \<Rightarrow> (Exit 2, h)
     | Some client \<Rightarrow>
     or_exit 1 (AddToManager (AddToManagerFuncs pe) h) (\<lambda>h.
     or_exit 1 (addMetrics pe h) (\<lambda>h.
     or_exit 1 (try_calls pe [StartManager] h) (\<lambda>h. (Returned, h))))))"

section \<open>The node agent\<close>

text \<open>The metrics of \<open>cmd/nodeagent/main.go\<close> are the same code with a port of their own.\<close>

definition agent_addMetrics :: "process_env \<Rightarrow> process_call list \<Rightarrow> ending \<times> process_call list" where
  "agent_addMetrics pe = add_metrics pe agentMetricsPort"

definition nodeAgentLock :: string where
  "nodeAgentLock = ''intel-rmd-cat-node-agent-lock''"

text \<open>The package \<open>nodeagent\<close> repeats \<open>AddToManager\<close> and registers the one controller.\<close>

definition agent_AddToManagerFuncs ::
  "process_env \<Rightarrow> gerr + string \<Rightarrow> (process_call list \<Rightarrow> ending \<times> process_call list) list"
where
  [simp]: "agent_AddToManagerFuncs pe client = [add_pod pe client]"

definition agent_AddToManager ::
  "(process_call list \<Rightarrow> ending \<times> process_call list) list \<Rightarrow> process_call list \<Rightarrow> ending \<times> process_call list"
where
  [simp]: "agent_AddToManager = AddToManager"

definition nodeagent_main ::
  "process_env \<Rightarrow> gerr + string \<Rightarrow> process_call list \<Rightarrow> outcome \<times> process_call list"
where
  "nodeagent_main pe client h =
     or_exit 2 (try_calls pe [ParseFlags] h) (\<lambda>h.
     or_exit 1 (try_calls pe
       [GetWatchNamespace, GetConfig, BecomeLeader nodeAgentLock, NewManager (watch_namespace pe) (metricsAddress agentMetricsPort), AddToScheme,
        AddIntelToScheme] h) (\<lambda>h.
     or_exit 1 (agent_AddToManager (agent_AddToManagerFuncs pe client) h) (\<lambda>h.
     or_exit 1 (agent_addMetrics pe h) (\<lambda>h.
     or_exit 1 (try_calls pe [StartManager] h) (\<lambda>h. (Returned, h))))))"

section \<open>The device plugin\<close>

definition socketFile :: string where
  "socketFile = ''rmddp.sock''"

definition pluginEndpoint :: string where
  "pluginEndpoint = ''/var/lib/kubelet/device-plugins/'' @ socketFile"

definition kubeletSocket :: string where
  "kubeletSocket = ''/var/lib/kubelet/device-plugins/kubelet.sock''"

definition cleanup :: "process_env \<Rightarrow> process_call list \<Rightarrow> ending \<times> process_call list" where
  "cleanup pe h =
     (let h' = h @ [RemoveSocket pluginEndpoint] in
      case answer_of pe h (RemoveSocket pluginEndpoint) of
        Success \<Rightarrow> (Done, h')
      | Failure e \<Rightarrow> (if is_not_exist pe e then Done else Failed e, h')
      | Blocked \<Rightarrow> (Stuck, h'))"

text \<open>\<open>discovered\<close> is the result of \<open>discoverResources\<close>. The error of \<open>net.Listen\<close> is only logged.\<close>

definition StartPlugin ::
  "process_env \<Rightarrow> gerr option \<Rightarrow> process_call list \<Rightarrow> ending \<times> process_call list"
where
  "StartPlugin pe discovered h =
     (case discovered of
        Some err \<Rightarrow> (Failed (RmdError err), h)
      | None \<Rightarrow>
        let h1 = h @ [ListenUnix pluginEndpoint] in
        if answer_of pe h (ListenUnix pluginEndpoint) = Blocked then (Stuck, h1)
        else try_calls pe [DialPlugin pluginEndpoint] (h1 @ [Serve]))"

definition StopPlugin :: "process_env \<Rightarrow> process_call list \<Rightarrow> ending \<times> process_call list" where
  "StopPlugin pe h =
     (case cleanup pe h of
        (Done, h') \<Rightarrow> try_calls pe [StopServer] h'
      | (r, h') \<Rightarrow> (r, h'))"

definition Register :: "process_env \<Rightarrow> process_call list \<Rightarrow> ending \<times> process_call list" where
  "Register pe = try_calls pe [DialKubelet kubeletSocket, RegisterPlugin socketFile resourceName]"

text \<open>
  The errors of the first \<open>cleanup\<close> and of \<open>Stop\<close> are dropped; a failed start or registration
  returns from \<open>main\<close> without stopping the server. \<open>rc\<close> is the client \<open>newPluginManager\<close> makes,
  \<open>None\<close> its panic; \<open>discovered\<close> is \<open>None\<close> when the discovery ended the process, which
  \<open>MustParse\<close> does with code 255.
\<close>

definition plugin_main ::
  "process_env \<Rightarrow> OperatorRmdClient option \<Rightarrow> (pluginManager \<Rightarrow> gerr option option) \<Rightarrow> process_call list \<Rightarrow>
    outcome \<times> process_call list"
where
  "plugin_main pe rc discover h =
     (case rc of
        None \<Rightarrow> (Exit 2, h)
      | Some client \<Rightarrow>
        case cleanup pe h of
          (Stuck, h1) \<Rightarrow> (Hanging, h1)
        | (_, h1) \<Rightarrow>
          case discover (newPluginManager client) of
            None \<Rightarrow> (Exit 255, h1)
          | Some disc \<Rightarrow>
            case StartPlugin pe disc h1 of
              (Stuck, h2) \<Rightarrow> (Hanging, h2)
            | (Failed e, h2) \<Rightarrow> (Returned, h2)
            | (Done, h2) \<Rightarrow>
              case Register pe h2 of
                (Stuck, h3) \<Rightarrow> (Hanging, h3)
              | (Failed e, h3) \<Rightarrow> (Returned, h3)
              | (Done, h3) \<Rightarrow>
                if answer_of pe h3 AwaitSignal = Blocked then (Hanging, h3 @ [AwaitSignal])
                else case StopPlugin pe (h3 @ [AwaitSignal]) of
                  (Stuck, h4) \<Rightarrow> (Hanging, h4)
                | (_, h4) \<Rightarrow> (Returned, h4))"

end
