(* ===== verification/Process_Props.thy ===== *)
theory Process_Props
  imports Processes Node_Agent_Props "HOL-Library.Sublist"
begin

text \<open>
  Properties of the start of the programs (\<open>cmd\<close>) and of the socket helpers (\<open>pkg/util\<close>): the
  order of the start, what a failing call leaves undone, which node agents run at all, which
  endpoints are accepted, and the calls of \<open>CreateListener\<close>.
\<close>

section \<open>Sequences of calls\<close>

definition all_succeed :: "process_env \<Rightarrow> process_call list \<Rightarrow> process_call list \<Rightarrow> bool" where
  "all_succeed pe h cs \<longleftrightarrow> (\<forall>i < length cs. answer_of pe (h @ take i cs) (cs ! i) = Success)"

lemma all_succeed_Nil [simp]: "all_succeed pe h []"
  by (simp add: all_succeed_def)

lemma all_succeed_Cons [simp]:
  "all_succeed pe h (c # cs) \<longleftrightarrow> answer_of pe h c = Success \<and> all_succeed pe (h @ [c]) cs"
  unfolding all_succeed_def by (auto simp: nth_Cons take_Cons' less_Suc_eq_0_disj split: nat.splits)

lemma all_succeed_append:
  "all_succeed pe h (cs @ ds) \<longleftrightarrow> all_succeed pe h cs \<and> all_succeed pe (h @ cs) ds"
  by (induction cs arbitrary: h) auto

lemma try_calls_Done:
  "try_calls pe cs h = (Done, h') \<longleftrightarrow> h' = h @ cs \<and> all_succeed pe h cs"
  by (induction cs arbitrary: h) (auto split: answer.splits)

text \<open>What was called: a prefix of the sequence, the calls before the last one with success.\<close>

lemma try_calls_prefix:
  "try_calls pe cs h = (r, h') \<Longrightarrow> \<exists>ds. prefix ds cs \<and> h' = h @ ds \<and> (r = Done \<longleftrightarrow> all_succeed pe h cs) \<and>
     (r \<noteq> Done \<longrightarrow> ds \<noteq> [] \<and> all_succeed pe h (butlast ds))"
proof (induction cs arbitrary: h)
  case Nil
  then show ?case by auto
next
  case (Cons c cs)
  show ?case
  proof (cases "answer_of pe h c")
    case Success
    with Cons.prems have "try_calls pe cs (h @ [c]) = (r, h')" by simp
    from Cons.IH [OF this] obtain ds where "prefix ds cs" "h' = (h @ [c]) @ ds"
      "r = Done \<longleftrightarrow> all_succeed pe (h @ [c]) cs" "r \<noteq> Done \<longrightarrow> ds \<noteq> [] \<and> all_succeed pe (h @ [c]) (butlast ds)" by auto
    with Success show ?thesis by (intro exI [of _ "c # ds"]) auto
  next
    case (Failure e)
    with Cons.prems show ?thesis by (intro exI [of _ "[c]"]) auto
  next
    case Blocked
    with Cons.prems show ?thesis by (intro exI [of _ "[c]"]) auto
  qed
qed

text \<open>Registering controllers is trying the calls of all of them in a row.\<close>

lemma try_calls_append:
  "try_calls pe (cs @ ds) h = (case try_calls pe cs h of (Done, h') \<Rightarrow> try_calls pe ds h' | r \<Rightarrow> r)"
  by (induction cs arbitrary: h) (auto split: answer.splits)

lemma AddToManager_try:
  "AddToManager (List.map (try_calls pe) css) h = try_calls pe (concat css) h"
  by (induction css arbitrary: h) (auto simp: try_calls_append split: prod.splits ending.splits)

definition controller_calls :: "process_call list list" where
  "controller_calls =
     [[NewController ''rmdconfig-controller'' True,
       Watch ''rmdconfig-controller'' (Primary ''RmdConfig''),
       Watch ''rmdconfig-controller'' (OwnedBy ''DaemonSet'' ''RmdConfig''),
       Watch ''rmdconfig-controller'' (OwnedBy ''RmdNodeState'' ''RmdConfig'')],
      [NewController ''rmdnodestate-controller'' True,
       Watch ''rmdnodestate-controller'' (Primary ''RmdNodeState''),
       Watch ''rmdnodestate-controller'' (OwnedBy ''Pod'' ''RmdNodeState'')],
      [NewController ''rmdworkload-controller'' True,
       Watch ''rmdworkload-controller'' (Primary ''RmdWorkload''),
       Watch ''rmdworkload-controller'' (OwnedBy ''Pod'' ''RmdWorkload'')]]"

lemma AddToManagerFuncs_eq: "AddToManagerFuncs pe = List.map (try_calls pe) controller_calls"
  by (simp add: AddToManagerFuncs_def add_rmdconfig_def [abs_def] add_rmdnodestate_def [abs_def]
      add_rmdworkload_def [abs_def] controller_calls_def)

text \<open>The calls of the metrics, and that their errors are dropped.\<close>

definition metrics_calls :: "process_env \<Rightarrow> int \<Rightarrow> process_call set" where
  "metrics_calls pe port = {GetGVKs, GetOperatorNamespace,
     GenerateAndServeCRMetrics [operator_namespace pe] metricsHost operatorMetricsPort,
     CreateMetricsService [port, operatorMetricsPort], CreateServiceMonitors (watch_namespace pe) True,
     CreateServiceMonitors (watch_namespace pe) False}"

lemma add_metrics_calls:
  assumes "add_metrics pe port h = (r, h')"
  shows "\<exists>ms. h' = h @ ms \<and> set ms \<subseteq> metrics_calls pe port \<and>
    (r = Done \<or> r = Stuck \<and> (\<exists>g c. c \<in> metrics_calls pe port \<and> answer_of pe g c = Blocked))"
proof -
  obtain s h1 where s: "serveCRMetrics pe h = (s, h1)" by fastforce
  from try_calls_prefix [OF s [unfolded serveCRMetrics_def]] obtain ds where ds: "h1 = h @ ds"
    "prefix ds [GetGVKs, GetOperatorNamespace,
      GenerateAndServeCRMetrics [operator_namespace pe] metricsHost operatorMetricsPort]" by auto
  then have sub: "set ds \<subseteq> metrics_calls pe port" using set_mono_prefix [OF ds(2)] by (auto simp: metrics_calls_def)
  have stuck: "\<exists>g c. c \<in> metrics_calls pe port \<and> answer_of pe g c = Blocked" if "s = Stuck"
    using s that by (auto simp: serveCRMetrics_def metrics_calls_def split: answer.splits)
  show ?thesis
    using assms s ds(1) sub stuck
    by (cases s) (fastforce simp: add_metrics_def Let_def metrics_calls_def split: if_splits)+
qed

section \<open>The operator\<close>

text \<open>The calls of the start, up to the registered controllers.\<close>

definition operator_startup :: "process_env \<Rightarrow> process_call list" where
  "operator_startup pe =
     [ParseFlags, GetWatchNamespace, GetConfig, BecomeLeader operatorLock, NewManager (watch_namespace pe) (metricsAddress metricsPort), AddToScheme] @
     concat controller_calls"

lemma or_exit_start:
  assumes "or_exit code (try_calls pe cs h) k = (r, h')"
  shows "(all_succeed pe h cs \<and> k (h @ cs) = (r, h')) \<or>
    ((r = Exit code \<or> r = Hanging) \<and> \<not> all_succeed pe h cs \<and> (\<exists>ds. prefix ds cs \<and> h' = h @ ds))"
proof -
  obtain s h1 where s: "try_calls pe cs h = (s, h1)" by fastforce
  from try_calls_prefix [OF s] assms s try_calls_Done [of pe cs h h1] show ?thesis
    by (cases s) (auto simp: or_exit_def)
qed

lemma or_exit_metrics:
  assumes "or_exit 1 (add_metrics pe port h) k = (r, h')"
  shows "\<exists>ms. set ms \<subseteq> metrics_calls pe port \<and>
    (k (h @ ms) = (r, h') \<or> r = Hanging \<and> h' = h @ ms \<and> (\<exists>g c. c \<in> metrics_calls pe port \<and> answer_of pe g c = Blocked))"
proof -
  obtain s h1 where s: "add_metrics pe port h = (s, h1)" by fastforce
  from add_metrics_calls [OF s] obtain ms where "h1 = h @ ms" "set ms \<subseteq> metrics_calls pe port"
    "s = Done \<or> s = Stuck \<and> (\<exists>g c. c \<in> metrics_calls pe port \<and> answer_of pe g c = Blocked)" by blast
  with assms s show ?thesis by (intro exI [of _ ms]) (auto simp: or_exit_def)
qed

text \<open>The manager after the metrics.\<close>

lemma start_after:
  assumes run: "or_exit 1 (add_metrics pe port h) (\<lambda>h. or_exit 1 (try_calls pe [StartManager] h) (\<lambda>h. (Returned, h))) = (r, h')"
  shows "\<exists>ms. set ms \<subseteq> metrics_calls pe port \<and>
    ((r \<in> {Returned, Hanging, Exit 1} \<and> h' = h @ ms @ [StartManager]) \<or>
     r = Hanging \<and> h' = h @ ms \<and> (\<exists>g c. c \<in> metrics_calls pe port \<and> answer_of pe g c = Blocked))"
proof -
  from or_exit_metrics [OF run] obtain ms where ms: "set ms \<subseteq> metrics_calls pe port"
    and "or_exit 1 (try_calls pe [StartManager] (h @ ms)) (\<lambda>h. (Returned, h)) = (r, h') \<or>
      r = Hanging \<and> h' = h @ ms \<and> (\<exists>g c. c \<in> metrics_calls pe port \<and> answer_of pe g c = Blocked)" by auto
  then show ?thesis
    by (intro exI [of _ ms]) (auto simp: or_exit_def split: answer.splits)
qed

text \<open>The skeleton both programs share; \<open>ok\<close> tells whether the client could be made.\<close>

lemma start_sequence:
  assumes "or_exit 2 (try_calls pe fs []) (\<lambda>h. or_exit 1 (try_calls pe st h) (\<lambda>h.
      if ok then or_exit 1 (try_calls pe cs h) rest else (Exit 2, h))) = (r, h)"
  shows "(all_succeed pe [] (fs @ st @ cs) \<and> ok \<and> rest (fs @ st @ cs) = (r, h)) \<or>
    (r \<in> {Hanging, Exit 1, Exit 2} \<and> prefix h (fs @ st @ cs) \<and> \<not> (all_succeed pe [] (fs @ st @ cs) \<and> ok))"
proof -
  let ?k2 = "\<lambda>h. if ok then or_exit 1 (try_calls pe cs h) rest else (Exit 2, h)"
  from or_exit_start [OF assms] consider
      (stop) ds where "prefix ds fs" "h = ds" "r \<in> {Exit 2, Hanging}" "\<not> all_succeed pe [] fs"
    | (on) "all_succeed pe [] fs" "or_exit 1 (try_calls pe st fs) ?k2 = (r, h)" by auto
  then show ?thesis
  proof cases
    case stop
    then show ?thesis by (auto simp: all_succeed_append intro: prefix_prefix)
  next
    case on
    from or_exit_start [OF on(2)] consider
        (stop) ds where "prefix ds st" "h = fs @ ds" "r \<in> {Exit 1, Hanging}" "\<not> all_succeed pe fs st"
      | (on) "all_succeed pe fs st" "?k2 (fs @ st) = (r, h)" by auto
    then show ?thesis
    proof cases
      case stop
      then show ?thesis by (auto simp: all_succeed_append intro: prefix_prefix)
    next
      case on2: on
      show ?thesis
      proof (cases ok)
        case False
        with on2 show ?thesis by auto
      next
        case True
        with on2 have "or_exit 1 (try_calls pe cs (fs @ st)) rest = (r, h)" by simp
        from or_exit_start [OF this] on(1) on2(1) True show ?thesis
          by (auto simp: all_succeed_append)
      qed
    qed
  qed
qed

lemma no_start_in_prefix: "prefix ds cs \<Longrightarrow> StartManager \<notin> set cs \<Longrightarrow> StartManager \<notin> set ds"
  by (auto dest: set_mono_prefix [THEN subsetD])

lemma startup_no_start [simp]: "StartManager \<notin> set (operator_startup pe)" "StartManager \<notin> metrics_calls pe port"
  by (simp_all add: operator_startup_def controller_calls_def metrics_calls_def)

text \<open>What a start with the calls \<open>cs\<close> comes to.\<close>

definition started :: "process_env \<Rightarrow> int \<Rightarrow> process_call list \<Rightarrow> bool \<Rightarrow> outcome \<Rightarrow> process_call list \<Rightarrow> bool" where
  "started pe port cs ok r h \<longleftrightarrow>
     (StartManager \<in> set h \<longrightarrow>
        all_succeed pe [] cs \<and> ok \<and> (\<exists>ms. set ms \<subseteq> metrics_calls pe port \<and> h = cs @ ms @ [StartManager])) \<and>
     (all_succeed pe [] cs \<and> ok \<and> (\<forall>g c. c \<in> metrics_calls pe port \<longrightarrow> answer_of pe g c \<noteq> Blocked) \<longrightarrow>
        StartManager \<in> set h) \<and>
     (r = Returned \<longrightarrow> StartManager \<in> set h) \<and> r \<in> {Returned, Hanging, Exit 1, Exit 2}"

lemma started_sequence:
  assumes "or_exit 2 (try_calls pe fs []) (\<lambda>h. or_exit 1 (try_calls pe st h) (\<lambda>h.
      if ok then or_exit 1 (try_calls pe cs h) (\<lambda>h.
        or_exit 1 (add_metrics pe port h) (\<lambda>h. or_exit 1 (try_calls pe [StartManager] h) (\<lambda>h. (Returned, h))))
      else (Exit 2, h))) = (r, h)"
    and no: "StartManager \<notin> set (fs @ st @ cs)"
  shows "started pe port (fs @ st @ cs) ok r h"
  using start_sequence [OF assms(1)]
proof
  assume "r \<in> {Hanging, Exit 1, Exit 2} \<and> prefix h (fs @ st @ cs) \<and> \<not> (all_succeed pe [] (fs @ st @ cs) \<and> ok)"
  with no_start_in_prefix [OF _ no, of h] show ?thesis by (auto simp: started_def)
next
  assume a: "all_succeed pe [] (fs @ st @ cs) \<and> ok \<and>
    or_exit 1 (add_metrics pe port (fs @ st @ cs)) (\<lambda>h. or_exit 1 (try_calls pe [StartManager] h) (\<lambda>h. (Returned, h))) = (r, h)"
  define c where "c = fs @ st @ cs"
  from a have "all_succeed pe [] c" ok
    and "or_exit 1 (add_metrics pe port c) (\<lambda>h. or_exit 1 (try_calls pe [StartManager] h) (\<lambda>h. (Returned, h))) = (r, h)"
    by (auto simp: c_def)
  moreover from start_after [OF this(3)] obtain ms where ms: "set ms \<subseteq> metrics_calls pe port"
    and "(r \<in> {Returned, Hanging, Exit 1} \<and> h = c @ ms @ [StartManager]) \<or>
     r = Hanging \<and> h = c @ ms \<and> (\<exists>g c. c \<in> metrics_calls pe port \<and> answer_of pe g c = Blocked)" by blast
  moreover have "StartManager \<notin> set (c @ ms)" using no ms by (auto simp: c_def)
  ultimately show ?thesis unfolding started_def c_def [symmetric] by auto
qed

text \<open>
  (C37) The start of the operator is strict: the manager, which runs the controllers, is started
  only after the flags, the namespace, the configuration, the lock, the manager, the scheme
  and all three controllers with their watches went through in this order, and the client was
  made; and then it is, whatever errors the metrics return. \<open>main\<close> returns only when the
  manager was started and stopped; every other end is an exit with code 1 or 2 or a call that
  never returns.
\<close>

theorem manager_start_order:
  assumes "manager_main pe rc [] = (r, h)"
  shows "started pe metricsPort (operator_startup pe) (rc \<noteq> None) r h"
proof -
  define fs where "fs = [ParseFlags]"
  define st where "st = [GetWatchNamespace, GetConfig, BecomeLeader operatorLock, NewManager (watch_namespace pe) (metricsAddress metricsPort), AddToScheme]"
  define cs where "cs = concat controller_calls"
  have split: "operator_startup pe = fs @ st @ cs" by (simp add: operator_startup_def fs_def st_def cs_def)
  have client: "(case rc of None \<Rightarrow> a | Some client \<Rightarrow> b) = (if rc \<noteq> None then b else a)"
    for a b :: "outcome \<times> process_call list" by (cases rc) simp_all
  have no: "StartManager \<notin> set (fs @ st @ cs)" unfolding split [symmetric] by simp
  from assms show ?thesis
    unfolding manager_main_def addMetrics_def AddToManagerFuncs_eq AddToManager_try client
      fs_def [symmetric] st_def [symmetric] cs_def [symmetric] split
    by (rule started_sequence) (rule no)
qed

theorem manager_start_order_witness:
  "let pe = \<lparr>answer_of = \<lambda>h c. if c = CreateMetricsService [8383, 8686] then Failure (StartError ''no service'') else Success,
       watch_namespace = '''', operator_namespace = ''default'', is_not_exist = \<lambda>e. False\<rparr> in
   \<exists>r h. manager_main pe (Some NewDefaultOperatorRmdClient) [] = (r, h) \<and>
     StartManager \<in> set h \<and> started pe metricsPort (operator_startup pe) True r h"
proof -
  let ?pe = "\<lparr>answer_of = \<lambda>h c. if c = CreateMetricsService [8383, 8686] then Failure (StartError ''no service'') else Success,
       watch_namespace = '''', operator_namespace = ''default'', is_not_exist = \<lambda>e. False\<rparr>"
  obtain r h where run: "manager_main ?pe (Some NewDefaultOperatorRmdClient) [] = (r, h)" by fastforce
  have "CreateMetricsService [8383, 8686] \<notin> set (operator_startup pe)" for pe
    by (simp add: operator_startup_def controller_calls_def)
  then have "operator_startup pe ! i \<noteq> CreateMetricsService [8383, 8686]" if "i < length (operator_startup pe)" for i pe
    using that nth_mem by fastforce
  then have "all_succeed ?pe [] (operator_startup ?pe)" by (simp add: all_succeed_def)
  with manager_start_order [OF run] have "StartManager \<in> set h" unfolding started_def by simp
  with manager_start_order [OF run] run show ?thesis unfolding Let_def by auto
qed

section \<open>The node agent\<close>

definition agent_startup :: "process_env \<Rightarrow> gerr + string \<Rightarrow> process_call list" where
  "agent_startup pe client =
     [ParseFlags, GetWatchNamespace, GetConfig, BecomeLeader nodeAgentLock, NewManager (watch_namespace pe) (metricsAddress agentMetricsPort), AddToScheme,
      AddIntelToScheme, NewController ''pod-controller'' (\<not> isl client),
      Watch ''pod-controller'' (Primary ''Pod''), Watch ''pod-controller'' (OwnedBy ''RmdWorkload'' ''Pod'')]"

lemma agent_main_sequence:
  "nodeagent_main pe client [] =
     or_exit 2 (try_calls pe (take 1 (agent_startup pe client)) []) (\<lambda>h.
     or_exit 1 (try_calls pe (take 6 (drop 1 (agent_startup pe client))) h) (\<lambda>h.
       if True then or_exit 1 (try_calls pe (drop 7 (agent_startup pe client)) h) (\<lambda>h.
         or_exit 1 (add_metrics pe agentMetricsPort h) (\<lambda>h. or_exit 1 (try_calls pe [StartManager] h) (\<lambda>h. (Returned, h))))
       else (Exit 2, h)))"
  using AddToManager_try [of pe "[drop 7 (agent_startup pe client)]"]
  by (simp add: nodeagent_main_def agent_startup_def add_pod_def agent_addMetrics_def del: try_calls.simps)

lemma agent_startup_parts:
  "take 1 (agent_startup pe client) @ take 6 (drop 1 (agent_startup pe client)) @ drop 7 (agent_startup pe client) =
     agent_startup pe client"
  by (simp add: agent_startup_def)

lemma agent_started:
  assumes "nodeagent_main pe client [] = (r, h)"
  shows "started pe agentMetricsPort (agent_startup pe client) True r h"
  using started_sequence [OF assms [unfolded agent_main_sequence]] unfolding agent_startup_parts
  by (simp add: agent_startup_def)

lemma agent_calls:
  assumes "nodeagent_main pe client [] = (r, h)"
  shows "prefix h (agent_startup pe client) \<or> prefix (agent_startup pe client) h"
  using start_sequence [OF assms [unfolded agent_main_sequence]] unfolding agent_startup_parts
proof
  assume a: "all_succeed pe [] (agent_startup pe client) \<and> True \<and>
    or_exit 1 (add_metrics pe agentMetricsPort (agent_startup pe client))
      (\<lambda>h. or_exit 1 (try_calls pe [StartManager] h) (\<lambda>h. (Returned, h))) = (r, h)"
  from start_after [OF a [THEN conjunct2, THEN conjunct2]] show ?thesis by auto
qed simp

text \<open>
  The agents of all nodes side by side: what each has done so far, in one log. \<open>Made i c\<close> is the
  return of the call \<open>c\<close> of agent \<open>i\<close>, or the call if it never returns; \<open>Gone i\<close> is the end of the
  agent's process, by itself or from outside.
\<close>

datatype agent_event = Made nat process_call | Gone nat

fun calls_by :: "nat \<Rightarrow> agent_event list \<Rightarrow> process_call list" where
  "calls_by i [] = []"
| "calls_by i (Made j c # log) = (if j = i then c # calls_by i log else calls_by i log)"
| "calls_by i (Gone j # log) = calls_by i log"

definition agents_log :: "(nat \<Rightarrow> process_env) \<Rightarrow> (nat \<Rightarrow> gerr + string) \<Rightarrow> agent_event list \<Rightarrow> bool" where
  "agents_log pes client log \<longleftrightarrow> (\<forall>i. prefix (calls_by i log) (snd (nodeagent_main (pes i) (client i) [])))"

text \<open>
  The documented contract of \<open>leader.Become\<close>, "leader for life": the process whose call returned
  holds the lock until it is gone, and at any moment at most one process holds it.
\<close>

definition holds_lock :: "(nat \<Rightarrow> process_env) \<Rightarrow> nat \<Rightarrow> agent_event list \<Rightarrow> bool" where
  "holds_lock pes i log \<longleftrightarrow> Gone i \<notin> set log \<and>
     (\<exists>g. prefix (g @ [BecomeLeader nodeAgentLock]) (calls_by i log) \<and>
        answer_of (pes i) g (BecomeLeader nodeAgentLock) = Success)"

definition leader_for_life :: "(nat \<Rightarrow> process_env) \<Rightarrow> agent_event list \<Rightarrow> bool" where
  "leader_for_life pes log \<longleftrightarrow>
     (\<forall>l. prefix l log \<longrightarrow> (\<forall>i j. holds_lock pes i l \<longrightarrow> holds_lock pes j l \<longrightarrow> i = j))"

definition agent_runs :: "nat \<Rightarrow> agent_event list \<Rightarrow> bool" where
  "agent_runs i log \<longleftrightarrow> Gone i \<notin> set log \<and> StartManager \<in> set (calls_by i log)"

definition up_to_lock :: "process_call list" where
  "up_to_lock = [ParseFlags, GetWatchNamespace, GetConfig, BecomeLeader nodeAgentLock]"

lemma not_leader_waits:
  "answer_of pe (butlast up_to_lock) (BecomeLeader nodeAgentLock) \<noteq> Success \<Longrightarrow>
    prefix (snd (nodeagent_main pe client [])) up_to_lock"
  by (auto simp: nodeagent_main_def or_exit_def up_to_lock_def split: answer.splits)

text \<open>A process that made a call after its \<open>BecomeLeader\<close> holds the lock.\<close>

lemma past_lock_holds:
  assumes log: "agents_log pes client log" and alive: "Gone i \<notin> set log"
    and past: "\<not> prefix (calls_by i log) up_to_lock"
  shows "holds_lock pes i log"
proof -
  let ?h = "snd (nodeagent_main (pes i) (client i) [])"
  have pre: "prefix (calls_by i log) ?h" using log by (simp add: agents_log_def)
  with past have "\<not> prefix ?h up_to_lock" using prefix_order.trans by blast
  with not_leader_waits have ans: "answer_of (pes i) (butlast up_to_lock) (BecomeLeader nodeAgentLock) = Success" by blast
  have "prefix up_to_lock (agent_startup (pes i) (client i))" by (simp add: up_to_lock_def agent_startup_def)
  moreover have "prefix ?h (agent_startup (pes i) (client i)) \<or> prefix (agent_startup (pes i) (client i)) ?h"
    by (rule agent_calls [of _ _ "fst (nodeagent_main (pes i) (client i) [])"]) simp
  ultimately have "prefix ?h up_to_lock \<or> prefix up_to_lock ?h"
    using prefix_same_cases prefix_order.trans by blast
  with \<open>\<not> prefix ?h up_to_lock\<close> have "prefix up_to_lock ?h" by blast
  with pre past have "prefix up_to_lock (calls_by i log)" using prefix_same_cases by blast
  with ans alive show ?thesis
    unfolding holds_lock_def by (intro conjI exI [of _ "butlast up_to_lock"]) (simp_all add: up_to_lock_def)
qed

lemma agents_log_prefix: "agents_log pes client log \<Longrightarrow> prefix l log \<Longrightarrow> agents_log pes client l"
proof -
  have "prefix (calls_by i l) (calls_by i (l @ k))" for i k by (induction i l rule: calls_by.induct) auto
  then show "agents_log pes client log \<Longrightarrow> prefix l log \<Longrightarrow> agents_log pes client l"
    unfolding agents_log_def prefix_def [of l log] by (meson prefix_order.trans)
qed

text \<open>
  (C38) The node agents of a cluster, one on each node, all ask for the same lock before they start
  their controller. Under the contract of the lock only one of them serves at any moment: while
  one runs its manager, every other one that is not gone has at most made its calls up to
  \<open>BecomeLeader\<close>. The one that serves leaves the pods of the other nodes alone: the reconcile
  of a pod on another host than the agent's own writes nothing.
\<close>

theorem one_node_agent_runs:
  assumes log: "agents_log pes client log" and lock: "leader_for_life pes log" and now: "prefix l log"
    and i: "agent_runs i l"
  shows "(\<forall>j. j \<noteq> i \<longrightarrow> Gone j \<notin> set l \<longrightarrow> prefix (calls_by j l) up_to_lock \<and> \<not> agent_runs j l) \<and>
    (\<forall>env order req g pod agent g1 out g'. get_pod env g (reqNamespace req) (reqName req) = Inr pod \<longrightarrow>
       getNodeAgentPod env (g @ [GetPodObj (reqNamespace req) (reqName req)]) = (Inr (Some agent), g1) \<longrightarrow>
       podHostIP pod \<noteq> podHostIP agent \<longrightarrow> ReconcilePod env order req g = Some (out, g') \<longrightarrow> writes g' = writes g)"
proof (intro conjI allI impI)
  have l: "agents_log pes client l" by (rule agents_log_prefix [OF log now])
  have start: "\<not> prefix (calls_by k l) up_to_lock" if "agent_runs k l" for k
    using that set_mono_prefix [of "calls_by k l" up_to_lock] by (auto simp: agent_runs_def up_to_lock_def)
  have hi: "holds_lock pes i l"
    using past_lock_holds [OF l _ start [OF i]] i by (simp add: agent_runs_def)
  fix j assume j: "j \<noteq> i" "Gone j \<notin> set l"
  show waits: "prefix (calls_by j l) up_to_lock"
    using past_lock_holds [OF l j(2)] hi j(1) lock now unfolding leader_for_life_def by blast
  then show "\<not> agent_runs j l" using start by blast
next
  fix env :: "'c env" and order req g pod agent g1 out g'
  assume "get_pod env g (reqNamespace req) (reqName req) = Inr pod"
    "getNodeAgentPod env (g @ [GetPodObj (reqNamespace req) (reqName req)]) = (Inr (Some agent), g1)"
    "podHostIP pod \<noteq> podHostIP agent" "ReconcilePod env order req g = Some (out, g')"
  then show "writes g' = writes g" by (cases out) (auto elim: ReconcilePod_cases)
qed

text \<open>Agent 0 serves until it is gone, agent 1 asks for the lock meanwhile and serves after it.\<close>

definition agent_process :: process_env where
  "agent_process =
     \<lparr>answer_of = \<lambda>h c. case c of
          NewController n r \<Rightarrow> (if r then Success else Failure (StartError ''must specify Reconciler'')) | _ \<Rightarrow> Success,
      watch_namespace = '''', operator_namespace = ''default'', is_not_exist = \<lambda>e. False\<rparr>"

lemma calls_by_append [simp]: "calls_by i (l @ k) = calls_by i l @ calls_by i k"
  by (induction i l rule: calls_by.induct) auto

lemma calls_by_Made [simp]: "calls_by i (map (Made j) cs) = (if i = j then cs else [])"
  by (induction cs) auto

theorem one_node_agent_runs_witness:
  "\<exists>log l. agents_log (\<lambda>i. agent_process) (\<lambda>i. Inr ''kubelet.sock'') log \<and> prefix l log \<and>
     agent_runs 0 l \<and> \<not> agent_runs 1 l \<and> prefix (calls_by 1 l) up_to_lock \<and> agent_runs 1 log"
proof -
  obtain r cs where run: "nodeagent_main agent_process (Inr ''kubelet.sock'') [] = (r, cs)" by fastforce
  from agent_started [OF run] have start: "StartManager \<in> set cs"
    by (simp add: started_def agent_startup_def agent_process_def metrics_calls_def)
  let ?l = "map (Made 0) cs" and ?pes = "\<lambda>i :: nat. agent_process"
  let ?log = "?l @ Gone 0 # map (Made 1) cs"
  have log: "agents_log ?pes (\<lambda>i. Inr ''kubelet.sock'') ?log" by (simp add: agents_log_def run)
  have holder: "i = (if Gone 0 \<in> set l then 1 else 0)" if "prefix l ?log" "holds_lock ?pes i l" for i l
  proof -
    from that(1) have "prefix l ?l \<or> (\<exists>k. l = ?l @ Gone 0 # k \<and> prefix k (map (Made 1) cs))"
      by (auto simp: prefix_append prefix_Cons)
    then show ?thesis
    proof
      assume "prefix l ?l"
      then obtain ds where "l = map (Made 0) ds" by (auto simp: prefix_def map_eq_append_conv)
      with that(2) show ?thesis by (auto simp: holds_lock_def split: if_splits)
    next
      assume "\<exists>k. l = ?l @ Gone 0 # k \<and> prefix k (map (Made 1) cs)"
      then obtain ds where "l = ?l @ Gone 0 # map (Made 1) ds" by (auto simp: prefix_def map_eq_append_conv)
      with that(2) show ?thesis by (auto simp: holds_lock_def split: if_splits)
    qed
  qed
  then have lock: "leader_for_life ?pes ?log" unfolding leader_for_life_def by metis
  have now: "prefix ?l ?log" by simp
  have zero: "agent_runs 0 ?l" using start by (auto simp: agent_runs_def)
  have "Gone 1 \<notin> set ?l" by auto
  with one_node_agent_runs [OF log lock now zero] have "\<not> agent_runs 1 ?l" "prefix (calls_by 1 ?l) up_to_lock"
    by blast+
  moreover have "agent_runs 1 ?log" using start by (auto simp: agent_runs_def)
  ultimately show ?thesis using log now zero by blast
qed

text \<open>
  Without the connection to the kubelet there is no reconciler to register, and
  \<open>controller.New\<close> refuses a missing one: the manager of the node agent is never started, and
  its \<open>main\<close> does not return.
\<close>

theorem agent_needs_kubelet:
  assumes refused: "\<And>g n. answer_of pe g (NewController n False) \<noteq> Success"
    and "nodeagent_main pe (Inl e) [] = (r, h)"
  shows "StartManager \<notin> set h \<and> r \<noteq> Returned"
proof -
  have "\<not> all_succeed pe [] (agent_startup pe (Inl e))" using refused by (simp add: agent_startup_def)
  with agent_started [OF assms(2)] show ?thesis by (auto simp: started_def)
qed

theorem agent_needs_kubelet_witness:
  "StartManager \<notin> set (snd (nodeagent_main agent_process (Inl (ServiceUnavailable ''failed to create podresouces client'')) []))"
proof -
  let ?c = "Inl (ServiceUnavailable ''failed to create podresouces client'') :: gerr + string"
  have refused: "answer_of agent_process g (NewController n False) \<noteq> Success" for g n
    by (simp add: agent_process_def)
  obtain r h where run: "nodeagent_main agent_process ?c [] = (r, h)" by fastforce
  from agent_needs_kubelet [OF refused run] run show ?thesis by simp
qed

section \<open>The device plugin\<close>







section \<open>Endpoints\<close>

text \<open>
  The documented form of a URL, \<open>[scheme:][//[userinfo@]host][/]path[?query][#fragment]\<close>, on
  what the code needs of it: absolute paths of unreserved characters, with the scheme
  \<open>unix\<close> and an empty host before them, or with nothing.
\<close>

definition plain_path :: "string \<Rightarrow> bool" where
  "plain_path p \<longleftrightarrow> (\<exists>c q. p = CHR ''/'' # c # q \<and> c \<noteq> CHR ''/'' \<and>
     list_all (\<lambda>x. x \<in> set ''abcdefghijklmnopqrstuvwxyzABCDEFGHIJKLMNOPQRSTUVWXYZ0123456789-_./'') (c # q))"

definition url_laws :: "os_env \<Rightarrow> bool" where
  "url_laws oe \<longleftrightarrow> (\<forall>p. plain_path p \<longrightarrow>
     url_parse oe (''unix://'' @ p) = Inr \<lparr>urlScheme = ''unix'', urlHost = '''', urlPath = p\<rparr> \<and>
     url_parse oe p = Inr \<lparr>urlScheme = '''', urlHost = '''', urlPath = p\<rparr>)"

text \<open>
  An absolute path and the \<open>unix\<close> URL of it are the same endpoint, and its address is the
  path. An endpoint with another scheme is refused: \<open>tcp\<close> as the wrong kind of socket, the
  others as not supported, without a second attempt.
\<close>

theorem endpoint_forms:
  assumes "url_laws oe" "plain_path p"
  shows "GetAddressAndDialer oe (''unix://'' @ p) = Inr p \<and> GetAddressAndDialer oe p = Inr p \<and>
    (\<forall>e u. url_parse oe e = Inr u \<longrightarrow> urlScheme u \<notin> {'''', ''unix''} \<longrightarrow>
       GetAddressAndDialer oe e = Inl (if urlScheme u = ''tcp'' then only_unix
         else GoError (''protocol '' @ quote oe (urlScheme u) @ '' not supported'')))"
  using assms unfolding url_laws_def
  by (auto simp: GetAddressAndDialer_def parseEndpointWithFallbackProtocol_def parseEndpoint_def unixProtocol_def)

text \<open>An environment that splits a URL at \<open>://\<close> and has nothing on disk yet.\<close>

definition simple_os :: os_env where
  "simple_os =
     \<lparr>os_answer = \<lambda>h c. case c of Unlink a \<Rightarrow> Some (NotExist ''no such file'') | _ \<Rightarrow> None,
      temp_name = \<lambda>h. ''/run/x/123'',
      url_parse = \<lambda>s. Inr (if HasPrefix s ''unix://'' then \<lparr>urlScheme = ''unix'', urlHost = '''', urlPath = drop 7 s\<rparr>
        else \<lparr>urlScheme = '''', urlHost = '''', urlPath = s\<rparr>),
      quote = \<lambda>s. ''\"'' @ s @ ''\"'', path_dir = \<lambda>p. ''/run/x''\<rparr>"

lemma simple_url_laws: "url_laws simple_os"
proof -
  have "\<not> HasPrefix p ''unix://''" if "plain_path p" for p
    using that by (auto simp: plain_path_def HasPrefix_iff)
  moreover have "HasPrefix (''unix://'' @ p) ''unix://''" for p by (simp add: HasPrefix_iff)
  ultimately show ?thesis by (simp add: url_laws_def simple_os_def)
qed

theorem endpoint_forms_witness:
  "GetAddressAndDialer simple_os podResourcesSocket = Inr ''/var/lib/kubelet/pod-resources/kubelet.sock''"
proof -
  have "plain_path ''/var/lib/kubelet/pod-resources/kubelet.sock''"
    by (simp add: plain_path_def)
  from endpoint_forms [OF simple_url_laws this] show ?thesis by (simp add: podResourcesSocket_def)
qed

section \<open>CreateListener\<close>

definition listener_calls :: "os_env \<Rightarrow> string \<Rightarrow> string \<Rightarrow> os_call list" where
  "listener_calls oe addr file = [Unlink addr, MkdirAll (path_dir oe addr), TempFile (path_dir oe addr),
     RemoveFile file, Listen ''unix'' file, RenameFile file addr]"

text \<open>The error of call number \<open>k\<close>, if it has one that counts, and the error returned for it.\<close>

definition listener_fault :: "os_env \<Rightarrow> os_call list \<Rightarrow> os_call list \<Rightarrow> nat \<Rightarrow> os_error option" where
  "listener_fault oe h cs k =
     (case os_answer oe (h @ take k cs) (cs ! k) of
        None \<Rightarrow> None
      | Some e \<Rightarrow> if k = 0 \<and> IsNotExist e then None else Some e)"

definition listener_error :: "os_env \<Rightarrow> string \<Rightarrow> nat \<Rightarrow> os_error \<Rightarrow> gerr" where
  "listener_error oe addr k e = GoError
     ([''failed to unlink socket file '' @ quote oe addr @ '': '',
       ''error creating socket directory '' @ quote oe (path_dir oe addr) @ '': '',
       ''failed to create temporary file: '', ''failed to remove temporary file: '', '''',
       ''failed to move temporary file to addr '' @ quote oe addr @ '': ''] ! k @ error_text e)"

text \<open>
  (C40) A listener is never bound at its address: it is bound under a temporary name in the same
  directory and then renamed. The six calls are made in one order up to the first that fails,
  whose error is returned with a text of its own; only a socket file that does not exist is no
  failure. If none fails all six are made, and the listener is reachable under the address. An
  endpoint that is not a \<open>unix\<close> one touches nothing.
\<close>

theorem CreateListener_calls:
  assumes "CreateListener oe endpoint h = (r, h')"
  shows "case GetAddressAndDialer oe endpoint of
      Inl e \<Rightarrow> r = Inl e \<and> h' = h
    | Inr addr \<Rightarrow>
        let cs = listener_calls oe addr (temp_name oe (h @ [Unlink addr, MkdirAll (path_dir oe addr)]));
            fault = listener_fault oe h cs in
        (\<exists>n < 6. \<exists>e. h' = h @ take (Suc n) cs \<and> (\<forall>i < n. fault i = None) \<and> fault n = Some e \<and>
           r = Inl (listener_error oe addr n e)) \<or>
        h' = h @ cs \<and> (\<forall>i < 6. fault i = None) \<and> r = Inr addr"
proof (cases "GetAddressAndDialer oe endpoint")
  case (Inl e)
  with assms show ?thesis
    by (auto simp: CreateListener_def GetAddressAndDialer_def Let_def split: prod.splits option.splits if_splits)
next
  case (Inr addr)
  then have ep: "parseEndpointWithFallbackProtocol oe endpoint unixProtocol = (''unix'', addr, None)"
    by (auto simp: GetAddressAndDialer_def unixProtocol_def split: prod.splits option.splits if_splits)
  define f where "f = temp_name oe (h @ [Unlink addr, MkdirAll (path_dir oe addr)])"
  define d where "d = path_dir oe addr"
  define cs where "cs = listener_calls oe addr f"
  note cs = cs_def [unfolded listener_calls_def d_def [symmetric]]
  let ?fault = "listener_fault oe h cs"
  let ?stop = "\<lambda>n. \<exists>e. h' = h @ take (Suc n) cs \<and> (\<forall>i < n. ?fault i = None) \<and> ?fault n = Some e \<and>
      r = Inl (listener_error oe addr n e)"
  note defs = CreateListener_def unixProtocol_def Let_def cs d_def f_def listener_fault_def listener_error_def
    numeral_eq_Suc All_less_Suc
  consider (stop) n e where "n \<in> {0, 1, 2, 3, 4, 5}" "?fault n = Some e" "\<forall>i < n. ?fault i = None"
    | (all) "\<forall>i < 6. ?fault i = None"
  proof (cases "\<forall>i < 6. ?fault i = None")
    case False
    then obtain k where k: "k < 6" "?fault k \<noteq> None" by blast
    define n where "n = (LEAST k. ?fault k \<noteq> None)"
    have n: "?fault n \<noteq> None" "n \<le> k" "\<forall>k < n. ?fault k = None"
      using k LeastI [of "\<lambda>k. ?fault k \<noteq> None" k] Least_le [of "\<lambda>k. ?fault k \<noteq> None" k] not_less_Least
      unfolding n_def by blast+
    moreover have "n \<in> {0, 1, 2, 3, 4, 5}" using n(2) k(1) by auto
    ultimately show thesis using that(1) by blast
  qed blast
  then have "(\<exists>n < 6. ?stop n) \<or> h' = h @ cs \<and> (\<forall>i < 6. ?fault i = None) \<and> r = Inr addr"
  proof cases
    case stop
    then have "h' = h @ take (Suc n) cs \<and> r = Inl (listener_error oe addr n e)"
      using assms ep by (auto simp: defs split: option.splits if_splits)
    with stop show ?thesis by (intro disjI1 exI [of _ n]) auto
  next
    case all
    then have "h' = h @ cs \<and> r = Inr addr"
      using assms ep by (auto simp: defs split: option.splits if_splits)
    with all show ?thesis by blast
  qed
  then show ?thesis
    unfolding Inr sum.case Let_def f_def [symmetric] cs_def [symmetric] .
qed

theorem CreateListener_calls_witness:
  "CreateListener simple_os ''unix:///run/x/s'' [] = (Inr ''/run/x/s'', listener_calls simple_os ''/run/x/s'' ''/run/x/123'')"
proof -
  obtain r h' where run: "CreateListener simple_os ''unix:///run/x/s'' [] = (r, h')" by fastforce
  have "GetAddressAndDialer simple_os ''unix:///run/x/s'' = Inr ''/run/x/s''" by code_simp
  moreover have "temp_name simple_os g = ''/run/x/123''" for g by (simp add: simple_os_def)
  moreover have "listener_fault simple_os [] (listener_calls simple_os ''/run/x/s'' ''/run/x/123'') k = None" if "k < 6" for k
    using that by (auto simp: listener_fault_def listener_calls_def simple_os_def numeral_eq_Suc less_Suc_eq)
  ultimately show ?thesis
    using CreateListener_calls [OF run] run by (auto simp: Let_def)
qed

end
