(* ===== verification/Go_Heap.thy ===== *)
theory Go_Heap
  imports Go_Base
begin

text \<open>
  Memory with references, as far as the deep copies of the API types need it: a heap of typed
  cells with an allocation limit, \<open>new\<close> and \<open>make\<close>, and the loops that fill a new map or a
  new array with copies. The locale \<open>deep_copier\<close> is the contract of a deep copy: it
  succeeds, the copy reads like the original, whatever the copy refers to has been allocated
  by it, and what was there before is as it was. The combinators of this theory (pairs,
  structs, pointers, maps, slices) turn copiers into copiers.
\<close>

section \<open>Heaps\<close>

type_synonym addr = nat

record 'c heap =
  cells :: "addr \<Rightarrow> 'c option"
  limit :: addr

definition wf_heap :: "'c heap \<Rightarrow> bool" where
  "wf_heap h \<longleftrightarrow> (\<forall>a. cells h a \<noteq> None \<longrightarrow> a < limit h)"

definition alloc :: "'c \<Rightarrow> 'c heap \<Rightarrow> addr \<times> 'c heap" where
  "alloc c h = (limit h, \<lparr>cells = (cells h)(limit h \<mapsto> c), limit = Suc (limit h)\<rparr>)"

definition store :: "addr \<Rightarrow> 'c \<Rightarrow> 'c heap \<Rightarrow> 'c heap" where
  "store a c h = h\<lparr>cells := (cells h)(a \<mapsto> c)\<rparr>"

text \<open>Reading a cell as a value of one kind; \<open>None\<close> when it holds none.\<close>

definition load :: "('c \<Rightarrow> 'v option) \<Rightarrow> 'c heap \<Rightarrow> addr \<Rightarrow> 'v option" where
  "load unwrap h a = Option.bind (cells h a) unwrap"

definition agree :: "addr set \<Rightarrow> 'c heap \<Rightarrow> 'c heap \<Rightarrow> bool" where
  "agree A h h' \<longleftrightarrow> (\<forall>a\<in>A. cells h' a = cells h a)"

definition grows :: "'c heap \<Rightarrow> 'c heap \<Rightarrow> bool" where
  "grows h h' \<longleftrightarrow> wf_heap h' \<and> limit h \<le> limit h' \<and> agree {..<limit h} h h'"

lemma grows_refl: "wf_heap h \<Longrightarrow> grows h h"
  by (simp add: grows_def agree_def)

lemma grows_trans [trans]: "grows h h1 \<Longrightarrow> grows h1 h2 \<Longrightarrow> grows h h2"
  by (auto simp: grows_def agree_def)

lemma grows_wf: "grows h h' \<Longrightarrow> wf_heap h'"
  by (simp add: grows_def)

lemma grows_limit: "grows h h' \<Longrightarrow> limit h \<le> limit h'"
  by (simp add: grows_def)

lemma grows_agree: "grows h h' \<Longrightarrow> A \<subseteq> {..<limit h} \<Longrightarrow> agree A h h'"
  by (auto simp: grows_def agree_def)

lemma wf_store: "wf_heap h \<Longrightarrow> a < limit h \<Longrightarrow> wf_heap (store a c h)"
  by (auto simp: wf_heap_def store_def)

lemma limit_store [simp]: "limit (store a c h) = limit h"
  by (simp add: store_def)

lemma cells_store [simp]: "cells (store a c h) b = (if b = a then Some c else cells h b)"
  by (simp add: store_def)

lemma load_store [simp]: "load u (store a c h) b = (if b = a then u c else load u h b)"
  by (simp add: load_def)

lemma agree_store: "a \<notin> A \<Longrightarrow> agree A h (store a c h)"
  by (auto simp: agree_def)

lemma agree_load: "agree A h h' \<Longrightarrow> a \<in> A \<Longrightarrow> load u h' a = load u h a"
  by (simp add: agree_def load_def)

lemma agree_sub: "agree A h h' \<Longrightarrow> B \<subseteq> A \<Longrightarrow> agree B h h'"
  by (auto simp: agree_def)

lemma alloc_grows: "wf_heap h \<Longrightarrow> alloc c h = (p, h') \<Longrightarrow> grows h h'"
  by (auto simp: alloc_def grows_def wf_heap_def agree_def less_Suc_eq)

lemma load_limit: "wf_heap h \<Longrightarrow> load u h a = Some v \<Longrightarrow> a < limit h"
  by (cases "cells h a") (auto simp: load_def wf_heap_def)

section \<open>The contract of a deep copy\<close>

text \<open>
  \<open>ok\<close>: every reference of the value leads to a cell of its kind; \<open>refs\<close>: the cells the value
  reaches; \<open>view\<close>: the value with every reference replaced by what it leads to.
\<close>

locale deep_copier =
  fixes ok :: "'c heap \<Rightarrow> 'a \<Rightarrow> bool"
    and refs :: "'c heap \<Rightarrow> 'a \<Rightarrow> addr set"
    and view :: "'c heap \<Rightarrow> 'a \<Rightarrow> 'v"
    and copy :: "'a \<Rightarrow> 'c heap \<Rightarrow> ('a \<times> 'c heap) option"
  assumes frame: "ok h x \<Longrightarrow> agree (refs h x) h h' \<Longrightarrow>
      ok h' x \<and> refs h' x = refs h x \<and> view h' x = view h x"
    and refs_below: "wf_heap h \<Longrightarrow> ok h x \<Longrightarrow> refs h x \<subseteq> {..<limit h}"
    and copies: "wf_heap h \<Longrightarrow> ok h x \<Longrightarrow>
      \<exists>y h'. copy x h = Some (y, h') \<and> grows h h' \<and> ok h' y \<and> view h' y = view h x
        \<and> refs h' y \<subseteq> {limit h..}"
begin

lemma copyE:
  assumes "wf_heap h" "ok h x"
  obtains y h' where "copy x h = Some (y, h')" "grows h h'" "ok h' y" "view h' y = view h x"
    "refs h' y \<subseteq> {limit h..}"
  using copies [OF assms] by blast

lemma stays:
  assumes "wf_heap h" "ok h x" "grows h h'"
  shows "ok h' x" "refs h' x = refs h x" "view h' x = view h x"
  using frame [OF assms(2) grows_agree [OF assms(3) refs_below [OF assms(1,2)]]] by simp_all

lemma frame_store:
  assumes "ok h x" "a \<notin> refs h x"
  shows "ok (store a c h) x" "refs (store a c h) x = refs h x" "view (store a c h) x = view h x"
  using frame [OF assms(1) agree_store [OF assms(2)]] by simp_all

text \<open>What a copy is for: the two values share no cell, and no store into one shows in the other.\<close>

lemma isolated:
  assumes "wf_heap h" "ok h x" "copy x h = Some (y, h')"
  shows "view h' y = view h x" "view h' x = view h x" "refs h' x \<inter> refs h' y = {}"
    "a \<in> refs h' y \<Longrightarrow> view (store a c h') x = view h x"
    "a \<in> refs h' x \<Longrightarrow> view (store a c h') y = view h x"
proof -
  from copies [OF assms(1,2)] assms(3)
  have y: "grows h h'" "ok h' y" "view h' y = view h x" "refs h' y \<subseteq> {limit h..}" by auto
  note x = stays [OF assms(1,2) y(1)]
  show "view h' y = view h x" "view h' x = view h x" by (fact y(3), fact x(3))
  have "refs h' x \<subseteq> {..<limit h}" by (simp only: x(2) refs_below [OF assms(1,2)])
  with y(4) show disj: "refs h' x \<inter> refs h' y = {}" by fastforce
  show "view (store a c h') x = view h x" if "a \<in> refs h' y"
  proof -
    from that disj have "a \<notin> refs h' x" by blast
    from frame_store(3) [OF x(1) this] show ?thesis by (simp only: x(3))
  qed
  show "view (store a c h') y = view h x" if "a \<in> refs h' x"
  proof -
    from that disj have "a \<notin> refs h' y" by blast
    from frame_store(3) [OF y(2) this] show ?thesis by (simp only: y(3))
  qed
qed

end

lemma deep_copier_plain:
  "deep_copier (\<lambda>h x. True) (\<lambda>h x. {}) (\<lambda>h x. x) (\<lambda>x h. Some (x, h))"
  by unfold_locales (auto simp: grows_refl)

section \<open>Pairs and structs\<close>

definition pair_ok :: "('h \<Rightarrow> 'a \<Rightarrow> bool) \<Rightarrow> ('h \<Rightarrow> 'b \<Rightarrow> bool) \<Rightarrow> 'h \<Rightarrow> 'a \<times> 'b \<Rightarrow> bool" where
  "pair_ok oka okb h x \<longleftrightarrow> oka h (fst x) \<and> okb h (snd x)"

definition pair_refs :: "('h \<Rightarrow> 'a \<Rightarrow> addr set) \<Rightarrow> ('h \<Rightarrow> 'b \<Rightarrow> addr set) \<Rightarrow> 'h \<Rightarrow> 'a \<times> 'b \<Rightarrow> addr set" where
  "pair_refs ra rb h x = ra h (fst x) \<union> rb h (snd x)"

definition pair_view :: "('h \<Rightarrow> 'a \<Rightarrow> 'v) \<Rightarrow> ('h \<Rightarrow> 'b \<Rightarrow> 'w) \<Rightarrow> 'h \<Rightarrow> 'a \<times> 'b \<Rightarrow> 'v \<times> 'w" where
  "pair_view va vb h x = (va h (fst x), vb h (snd x))"

definition pair_copy ::
  "('a \<Rightarrow> 'h \<Rightarrow> ('a \<times> 'h) option) \<Rightarrow> ('b \<Rightarrow> 'h \<Rightarrow> ('b \<times> 'h) option) \<Rightarrow> 'a \<times> 'b \<Rightarrow> 'h \<Rightarrow> (('a \<times> 'b) \<times> 'h) option"
where
  "pair_copy ca cb x h =
     do { (a, h1) \<leftarrow> ca (fst x) h; (b, h2) \<leftarrow> cb (snd x) h1; Some ((a, b), h2) }"

lemma deep_copier_pair:
  assumes "deep_copier oka ra va ca" "deep_copier okb rb vb cb"
  shows "deep_copier (pair_ok oka okb) (pair_refs ra rb) (pair_view va vb) (pair_copy ca cb)"
proof -
  note A = assms(1) and B = assms(2)
  show ?thesis
  proof
    fix h h' x
    assume "pair_ok oka okb h x" "agree (pair_refs ra rb h x) h h'"
    then have "oka h (fst x)" "okb h (snd x)" "agree (ra h (fst x)) h h'" "agree (rb h (snd x)) h h'"
      by (auto simp: pair_ok_def pair_refs_def intro: agree_sub)
    then have "oka h' (fst x) \<and> ra h' (fst x) = ra h (fst x) \<and> va h' (fst x) = va h (fst x)"
      "okb h' (snd x) \<and> rb h' (snd x) = rb h (snd x) \<and> vb h' (snd x) = vb h (snd x)"
      by (blast dest: deep_copier.frame [OF A], blast dest: deep_copier.frame [OF B])
    then show "pair_ok oka okb h' x \<and> pair_refs ra rb h' x = pair_refs ra rb h x
        \<and> pair_view va vb h' x = pair_view va vb h x"
      by (simp add: pair_ok_def pair_refs_def pair_view_def)
  next
    fix h :: "'a heap" and x
    assume "wf_heap h" "pair_ok oka okb h x"
    then show "pair_refs ra rb h x \<subseteq> {..<limit h}"
      using deep_copier.refs_below [OF A, of h "fst x"] deep_copier.refs_below [OF B, of h "snd x"]
      by (simp add: pair_ok_def pair_refs_def)
  next
    fix h :: "'a heap" and x
    assume wf: "wf_heap h" and "pair_ok oka okb h x"
    then have ok: "oka h (fst x)" "okb h (snd x)" by (simp_all add: pair_ok_def)
    from deep_copier.copyE [OF A wf ok(1)] obtain a h1 where a: "ca (fst x) h = Some (a, h1)"
      "grows h h1" "oka h1 a" "va h1 a = va h (fst x)" "ra h1 a \<subseteq> {limit h..}" .
    note x2 = deep_copier.stays [OF B wf ok(2) a(2)]
    note wf1 = grows_wf [OF a(2)]
    from deep_copier.copyE [OF B wf1 x2(1)] obtain b h2 where b: "cb (snd x) h1 = Some (b, h2)"
      "grows h1 h2" "okb h2 b" "vb h2 b = vb h1 (snd x)" "rb h2 b \<subseteq> {limit h1..}" .
    note a2 = deep_copier.stays [OF A wf1 a(3) b(2)]
    show "\<exists>y h'. pair_copy ca cb x h = Some (y, h') \<and> grows h h' \<and> pair_ok oka okb h' y
        \<and> pair_view va vb h' y = pair_view va vb h x \<and> pair_refs ra rb h' y \<subseteq> {limit h..}"
    proof (intro exI conjI)
      show "pair_copy ca cb x h = Some ((a, b), h2)" using a(1) b(1) by (simp add: pair_copy_def)
      show "grows h h2" using a(2) b(2) by (rule grows_trans)
      show "pair_ok oka okb h2 (a, b)" using a2(1) b(3) by (simp add: pair_ok_def)
      show "pair_view va vb h2 (a, b) = pair_view va vb h x"
        by (simp add: pair_view_def a(4) b(4) a2(3) x2(3))
      show "pair_refs ra rb h2 (a, b) \<subseteq> {limit h..}"
        using a(5) b(5) grows_limit [OF a(2)] by (fastforce simp: pair_refs_def a2(2))
    qed
  qed
qed

text \<open>A struct whose reference fields are read by \<open>f\<close> and replaced by \<open>g\<close>.\<close>

lemma deep_copier_struct:
  assumes "deep_copier ok refs view copy"
    and fg: "\<And>x t. f (g x t) = t" and vg: "\<And>x t w. v (g x t) w = v x w"
    and copyS: "\<And>x h. copyS x h = do { (t, h') \<leftarrow> copy (f x) h; Some (g x t, h') }"
    and okS: "\<And>h x. okS h x \<longleftrightarrow> ok h (f x)" and refsS: "\<And>h x. refsS h x = refs h (f x)"
    and viewS: "\<And>h x. viewS h x = v x (view h (f x))"
  shows "deep_copier okS refsS viewS copyS"
proof -
  note C = assms(1)
  show ?thesis
  proof
    fix h h' x
    assume "okS h x" "agree (refsS h x) h h'"
    then show "okS h' x \<and> refsS h' x = refsS h x \<and> viewS h' x = viewS h x"
      using deep_copier.frame [OF C, of h "f x" h'] by (simp add: okS refsS viewS)
  next
    fix h :: "'a heap" and x
    assume "wf_heap h" "okS h x"
    then show "refsS h x \<subseteq> {..<limit h}"
      using deep_copier.refs_below [OF C, of h "f x"] by (simp add: okS refsS)
  next
    fix h :: "'a heap" and x
    assume "wf_heap h" "okS h x"
    then obtain t h' where "copy (f x) h = Some (t, h')" "grows h h'" "ok h' t"
      "view h' t = view h (f x)" "refs h' t \<subseteq> {limit h..}"
      using deep_copier.copyE [OF C] by (metis okS)
    then show "\<exists>y h'. copyS x h = Some (y, h') \<and> grows h h' \<and> okS h' y
        \<and> viewS h' y = viewS h x \<and> refsS h' y \<subseteq> {limit h..}"
      by (simp add: copyS okS refsS viewS fg vg)
  qed
qed

section \<open>Loops that fill a new map or array\<close>

text \<open>
  \<open>for key, val := range *in { (*out)[key] = copy(val) }\<close>: \<open>out\<close> is what the cell \<open>p\<close> holds so
  far, \<open>put\<close> the assignment to one key or index. The list is the order in which this
  \<open>range\<close> visits the entries.
\<close>

fun copy_loop ::
  "('k \<Rightarrow> 'v \<Rightarrow> 'o \<Rightarrow> 'o) \<Rightarrow> ('o \<Rightarrow> 'c) \<Rightarrow> ('v \<Rightarrow> 'c heap \<Rightarrow> ('v \<times> 'c heap) option) \<Rightarrow> addr \<Rightarrow> 'o
    \<Rightarrow> ('k \<times> 'v) list \<Rightarrow> 'c heap \<Rightarrow> 'c heap option"
where
  "copy_loop put wrap copy p out [] h = Some h"
| "copy_loop put wrap copy p out ((key, val) # kvs) h =
     do {
       (outVal, h1) \<leftarrow> copy val h;
       copy_loop put wrap copy p (put key outVal out) kvs (store p (wrap (put key outVal out)) h1)
     }"

definition put_all :: "('k \<Rightarrow> 'v \<Rightarrow> 'o \<Rightarrow> 'o) \<Rightarrow> 'k list \<Rightarrow> 'v list \<Rightarrow> 'o \<Rightarrow> 'o" where
  "put_all put ks ys out = fold (\<lambda>(k, y). put k y) (zip ks ys) out"

lemma put_all_Cons [simp]: "put_all put (k # ks) (y # ys) out = put_all put ks ys (put k y out)"
  by (simp add: put_all_def)

context deep_copier begin

text \<open>What holds of the copies \<open>ys\<close> of \<open>xs\<close> once the loop is through.\<close>

definition copied :: "addr \<Rightarrow> 'c heap \<Rightarrow> 'c heap \<Rightarrow> 'a list \<Rightarrow> 'a list \<Rightarrow> bool" where
  "copied p h h' xs ys \<longleftrightarrow>
     list_all2 (\<lambda>x y. ok h' y \<and> view h' y = view h x \<and> refs h' y \<subseteq> {p<..}) xs ys"

lemma copied_from:
  assumes "copied p h1 h' (map snd kvs) ys" "\<And>k x. (k, x) \<in> set kvs \<Longrightarrow> view h1 x = view h x"
  shows "copied p h h' (map snd kvs) ys"
  using assms(1) unfolding copied_def
  by (rule list.rel_mono_strong) (use assms(2) in auto)

lemma copy_loop_copies:
  assumes "wf_heap h" "p < limit h" "cells h p = Some (wrap out)"
    and "\<And>k x. (k, x) \<in> set kvs \<Longrightarrow> ok h x \<and> refs h x \<subseteq> {..<p}"
  shows "\<exists>ys h'. copy_loop put wrap copy p out kvs h = Some h' \<and> wf_heap h' \<and> limit h \<le> limit h'
    \<and> agree ({..<limit h} - {p}) h h' \<and> cells h' p = Some (wrap (put_all put (map fst kvs) ys out))
    \<and> copied p h h' (map snd kvs) ys"
  using assms
proof (induction kvs arbitrary: h out)
  case Nil
  then show ?case by (auto simp: agree_def put_all_def copied_def)
next
  case (Cons kv kvs)
  obtain k x where kv: "kv = (k, x)" by force
  have x: "ok h x" using Cons.prems(4) [of k x] by (simp add: kv)
  from copyE [OF Cons.prems(1) x] obtain y h1 where y: "copy x h = Some (y, h1)"
    "grows h h1" "ok h1 y" "view h1 y = view h x" "refs h1 y \<subseteq> {limit h..}" .
  let ?out = "put k y out" and ?h2 = "store p (wrap (put k y out)) h1"
  have p: "p < limit h1" using Cons.prems(2) grows_limit [OF y(2)] by simp
  have tail: "ok ?h2 z \<and> refs ?h2 z \<subseteq> {..<p} \<and> view ?h2 z = view h z" if "(l, z) \<in> set kvs" for l z
  proof -
    have z: "ok h z" "refs h z \<subseteq> {..<p}" using Cons.prems(4) [of l z] that by simp_all
    note z1 = stays [OF Cons.prems(1) z(1) y(2)]
    have "p \<notin> refs h1 z" using z(2) by (auto simp: z1(2))
    from frame_store [OF z1(1) this] z(2) show ?thesis by (simp add: z1(2,3))
  qed
  have wf2: "wf_heap ?h2" by (rule wf_store [OF grows_wf [OF y(2)] p])
  have "\<exists>ys h'. copy_loop put wrap copy p ?out kvs ?h2 = Some h' \<and> wf_heap h' \<and> limit ?h2 \<le> limit h'
      \<and> agree ({..<limit ?h2} - {p}) ?h2 h' \<and> cells h' p = Some (wrap (put_all put (map fst kvs) ys ?out))
      \<and> copied p ?h2 h' (map snd kvs) ys"
    by (rule Cons.IH [OF wf2]) (use p tail in auto)
  then obtain ys h' where ys: "copy_loop put wrap copy p ?out kvs ?h2 = Some h'" "wf_heap h'"
    "limit h1 \<le> limit h'" "agree ({..<limit h1} - {p}) ?h2 h'"
    "cells h' p = Some (wrap (put_all put (map fst kvs) ys ?out))"
    "copied p ?h2 h' (map snd kvs) ys" by auto
  have yp: "p \<notin> refs h1 y" "refs h1 y \<subseteq> {p<..}" using y(5) Cons.prems(2) by auto
  note y2 = frame_store [OF y(3) yp(1), of "wrap ?out"]
  have "refs ?h2 y \<subseteq> {..<limit h1} - {p}"
    unfolding y2(2) using yp(1) refs_below [OF grows_wf [OF y(2)] y(3)] by blast
  from frame [OF y2(1) agree_sub [OF ys(4) this]]
  have y3: "ok h' y" "view h' y = view h x" "refs h' y \<subseteq> {p<..}" using yp(2) by (simp_all add: y2 y(4))
  have rest: "copied p h h' (map snd kvs) ys"
    by (rule copied_from [OF ys(6)]) (use tail in blast)
  show ?case
  proof (intro exI conjI)
    show "copy_loop put wrap copy p out (kv # kvs) h = Some h'" using y(1) ys(1) by (simp add: kv)
    show "limit h \<le> limit h'" using ys(3) grows_limit [OF y(2)] by simp
    show "agree ({..<limit h} - {p}) h h'"
      using ys(4) y(2) by (auto simp: agree_def grows_def)
    show "cells h' p = Some (wrap (put_all put (map fst (kv # kvs)) (y # ys) out))"
      using ys(5) by (simp add: kv)
    show "copied p h h' (map snd (kv # kvs)) (y # ys)" using y3 rest by (simp add: copied_def kv)
  qed (rule ys(2))
qed

text \<open>The loop on a cell that has just been made.\<close>

lemma fresh_loop:
  assumes "wf_heap h" "alloc (wrap out) h = (p, h1)" "\<And>k x. (k, x) \<in> set kvs \<Longrightarrow> ok h x"
  shows "\<exists>ys h'. copy_loop put wrap copy p out kvs h1 = Some h' \<and> grows h h' \<and> p = limit h
    \<and> cells h' p = Some (wrap (put_all put (map fst kvs) ys out)) \<and> copied p h h' (map snd kvs) ys"
proof -
  note e = alloc_grows [OF assms(1,2)]
  have p: "p = limit h" "p < limit h1" "cells h1 p = Some (wrap out)"
    using assms(2) by (auto simp: alloc_def)
  have el: "ok h1 x \<and> refs h1 x \<subseteq> {..<p} \<and> view h1 x = view h x" if "(k, x) \<in> set kvs" for k x
    using stays [OF assms(1) assms(3) [OF that] e] refs_below [OF assms(1) assms(3) [OF that]]
    by (simp add: p(1))
  obtain ys h' where ys: "copy_loop put wrap copy p out kvs h1 = Some h'" "wf_heap h'"
    "limit h1 \<le> limit h'" "agree ({..<limit h1} - {p}) h1 h'"
    "cells h' p = Some (wrap (put_all put (map fst kvs) ys out))" "copied p h1 h' (map snd kvs) ys"
    using copy_loop_copies [of h1 p wrap out kvs put] el p(2,3) grows_wf [OF e] by blast
  have "grows h h'"
    using ys(2,3,4) e p(1) by (auto simp: grows_def agree_def)
  moreover have "copied p h h' (map snd kvs) ys"
    by (rule copied_from [OF ys(6)]) (use el in blast)
  ultimately show ?thesis using ys(1,5) p(1) by blast
qed

end


section \<open>Pointers, maps and slices\<close>

text \<open>How a value of one kind is put into a cell and read from it.\<close>

locale cell_kind =
  fixes wrap :: "'v \<Rightarrow> 'c" and unwrap :: "'c \<Rightarrow> 'v option"
  assumes unwrap_wrap [simp]: "unwrap (wrap v) = Some v"

text \<open>
  \<open>DeepCopy\<close> of a pointer: \<open>nil\<close> for \<open>nil\<close>; otherwise \<open>out := new(T)\<close>, which
  \<open>*out = *in\<close>, the first statement of every \<open>DeepCopyInto\<close>, fills with the original,
  followed by the rest of \<open>DeepCopyInto\<close>.
\<close>

definition new_copy ::
  "('v \<Rightarrow> 'c) \<Rightarrow> ('c \<Rightarrow> 'v option) \<Rightarrow> ('v \<Rightarrow> 'c heap \<Rightarrow> ('v \<times> 'c heap) option) \<Rightarrow> addr option \<Rightarrow> 'c heap
    \<Rightarrow> (addr option \<times> 'c heap) option"
where
  "new_copy wrap unwrap into src h =
     (case src of
        None \<Rightarrow> Some (None, h)
      | Some a \<Rightarrow>
          do {
            x \<leftarrow> load unwrap h a;
            let (out, h1) = alloc (wrap x) h;
            (y, h2) \<leftarrow> into x h1;
            Some (Some out, store out (wrap y) h2)
          })"

definition ptr_ok :: "('c \<Rightarrow> 'v option) \<Rightarrow> ('c heap \<Rightarrow> 'v \<Rightarrow> bool) \<Rightarrow> 'c heap \<Rightarrow> addr option \<Rightarrow> bool" where
  "ptr_ok unwrap ok h r =
     (case r of None \<Rightarrow> True | Some a \<Rightarrow> (case load unwrap h a of None \<Rightarrow> False | Some x \<Rightarrow> ok h x))"

definition ptr_refs :: "('c \<Rightarrow> 'v option) \<Rightarrow> ('c heap \<Rightarrow> 'v \<Rightarrow> addr set) \<Rightarrow> 'c heap \<Rightarrow> addr option \<Rightarrow> addr set" where
  "ptr_refs unwrap refs h r =
     (case r of None \<Rightarrow> {}
      | Some a \<Rightarrow> insert a (case load unwrap h a of None \<Rightarrow> {} | Some x \<Rightarrow> refs h x))"

definition ptr_view :: "('c \<Rightarrow> 'v option) \<Rightarrow> ('c heap \<Rightarrow> 'v \<Rightarrow> 'w) \<Rightarrow> 'c heap \<Rightarrow> addr option \<Rightarrow> 'w option" where
  "ptr_view unwrap view h r = Option.bind r (\<lambda>a. map_option (view h) (load unwrap h a))"

text \<open>\<open>*val.DeepCopy()\<close> for the variable \<open>val\<close> of a loop, of which the address is taken.\<close>

definition deref_copy ::
  "('v \<Rightarrow> 'c) \<Rightarrow> ('c \<Rightarrow> 'v option) \<Rightarrow> ('v \<Rightarrow> 'c heap \<Rightarrow> ('v \<times> 'c heap) option) \<Rightarrow> 'v \<Rightarrow> 'c heap
    \<Rightarrow> ('v \<times> 'c heap) option"
where
  "deref_copy wrap unwrap into val h =
     do {
       let (v, h1) = alloc (wrap val) h;
       (r, h2) \<leftarrow> new_copy wrap unwrap into (Some v) h1;
       a \<leftarrow> r;
       y \<leftarrow> load unwrap h2 a;
       Some (y, h2)
     }"

text \<open>
  A map: \<open>nil\<close>, or the address of its entries. Two maps with the same keys and values are
  equal whatever the order of the entries, so that a map is viewed as a partial function.
\<close>

definition entries :: "('c \<Rightarrow> 'v list option) \<Rightarrow> 'c heap \<Rightarrow> addr \<Rightarrow> 'v list" where
  "entries unwrap h a = (case load unwrap h a of None \<Rightarrow> [] | Some xs \<Rightarrow> xs)"

definition copy_map ::
  "(('k \<times> 'v) list \<Rightarrow> 'c) \<Rightarrow> ('c \<Rightarrow> ('k \<times> 'v) list option) \<Rightarrow> ('v \<Rightarrow> 'c heap \<Rightarrow> ('v \<times> 'c heap) option)
    \<Rightarrow> addr option \<Rightarrow> 'c heap \<Rightarrow> (addr option \<times> 'c heap) option"
where
  "copy_map wrap unwrap copy src h =
     (case src of
        None \<Rightarrow> Some (None, h)
      | Some a \<Rightarrow>
          do {
            kvs \<leftarrow> load unwrap h a;
            let (p, h1) = alloc (wrap []) h;
            h2 \<leftarrow> copy_loop AList.update wrap copy p [] kvs h1;
            Some (Some p, h2)
          })"

definition map_ok ::
  "('c \<Rightarrow> ('k \<times> 'v) list option) \<Rightarrow> ('c heap \<Rightarrow> 'v \<Rightarrow> bool) \<Rightarrow> 'c heap \<Rightarrow> addr option \<Rightarrow> bool"
where
  "map_ok unwrap ok h r =
     (case r of None \<Rightarrow> True
      | Some a \<Rightarrow> load unwrap h a \<noteq> None \<and> distinct (map fst (entries unwrap h a))
          \<and> list_all (ok h) (map snd (entries unwrap h a)))"

definition map_refs ::
  "('c \<Rightarrow> ('k \<times> 'v) list option) \<Rightarrow> ('c heap \<Rightarrow> 'v \<Rightarrow> addr set) \<Rightarrow> 'c heap \<Rightarrow> addr option \<Rightarrow> addr set"
where
  "map_refs unwrap refs h r =
     (case r of None \<Rightarrow> {} | Some a \<Rightarrow> insert a (\<Union>(k, v)\<in>set (entries unwrap h a). refs h v))"

definition map_view ::
  "('c \<Rightarrow> ('k \<times> 'v) list option) \<Rightarrow> ('c heap \<Rightarrow> 'v \<Rightarrow> 'w) \<Rightarrow> 'c heap \<Rightarrow> addr option \<Rightarrow> ('k \<rightharpoonup> 'w) option"
where
  "map_view unwrap view h r =
     map_option (\<lambda>a. map_of (map (\<lambda>(k, v). (k, view h v)) (entries unwrap h a))) r"

text \<open>A slice: \<open>nil\<close>, or a window of an array.\<close>

record slice_header =
  hdr_array :: addr
  hdr_off :: nat
  hdr_len :: nat

definition window :: "slice_header \<Rightarrow> 'v list \<Rightarrow> 'v list" where
  "window s xs = take (hdr_len s) (drop (hdr_off s) xs)"

definition copy_slice ::
  "('v list \<Rightarrow> 'c) \<Rightarrow> ('c \<Rightarrow> 'v list option) \<Rightarrow> 'v \<Rightarrow> ('v \<Rightarrow> 'c heap \<Rightarrow> ('v \<times> 'c heap) option)
    \<Rightarrow> slice_header option \<Rightarrow> 'c heap \<Rightarrow> (slice_header option \<times> 'c heap) option"
where
  "copy_slice wrap unwrap zero copy src h =
     (case src of
        None \<Rightarrow> Some (None, h)
      | Some s \<Rightarrow>
          do {
            xs \<leftarrow> load unwrap h (hdr_array s);
            let made = replicate (hdr_len s) zero;
            let (p, h1) = alloc (wrap made) h;
            h2 \<leftarrow> copy_loop (\<lambda>i y ys. ys[i := y]) wrap copy p made (enumerate 0 (window s xs)) h1;
            Some (Some \<lparr>hdr_array = p, hdr_off = 0, hdr_len = hdr_len s\<rparr>, h2)
          })"

definition slice_ok ::
  "('c \<Rightarrow> 'v list option) \<Rightarrow> ('c heap \<Rightarrow> 'v \<Rightarrow> bool) \<Rightarrow> 'c heap \<Rightarrow> slice_header option \<Rightarrow> bool"
where
  "slice_ok unwrap ok h r =
     (case r of None \<Rightarrow> True
      | Some s \<Rightarrow> load unwrap h (hdr_array s) \<noteq> None
          \<and> hdr_off s + hdr_len s \<le> length (entries unwrap h (hdr_array s))
          \<and> list_all (ok h) (window s (entries unwrap h (hdr_array s))))"

definition slice_refs ::
  "('c \<Rightarrow> 'v list option) \<Rightarrow> ('c heap \<Rightarrow> 'v \<Rightarrow> addr set) \<Rightarrow> 'c heap \<Rightarrow> slice_header option \<Rightarrow> addr set"
where
  "slice_refs unwrap refs h r =
     (case r of None \<Rightarrow> {}
      | Some s \<Rightarrow> insert (hdr_array s) (\<Union>v\<in>set (window s (entries unwrap h (hdr_array s))). refs h v))"

definition slice_view ::
  "('c \<Rightarrow> 'v list option) \<Rightarrow> ('c heap \<Rightarrow> 'v \<Rightarrow> 'w) \<Rightarrow> 'c heap \<Rightarrow> slice_header option \<Rightarrow> 'w list option"
where
  "slice_view unwrap view h r =
     map_option (\<lambda>s. map (view h) (window s (entries unwrap h (hdr_array s)))) r"

subsection \<open>They are deep copiers\<close>

lemma entries_agree: "agree A h h' \<Longrightarrow> a \<in> A \<Longrightarrow> entries u h' a = entries u h a"
  by (simp add: entries_def agree_load)

lemma entries_Some: "load u h a = Some xs \<Longrightarrow> entries u h a = xs"
  by (simp add: entries_def)

lemma cells_load: "cells h a = Some c \<Longrightarrow> load u h a = u c"
  by (simp add: load_def)

lemma put_all_map:
  assumes "distinct (map fst out @ ks)" "length ys = length ks"
  shows "put_all AList.update ks ys out = out @ zip ks ys"
  using assms
proof (induction ks ys arbitrary: out rule: list_induct2')
  case (4 k ks y ys)
  have "AList.update k y out = out @ [(k, y)]"
    using "4.prems"(1) by (induction out) auto
  with 4 show ?case by simp
qed (simp_all add: put_all_def)

lemma put_all_slice:
  assumes "length out = n + length ys"
  shows "put_all (\<lambda>i y zs. zs[i := y]) [n..<n + length ys] ys out = take n out @ ys"
  using assms
proof (induction ys arbitrary: n out)
  case Nil
  then show ?case by (simp add: put_all_def)
next
  case (Cons y ys)
  have "[n..<n + length (y # ys)] = n # [Suc n..<n + length (y # ys)]"
    by (rule upt_conv_Cons) simp
  then have "[n..<n + length (y # ys)] = n # [Suc n..<Suc n + length ys]" by simp
  with Cons.IH [of "out[n := y]" "Suc n"] Cons.prems show ?case
    by (simp add: take_Suc_conv_app_nth list_update_append)
qed


lemma map_pairs: "map (\<lambda>(k, v). (k, f v)) kvs = zip (map fst kvs) (map f (map snd kvs))"
  by (induction kvs) auto

context deep_copier begin

lemma copied_length: "copied p h h' xs ys \<Longrightarrow> length ys = length xs"
  unfolding copied_def by (simp add: list_all2_lengthD)

lemma copied_views: "copied p h h' xs ys \<Longrightarrow> map (view h') ys = map (view h) xs"
  unfolding copied_def by (induction xs ys rule: list_all2_induct) auto

lemma copied_ok: "copied p h h' xs ys \<Longrightarrow> y \<in> set ys \<Longrightarrow> ok h' y \<and> refs h' y \<subseteq> {p<..}"
  unfolding copied_def by (induction xs ys rule: list_all2_induct) auto

lemma frame_all:
  assumes "\<And>x. x \<in> set xs \<Longrightarrow> ok h x \<and> agree (refs h x) h h'"
  shows "list_all (ok h') xs \<and> (\<Union>x\<in>set xs. refs h' x) = (\<Union>x\<in>set xs. refs h x)
    \<and> map (view h') xs = map (view h) xs"
proof -
  have "ok h' x \<and> refs h' x = refs h x \<and> view h' x = view h x" if "x \<in> set xs" for x
    using frame assms [OF that] by blast
  then show ?thesis by (simp add: list_all_iff)
qed

lemma ptr_frame:
  assumes "ptr_ok unwrap ok h r"
    and "agree (ptr_refs unwrap refs h r) h h'"
  shows "ptr_ok unwrap ok h' r \<and> ptr_refs unwrap refs h' r = ptr_refs unwrap refs h r
      \<and> ptr_view unwrap view h' r = ptr_view unwrap view h r"
proof (cases r)
  case (Some a)
  from assms(1) Some obtain x where x: "load unwrap h a = Some x" "ok h x"
    by (auto simp: ptr_ok_def split: option.splits)
  from assms(2) Some x(1) have ag: "agree (insert a (refs h x)) h h'" by (simp add: ptr_refs_def)
  have "load unwrap h' a = Some x" by (simp add: agree_load [OF ag] x(1))
  moreover have "ok h' x \<and> refs h' x = refs h x \<and> view h' x = view h x"
    by (rule frame [OF x(2) agree_sub [OF ag]]) blast
  ultimately show ?thesis using Some x by (simp add: ptr_ok_def ptr_refs_def ptr_view_def)
qed (simp add: ptr_ok_def ptr_refs_def ptr_view_def)

lemma ptr_below:
  assumes "wf_heap h" "ptr_ok unwrap ok h r"
  shows "ptr_refs unwrap refs h r \<subseteq> {..<limit h}"
  using assms refs_below load_limit [of h unwrap]
  by (force simp: ptr_ok_def ptr_refs_def split: option.splits)

lemma ptr_copies:
  assumes kind: "cell_kind wrap unwrap"
    and wf: "wf_heap h"
    and r: "ptr_ok unwrap ok h r"
  shows "\<exists>y h'. new_copy wrap unwrap copy r h = Some (y, h') \<and> grows h h' \<and> ptr_ok unwrap ok h' y
      \<and> ptr_view unwrap view h' y = ptr_view unwrap view h r \<and> ptr_refs unwrap refs h' y \<subseteq> {limit h..}"
proof (cases r)
  case None
  then show ?thesis by (simp add: new_copy_def ptr_ok_def ptr_view_def ptr_refs_def grows_refl wf)
next
  case (Some a)
  note u = cell_kind.unwrap_wrap [OF kind]
  from Some r obtain x where x: "load unwrap h a = Some x" "ok h x"
    by (auto simp: ptr_ok_def split: option.splits)
  obtain p h1 where p: "alloc (wrap x) h = (p, h1)" by force
  note e = alloc_grows [OF wf p]
  note x1 = stays [OF wf x(2) e]
  from copyE [OF grows_wf [OF e] x1(1)] obtain y h2 where y: "copy x h1 = Some (y, h2)"
    "grows h1 h2" "ok h2 y" "view h2 y = view h1 x" "refs h2 y \<subseteq> {limit h1..}" .
  have pl: "p = limit h" "limit h1 = Suc p" using p by (auto simp: alloc_def)
  have "p \<notin> refs h2 y" using y(5) pl by auto
  note y2 = frame_store [OF y(3) this, of "wrap y"]
  let ?h = "store p (wrap y) h2"
  have "grows h ?h"
    using grows_trans [OF e y(2)] pl wf_store [OF grows_wf [OF y(2)], of p] grows_limit [OF y(2)]
    by (auto simp: grows_def agree_def)
  moreover have "new_copy wrap unwrap copy r h = Some (Some p, ?h)"
    using Some x(1) p y(1) by (simp add: new_copy_def)
  moreover have "ptr_ok unwrap ok ?h (Some p)" by (simp add: ptr_ok_def u y2)
  moreover have "ptr_view unwrap view ?h (Some p) = ptr_view unwrap view h r"
    by (simp add: ptr_view_def u y2 y(4) x1 Some x(1))
  moreover have "ptr_refs unwrap refs ?h (Some p) \<subseteq> {limit h..}"
  proof -
    have "refs ?h y \<subseteq> {p..}" unfolding y2(2) using y(5) pl(2) by auto
    then show ?thesis by (simp add: ptr_refs_def u pl(1) [symmetric])
  qed
  ultimately show ?thesis by blast
qed

lemma copier_ptr:
  assumes "cell_kind wrap unwrap"
  shows "deep_copier (ptr_ok unwrap ok) (ptr_refs unwrap refs) (ptr_view unwrap view)
    (new_copy wrap unwrap copy)"
  by unfold_locales (blast dest: ptr_frame, erule (1) ptr_below, erule (1) ptr_copies [OF assms])

lemma copier_deref:
  assumes "cell_kind wrap unwrap"
  shows "deep_copier ok refs view (deref_copy wrap unwrap copy)"
proof
  show "ok h' x \<and> refs h' x = refs h x \<and> view h' x = view h x"
    if "ok h x" "agree (refs h x) h h'" for h h' x using that by (rule frame)
  show "refs h x \<subseteq> {..<limit h}" if "wf_heap h" "ok h x" for h x using that by (rule refs_below)
  show "\<exists>y h'. deref_copy wrap unwrap copy x h = Some (y, h') \<and> grows h h' \<and> ok h' y
      \<and> view h' y = view h x \<and> refs h' y \<subseteq> {limit h..}" if wf: "wf_heap h" and x: "ok h x" for h x
  proof -
    obtain p h1 where p: "alloc (wrap x) h = (p, h1)" by force
    note e = alloc_grows [OF wf p]
    note x1 = stays [OF wf x e]
    have l: "load unwrap h1 p = Some x"
      using p cell_kind.unwrap_wrap [OF assms] by (auto simp: alloc_def load_def)
    have "ptr_ok unwrap ok h1 (Some p)" by (simp add: ptr_ok_def l x1)
    from deep_copier.copyE [OF copier_ptr [OF assms] grows_wf [OF e] this]
    obtain q h2 where q: "new_copy wrap unwrap copy (Some p) h1 = Some (q, h2)" "grows h1 h2"
      "ptr_ok unwrap ok h2 q" "ptr_view unwrap view h2 q = ptr_view unwrap view h1 (Some p)"
      "ptr_refs unwrap refs h2 q \<subseteq> {limit h1..}" .
    from q(4) obtain b y where y: "q = Some b" "load unwrap h2 b = Some y" "view h2 y = view h1 x"
      by (auto simp: ptr_view_def l bind_eq_Some_conv)
    have "ok h2 y" "refs h2 y \<subseteq> {limit h1..}" using q(3,5) y by (auto simp: ptr_ok_def ptr_refs_def)
    moreover have "deref_copy wrap unwrap copy x h = Some (y, h2)"
      by (simp add: deref_copy_def p q(1) y(1,2))
    ultimately show ?thesis
      using grows_trans [OF e q(2)] grows_limit [OF e] y(3) x1(3)
      by (intro exI [of _ y] exI [of _ h2]) auto
  qed
qed

lemma map_frame:
  assumes r: "map_ok unwrap ok h r"
    and ag: "agree (map_refs unwrap refs h r) h h'"
  shows "map_ok unwrap ok h' r \<and> map_refs unwrap refs h' r = map_refs unwrap refs h r
      \<and> map_view unwrap view h' r = map_view unwrap view h r"
proof (cases r)
  case (Some a)
  let ?kvs = "entries unwrap h a"
  have a: "a \<in> map_refs unwrap refs h r" by (simp add: map_refs_def Some)
  have "ok h v \<and> agree (refs h v) h h'" if "v \<in> set (map snd ?kvs)" for v
    using r that Some agree_sub [OF ag, of "refs h v"]
    by (force simp: map_ok_def map_refs_def list_all_iff)
  note el = frame_all [of "map snd ?kvs", OF this]
  have "(\<Union>(k, v)\<in>set ?kvs. refs h' v) = (\<Union>(k, v)\<in>set ?kvs. refs h v)"
    using el by (simp add: case_prod_unfold image_image)
  moreover have "map_view unwrap view h' r = map_view unwrap view h r"
    by (simp only: map_view_def Some option.map map_pairs entries_agree [OF ag a] el)
  moreover have "map_ok unwrap ok h' r"
    using r el by (simp add: Some map_ok_def entries_agree [OF ag a] agree_load [OF ag a])
  ultimately show ?thesis by (simp add: Some map_refs_def entries_agree [OF ag a])
qed (simp add: map_ok_def map_refs_def map_view_def)

lemma map_below:
  assumes "wf_heap h" "map_ok unwrap ok h r"
  shows "map_refs unwrap refs h r \<subseteq> {..<limit h}"
  using assms refs_below load_limit [of h unwrap]
  by (force simp: map_ok_def map_refs_def list_all_iff split: option.splits)

lemma map_copies:
  assumes kind: "cell_kind wrap unwrap"
    and wf: "wf_heap h"
    and r: "map_ok unwrap ok h r"
  shows "\<exists>y h'. copy_map wrap unwrap copy r h = Some (y, h') \<and> grows h h' \<and> map_ok unwrap ok h' y
      \<and> map_view unwrap view h' y = map_view unwrap view h r \<and> map_refs unwrap refs h' y \<subseteq> {limit h..}"
proof (cases r)
  case None
  then show ?thesis by (simp add: copy_map_def map_ok_def map_view_def map_refs_def grows_refl wf)
next
  case (Some a)
  note u = cell_kind.unwrap_wrap [OF kind]
  from Some r obtain kvs where kvs: "load unwrap h a = Some kvs" "distinct (map fst kvs)"
    "\<And>k x. (k, x) \<in> set kvs \<Longrightarrow> ok h x"
    by (force simp: map_ok_def entries_Some list_all_iff)
  obtain p h1 where p: "alloc (wrap []) h = (p, h1)" by force
  from fresh_loop [of h wrap "[]", OF wf p, of kvs AList.update] kvs(3) obtain ys h' where
    ys: "copy_loop AList.update wrap copy p [] kvs h1 = Some h'" "grows h h'" "p = limit h"
      "cells h' p = Some (wrap (put_all AList.update (map fst kvs) ys []))"
      "copied p h h' (map snd kvs) ys" by blast
  have len: "length ys = length kvs" using copied_length [OF ys(5)] by simp
  have e: "load unwrap h' p = Some (zip (map fst kvs) ys)"
    using ys(4) kvs(2) len by (simp add: load_def u put_all_map)
  have "map (\<lambda>(k, v). (k, view h' v)) (zip (map fst kvs) ys) = map (\<lambda>(k, v). (k, view h v)) kvs"
    using copied_views [OF ys(5)] len by (simp only: map_pairs) simp
  then have "map_view unwrap view h' (Some p) = map_view unwrap view h r"
    by (simp add: map_view_def entries_Some [OF e] Some entries_Some [OF kvs(1)])
  moreover have "map_ok unwrap ok h' (Some p)"
    using copied_ok [OF ys(5)] kvs(2) len by (simp add: map_ok_def e entries_Some [OF e] list_all_iff)
  moreover have "map_refs unwrap refs h' (Some p) \<subseteq> {limit h..}"
  proof -
    have "\<forall>y\<in>set ys. refs h' y \<subseteq> {p..}" using copied_ok [OF ys(5)] by fastforce
    then have "map_refs unwrap refs h' (Some p) \<subseteq> {p..}"
      by (fastforce simp: map_refs_def entries_Some [OF e] dest: set_zip_rightD)
    then show ?thesis by (simp only: ys(3))
  qed
  moreover have "copy_map wrap unwrap copy r h = Some (Some p, h')"
    by (simp add: copy_map_def Some kvs(1) p ys(1))
  ultimately show ?thesis using ys(2) by blast
qed

lemma copier_map:
  assumes "cell_kind wrap unwrap"
  shows "deep_copier (map_ok unwrap ok) (map_refs unwrap refs) (map_view unwrap view)
    (copy_map wrap unwrap copy)"
  by unfold_locales (blast dest: map_frame, erule (1) map_below, erule (1) map_copies [OF assms])

lemma slice_frame:
  assumes r: "slice_ok unwrap ok h r"
    and ag: "agree (slice_refs unwrap refs h r) h h'"
  shows "slice_ok unwrap ok h' r \<and> slice_refs unwrap refs h' r = slice_refs unwrap refs h r
      \<and> slice_view unwrap view h' r = slice_view unwrap view h r"
proof (cases r)
  case (Some s)
  let ?xs = "window s (entries unwrap h (hdr_array s))"
  have a: "hdr_array s \<in> slice_refs unwrap refs h r" by (simp add: slice_refs_def Some)
  have "ok h v \<and> agree (refs h v) h h'" if "v \<in> set ?xs" for v
    using r that Some agree_sub [OF ag, of "refs h v"]
    by (force simp: slice_ok_def slice_refs_def list_all_iff)
  note el = frame_all [of ?xs, OF this]
  have "slice_view unwrap view h' r = slice_view unwrap view h r"
    by (simp only: slice_view_def Some option.map entries_agree [OF ag a] el)
  moreover have "slice_ok unwrap ok h' r"
    using r el by (simp add: Some slice_ok_def entries_agree [OF ag a] agree_load [OF ag a])
  ultimately show ?thesis using el by (simp add: Some slice_refs_def entries_agree [OF ag a])
qed (simp add: slice_ok_def slice_refs_def slice_view_def)

lemma slice_below:
  assumes "wf_heap h" "slice_ok unwrap ok h r"
  shows "slice_refs unwrap refs h r \<subseteq> {..<limit h}"
  using assms refs_below load_limit [of h unwrap]
  by (force simp: slice_ok_def slice_refs_def list_all_iff split: option.splits)

lemma slice_copies:
  assumes kind: "cell_kind wrap unwrap"
    and wf: "wf_heap h"
    and r: "slice_ok unwrap ok h r"
  shows "\<exists>y h'. copy_slice wrap unwrap zero copy r h = Some (y, h') \<and> grows h h'
      \<and> slice_ok unwrap ok h' y \<and> slice_view unwrap view h' y = slice_view unwrap view h r
      \<and> slice_refs unwrap refs h' y \<subseteq> {limit h..}"
proof (cases r)
  case None
  then show ?thesis
    by (simp add: copy_slice_def slice_ok_def slice_view_def slice_refs_def grows_refl wf)
next
  case (Some s)
  note u = cell_kind.unwrap_wrap [OF kind]
  from Some r obtain arr where arr: "load unwrap h (hdr_array s) = Some arr"
    by (auto simp: slice_ok_def)
  define xs where "xs = window s arr"
  have xs: "length xs = hdr_len s" "\<And>x. x \<in> set xs \<Longrightarrow> ok h x"
    using r by (auto simp: Some slice_ok_def entries_Some [OF arr] xs_def window_def list_all_iff)
  let ?made = "replicate (hdr_len s) zero"
  obtain p h1 where p: "alloc (wrap ?made) h = (p, h1)" by force
  have en: "map fst (enumerate 0 xs) = [0..<0 + hdr_len s]" "map snd (enumerate 0 xs) = xs"
    using xs(1) by (simp_all add: enumerate_eq_zip)
  have okx: "\<And>k x. (k, x) \<in> set (enumerate 0 xs) \<Longrightarrow> ok h x"
    using xs(2) by (auto simp: enumerate_eq_zip dest: set_zip_rightD)
  from fresh_loop [of h wrap ?made, OF wf p, of "enumerate 0 xs" "\<lambda>i y ys. ys[i := y]"] okx
  obtain ys h' where
    ys: "copy_loop (\<lambda>i y ys. ys[i := y]) wrap copy p ?made (enumerate 0 xs) h1 = Some h'" "grows h h'"
      "p = limit h" "cells h' p = Some (wrap (put_all (\<lambda>i y ys. ys[i := y]) [0..<0 + hdr_len s] ys ?made))"
      "copied p h h' xs ys" unfolding en by blast
  have len: "length ys = hdr_len s" using copied_length [OF ys(5)] xs(1) by simp
  let ?r = "Some \<lparr>hdr_array = p, hdr_off = 0, hdr_len = hdr_len s\<rparr>"
  have "put_all (\<lambda>i y ys. ys[i := y]) [0..<0 + hdr_len s] ys ?made = ys"
    using put_all_slice [of ?made 0 ys] len by simp
  then have e: "load unwrap h' p = Some ys" using ys(4) by (simp add: load_def u)
  have w: "window \<lparr>hdr_array = p, hdr_off = 0, hdr_len = hdr_len s\<rparr> ys = ys"
    by (simp add: window_def len)
  have "copy_slice wrap unwrap zero copy r h = Some (?r, h')"
    using ys(1) by (simp add: copy_slice_def Some arr p xs_def [symmetric])
  moreover have "slice_view unwrap view h' ?r = slice_view unwrap view h r"
    using copied_views [OF ys(5)]
    by (simp add: slice_view_def entries_Some [OF e] Some entries_Some [OF arr] w xs_def)
  moreover have "slice_ok unwrap ok h' ?r"
    using copied_ok [OF ys(5)] by (simp add: slice_ok_def e entries_Some [OF e] w len list_all_iff)
  moreover have "slice_refs unwrap refs h' ?r \<subseteq> {limit h..}"
  proof -
    have "\<forall>y\<in>set ys. refs h' y \<subseteq> {p..}" using copied_ok [OF ys(5)] by fastforce
    then have "slice_refs unwrap refs h' ?r \<subseteq> {p..}"
      by (auto simp: slice_refs_def entries_Some [OF e] w)
    then show ?thesis by (simp only: ys(3))
  qed
  ultimately show ?thesis using ys(2) by blast
qed

lemma copier_slice:
  assumes "cell_kind wrap unwrap"
  shows "deep_copier (slice_ok unwrap ok) (slice_refs unwrap refs) (slice_view unwrap view)
    (copy_slice wrap unwrap zero copy)"
  by unfold_locales (blast dest: slice_frame, erule (1) slice_below, erule (1) slice_copies [OF assms])

end

end
