(* ===== verification/Deep_Copy.thy ===== *)
theory Deep_Copy
  imports Go_Heap Api_Types
begin

text \<open>
  The generated deep copies, \<open>pkg/apis/intel/v1alpha1/zz_generated.deepcopy.go\<close>, on a heap.
  Here, unlike in \<open>Api_Types\<close>, a slice is a header that refers to an array, a map a reference
  to its entries, \<open>nil\<close> differs from empty, and an object lies at an address. The metadata
  of Kubernetes objects are a type parameter \<open>'m\<close>; their deep copies are third-party code and
  an argument, of which the lemmas assume that it is a deep copy itself.

  A method \<open>DeepCopyInto\<close> with receiver \<open>in\<close> and argument \<open>out\<close> maps the value \<open>*in\<close> to the
  final value of \<open>*out\<close>: its first statement assigns the whole of \<open>*in\<close> to \<open>*out\<close>, so that the
  earlier value of \<open>*out\<close> does not matter.
\<close>

section \<open>The structs in memory\<close>

record TypeMeta =
  Kind :: string
  APIVersion :: string

record RmdConfigSpecM =
  mRmdImage :: string
  mDeployNodeAgent :: bool
  mRmdNodeSelector :: "addr option"

record RmdConfigStatusM =
  mStatusNodes :: "slice_header option"

record 'm RmdConfigM =
  mcType :: TypeMeta
  mcMeta :: 'm
  mcSpec :: RmdConfigSpecM
  mcStatus :: RmdConfigStatusM

record 'm RmdConfigListM =
  mclType :: TypeMeta
  mclMeta :: 'm
  mclItems :: "slice_header option"

record RmdNodeStateStatusM =
  mNodeWorkloads :: "addr option"

record 'm RmdNodeStateM =
  mnType :: TypeMeta
  mnMeta :: 'm
  mnSpec :: RmdNodeStateSpec
  mnStatus :: RmdNodeStateStatusM

record 'm RmdNodeStateListM =
  mnlType :: TypeMeta
  mnlMeta :: 'm
  mnlItems :: "slice_header option"

record WorkloadStateM =
  mResponse :: string
  mID :: string
  mCosName :: string
  mStatus :: string
  mStateCoreIds :: "slice_header option"
  mStatePolicy :: string
  mStateRdt :: Rdt
  mStatePlugins :: Plugins

record RmdWorkloadSpecM =
  mAllCores :: bool
  mCoreIds :: "slice_header option"
  mReservedCoreIds :: "slice_header option"
  mPolicy :: string
  mRdt :: Rdt
  mPlugins :: Plugins
  mNodeSelector :: "addr option"
  mNodes :: "slice_header option"

record RmdWorkloadStatusM =
  mWorkloadStates :: "addr option"

record 'm RmdWorkloadM =
  mwType :: TypeMeta
  mwMeta :: 'm
  mwSpec :: RmdWorkloadSpecM
  mwStatus :: RmdWorkloadStatusM

record 'm RmdWorkloadListM =
  mwlType :: TypeMeta
  mwlMeta :: 'm
  mwlItems :: "slice_header option"

text \<open>
  What a cell can hold: the arrays and maps the structs refer to, the structs themselves, and
  whatever the metadata refer to.
\<close>

datatype 'm mcell =
    MStrings "string list"
  | MStringMap "string smap"
  | MWorkloadMaps "addr option smap"
  | MStates "WorkloadStateM smap"
  | MConfigs "'m RmdConfigM list"
  | MNodeStates "'m RmdNodeStateM list"
  | MWorkloads "'m RmdWorkloadM list"
  | MCache "Cache"
  | MMba "Mba"
  | MPlugins "Plugins"
  | MPstate "Pstate"
  | MRdt "Rdt"
  | MConfig "'m RmdConfigM"
  | MConfigList "'m RmdConfigListM"
  | MConfigSpec "RmdConfigSpecM"
  | MConfigStatus "RmdConfigStatusM"
  | MNodeState "'m RmdNodeStateM"
  | MNodeStateList "'m RmdNodeStateListM"
  | MNodeStateSpec "RmdNodeStateSpec"
  | MNodeStateStatus "RmdNodeStateStatusM"
  | MWorkload "'m RmdWorkloadM"
  | MWorkloadList "'m RmdWorkloadListM"
  | MWorkloadSpec "RmdWorkloadSpecM"
  | MWorkloadStatus "RmdWorkloadStatusM"
  | MWorkloadMap "addr option"
  | MState "WorkloadStateM"
  | MMeta "'m"

definition un_MStrings :: "'m mcell \<Rightarrow> (string list) option" where
  "un_MStrings c = (case c of MStrings x \<Rightarrow> Some x | _ \<Rightarrow> None)"

definition un_MStringMap :: "'m mcell \<Rightarrow> (string smap) option" where
  "un_MStringMap c = (case c of MStringMap x \<Rightarrow> Some x | _ \<Rightarrow> None)"

definition un_MWorkloadMaps :: "'m mcell \<Rightarrow> (addr option smap) option" where
  "un_MWorkloadMaps c = (case c of MWorkloadMaps x \<Rightarrow> Some x | _ \<Rightarrow> None)"

definition un_MStates :: "'m mcell \<Rightarrow> (WorkloadStateM smap) option" where
  "un_MStates c = (case c of MStates x \<Rightarrow> Some x | _ \<Rightarrow> None)"

definition un_MConfigs :: "'m mcell \<Rightarrow> ('m RmdConfigM list) option" where
  "un_MConfigs c = (case c of MConfigs x \<Rightarrow> Some x | _ \<Rightarrow> None)"

definition un_MNodeStates :: "'m mcell \<Rightarrow> ('m RmdNodeStateM list) option" where
  "un_MNodeStates c = (case c of MNodeStates x \<Rightarrow> Some x | _ \<Rightarrow> None)"

definition un_MWorkloads :: "'m mcell \<Rightarrow> ('m RmdWorkloadM list) option" where
  "un_MWorkloads c = (case c of MWorkloads x \<Rightarrow> Some x | _ \<Rightarrow> None)"

definition un_MCache :: "'m mcell \<Rightarrow> Cache option" where
  "un_MCache c = (case c of MCache x \<Rightarrow> Some x | _ \<Rightarrow> None)"

definition un_MMba :: "'m mcell \<Rightarrow> Mba option" where
  "un_MMba c = (case c of MMba x \<Rightarrow> Some x | _ \<Rightarrow> None)"

definition un_MPlugins :: "'m mcell \<Rightarrow> Plugins option" where
  "un_MPlugins c = (case c of MPlugins x \<Rightarrow> Some x | _ \<Rightarrow> None)"

definition un_MPstate :: "'m mcell \<Rightarrow> Pstate option" where
  "un_MPstate c = (case c of MPstate x \<Rightarrow> Some x | _ \<Rightarrow> None)"

definition un_MRdt :: "'m mcell \<Rightarrow> Rdt option" where
  "un_MRdt c = (case c of MRdt x \<Rightarrow> Some x | _ \<Rightarrow> None)"

definition un_MConfig :: "'m mcell \<Rightarrow> ('m RmdConfigM) option" where
  "un_MConfig c = (case c of MConfig x \<Rightarrow> Some x | _ \<Rightarrow> None)"

definition un_MConfigList :: "'m mcell \<Rightarrow> ('m RmdConfigListM) option" where
  "un_MConfigList c = (case c of MConfigList x \<Rightarrow> Some x | _ \<Rightarrow> None)"

definition un_MConfigSpec :: "'m mcell \<Rightarrow> RmdConfigSpecM option" where
  "un_MConfigSpec c = (case c of MConfigSpec x \<Rightarrow> Some x | _ \<Rightarrow> None)"

definition un_MConfigStatus :: "'m mcell \<Rightarrow> RmdConfigStatusM option" where
  "un_MConfigStatus c = (case c of MConfigStatus x \<Rightarrow> Some x | _ \<Rightarrow> None)"

definition un_MNodeState :: "'m mcell \<Rightarrow> ('m RmdNodeStateM) option" where
  "un_MNodeState c = (case c of MNodeState x \<Rightarrow> Some x | _ \<Rightarrow> None)"

definition un_MNodeStateList :: "'m mcell \<Rightarrow> ('m RmdNodeStateListM) option" where
  "un_MNodeStateList c = (case c of MNodeStateList x \<Rightarrow> Some x | _ \<Rightarrow> None)"

definition un_MNodeStateSpec :: "'m mcell \<Rightarrow> RmdNodeStateSpec option" where
  "un_MNodeStateSpec c = (case c of MNodeStateSpec x \<Rightarrow> Some x | _ \<Rightarrow> None)"

definition un_MNodeStateStatus :: "'m mcell \<Rightarrow> RmdNodeStateStatusM option" where
  "un_MNodeStateStatus c = (case c of MNodeStateStatus x \<Rightarrow> Some x | _ \<Rightarrow> None)"

definition un_MWorkload :: "'m mcell \<Rightarrow> ('m RmdWorkloadM) option" where
  "un_MWorkload c = (case c of MWorkload x \<Rightarrow> Some x | _ \<Rightarrow> None)"

definition un_MWorkloadList :: "'m mcell \<Rightarrow> ('m RmdWorkloadListM) option" where
  "un_MWorkloadList c = (case c of MWorkloadList x \<Rightarrow> Some x | _ \<Rightarrow> None)"

definition un_MWorkloadSpec :: "'m mcell \<Rightarrow> RmdWorkloadSpecM option" where
  "un_MWorkloadSpec c = (case c of MWorkloadSpec x \<Rightarrow> Some x | _ \<Rightarrow> None)"

definition un_MWorkloadStatus :: "'m mcell \<Rightarrow> RmdWorkloadStatusM option" where
  "un_MWorkloadStatus c = (case c of MWorkloadStatus x \<Rightarrow> Some x | _ \<Rightarrow> None)"

definition un_MWorkloadMap :: "'m mcell \<Rightarrow> (addr option) option" where
  "un_MWorkloadMap c = (case c of MWorkloadMap x \<Rightarrow> Some x | _ \<Rightarrow> None)"

definition un_MState :: "'m mcell \<Rightarrow> WorkloadStateM option" where
  "un_MState c = (case c of MState x \<Rightarrow> Some x | _ \<Rightarrow> None)"

interpretation kind_strings: cell_kind MStrings un_MStrings
  by unfold_locales (simp add: un_MStrings_def)

interpretation kind_stringmap: cell_kind MStringMap un_MStringMap
  by unfold_locales (simp add: un_MStringMap_def)

interpretation kind_workloadmaps: cell_kind MWorkloadMaps un_MWorkloadMaps
  by unfold_locales (simp add: un_MWorkloadMaps_def)

interpretation kind_states: cell_kind MStates un_MStates
  by unfold_locales (simp add: un_MStates_def)

interpretation kind_configs: cell_kind MConfigs un_MConfigs
  by unfold_locales (simp add: un_MConfigs_def)

interpretation kind_nodestates: cell_kind MNodeStates un_MNodeStates
  by unfold_locales (simp add: un_MNodeStates_def)

interpretation kind_workloads: cell_kind MWorkloads un_MWorkloads
  by unfold_locales (simp add: un_MWorkloads_def)

interpretation kind_cache: cell_kind MCache un_MCache
  by unfold_locales (simp add: un_MCache_def)

interpretation kind_mba: cell_kind MMba un_MMba
  by unfold_locales (simp add: un_MMba_def)

interpretation kind_plugins: cell_kind MPlugins un_MPlugins
  by unfold_locales (simp add: un_MPlugins_def)

interpretation kind_pstate: cell_kind MPstate un_MPstate
  by unfold_locales (simp add: un_MPstate_def)

interpretation kind_rdt: cell_kind MRdt un_MRdt
  by unfold_locales (simp add: un_MRdt_def)

interpretation kind_config: cell_kind MConfig un_MConfig
  by unfold_locales (simp add: un_MConfig_def)

interpretation kind_configlist: cell_kind MConfigList un_MConfigList
  by unfold_locales (simp add: un_MConfigList_def)

interpretation kind_configspec: cell_kind MConfigSpec un_MConfigSpec
  by unfold_locales (simp add: un_MConfigSpec_def)

interpretation kind_configstatus: cell_kind MConfigStatus un_MConfigStatus
  by unfold_locales (simp add: un_MConfigStatus_def)

interpretation kind_nodestate: cell_kind MNodeState un_MNodeState
  by unfold_locales (simp add: un_MNodeState_def)

interpretation kind_nodestatelist: cell_kind MNodeStateList un_MNodeStateList
  by unfold_locales (simp add: un_MNodeStateList_def)

interpretation kind_nodestatespec: cell_kind MNodeStateSpec un_MNodeStateSpec
  by unfold_locales (simp add: un_MNodeStateSpec_def)

interpretation kind_nodestatestatus: cell_kind MNodeStateStatus un_MNodeStateStatus
  by unfold_locales (simp add: un_MNodeStateStatus_def)

interpretation kind_workload: cell_kind MWorkload un_MWorkload
  by unfold_locales (simp add: un_MWorkload_def)

interpretation kind_workloadlist: cell_kind MWorkloadList un_MWorkloadList
  by unfold_locales (simp add: un_MWorkloadList_def)

interpretation kind_workloadspec: cell_kind MWorkloadSpec un_MWorkloadSpec
  by unfold_locales (simp add: un_MWorkloadSpec_def)

interpretation kind_workloadstatus: cell_kind MWorkloadStatus un_MWorkloadStatus
  by unfold_locales (simp add: un_MWorkloadStatus_def)

interpretation kind_workloadmap: cell_kind MWorkloadMap un_MWorkloadMap
  by unfold_locales (simp add: un_MWorkloadMap_def)

interpretation kind_state: cell_kind MState un_MState
  by unfold_locales (simp add: un_MState_def)


section \<open>The copies\<close>

text \<open>The deep copies of \<open>metav1.ObjectMeta\<close> and \<open>metav1.ListMeta\<close>, and their zero value.\<close>

record 'm meta_api =
  copyObjectMeta :: "'m \<Rightarrow> 'm mcell heap \<Rightarrow> ('m \<times> 'm mcell heap) option"
  copyListMeta :: "'m \<Rightarrow> 'm mcell heap \<Rightarrow> ('m \<times> 'm mcell heap) option"
  zeroMeta :: 'm

text \<open>Strings are values; \<open>copy(*out, *in)\<close> copies them cell by cell.\<close>

definition copy_string :: "string \<Rightarrow> 'm mcell heap \<Rightarrow> (string \<times> 'm mcell heap) option" where
  "copy_string s h = Some (s, h)"

definition copy_strings ::
  "slice_header option \<Rightarrow> 'm mcell heap \<Rightarrow> (slice_header option \<times> 'm mcell heap) option"
where
  "copy_strings = copy_slice MStrings un_MStrings [] copy_string"

definition copy_string_map :: "addr option \<Rightarrow> 'm mcell heap \<Rightarrow> (addr option \<times> 'm mcell heap) option" where
  "copy_string_map = copy_map MStringMap un_MStringMap copy_string"

subsection \<open>Structs without references\<close>

definition Cache_DeepCopyInto :: "Cache \<Rightarrow> 'm mcell heap \<Rightarrow> (Cache \<times> 'm mcell heap) option" where
  "Cache_DeepCopyInto src h = Some (src, h)"

definition Cache_DeepCopy :: "addr option \<Rightarrow> 'm mcell heap \<Rightarrow> (addr option \<times> 'm mcell heap) option" where
  "Cache_DeepCopy = new_copy MCache un_MCache Cache_DeepCopyInto"

definition Mba_DeepCopyInto :: "Mba \<Rightarrow> 'm mcell heap \<Rightarrow> (Mba \<times> 'm mcell heap) option" where
  "Mba_DeepCopyInto src h = Some (src, h)"

definition Mba_DeepCopy :: "addr option \<Rightarrow> 'm mcell heap \<Rightarrow> (addr option \<times> 'm mcell heap) option" where
  "Mba_DeepCopy = new_copy MMba un_MMba Mba_DeepCopyInto"

definition Plugins_DeepCopyInto :: "Plugins \<Rightarrow> 'm mcell heap \<Rightarrow> (Plugins \<times> 'm mcell heap) option" where
  "Plugins_DeepCopyInto src h = (let out = src in Some (out\<lparr>pstate := pstate src\<rparr>, h))"

definition Plugins_DeepCopy :: "addr option \<Rightarrow> 'm mcell heap \<Rightarrow> (addr option \<times> 'm mcell heap) option" where
  "Plugins_DeepCopy = new_copy MPlugins un_MPlugins Plugins_DeepCopyInto"

definition Pstate_DeepCopyInto :: "Pstate \<Rightarrow> 'm mcell heap \<Rightarrow> (Pstate \<times> 'm mcell heap) option" where
  "Pstate_DeepCopyInto src h = Some (src, h)"

definition Pstate_DeepCopy :: "addr option \<Rightarrow> 'm mcell heap \<Rightarrow> (addr option \<times> 'm mcell heap) option" where
  "Pstate_DeepCopy = new_copy MPstate un_MPstate Pstate_DeepCopyInto"

definition Rdt_DeepCopyInto :: "Rdt \<Rightarrow> 'm mcell heap \<Rightarrow> (Rdt \<times> 'm mcell heap) option" where
  "Rdt_DeepCopyInto src h =
     (let out = src in Some (out\<lparr>rdtCache := rdtCache src, rdtMba := rdtMba src\<rparr>, h))"

definition Rdt_DeepCopy :: "addr option \<Rightarrow> 'm mcell heap \<Rightarrow> (addr option \<times> 'm mcell heap) option" where
  "Rdt_DeepCopy = new_copy MRdt un_MRdt Rdt_DeepCopyInto"

definition RmdNodeStateSpec_DeepCopyInto ::
  "RmdNodeStateSpec \<Rightarrow> 'm mcell heap \<Rightarrow> (RmdNodeStateSpec \<times> 'm mcell heap) option"
where
  "RmdNodeStateSpec_DeepCopyInto src h = Some (src, h)"

definition RmdNodeStateSpec_DeepCopy ::
  "addr option \<Rightarrow> 'm mcell heap \<Rightarrow> (addr option \<times> 'm mcell heap) option"
where
  "RmdNodeStateSpec_DeepCopy = new_copy MNodeStateSpec un_MNodeStateSpec RmdNodeStateSpec_DeepCopyInto"

subsection \<open>RmdConfig\<close>

definition RmdConfigSpec_DeepCopyInto ::
  "RmdConfigSpecM \<Rightarrow> 'm mcell heap \<Rightarrow> (RmdConfigSpecM \<times> 'm mcell heap) option"
where
  "RmdConfigSpec_DeepCopyInto src h =
     do {
       let out = src;
       (sel, h1) \<leftarrow> copy_string_map (mRmdNodeSelector src) h;
       Some (out\<lparr>mRmdNodeSelector := sel\<rparr>, h1)
     }"

definition RmdConfigSpec_DeepCopy ::
  "addr option \<Rightarrow> 'm mcell heap \<Rightarrow> (addr option \<times> 'm mcell heap) option"
where
  "RmdConfigSpec_DeepCopy = new_copy MConfigSpec un_MConfigSpec RmdConfigSpec_DeepCopyInto"

definition RmdConfigStatus_DeepCopyInto ::
  "RmdConfigStatusM \<Rightarrow> 'm mcell heap \<Rightarrow> (RmdConfigStatusM \<times> 'm mcell heap) option"
where
  "RmdConfigStatus_DeepCopyInto src h =
     do {
       let out = src;
       (nodes, h1) \<leftarrow> copy_strings (mStatusNodes src) h;
       Some (out\<lparr>mStatusNodes := nodes\<rparr>, h1)
     }"

definition RmdConfigStatus_DeepCopy ::
  "addr option \<Rightarrow> 'm mcell heap \<Rightarrow> (addr option \<times> 'm mcell heap) option"
where
  "RmdConfigStatus_DeepCopy = new_copy MConfigStatus un_MConfigStatus RmdConfigStatus_DeepCopyInto"

definition RmdConfig_DeepCopyInto ::
  "'m meta_api \<Rightarrow> 'm RmdConfigM \<Rightarrow> 'm mcell heap \<Rightarrow> ('m RmdConfigM \<times> 'm mcell heap) option"
where
  "RmdConfig_DeepCopyInto M src h =
     do {
       let out = src\<lparr>mcType := mcType src\<rparr>;
       (meta, h1) \<leftarrow> copyObjectMeta M (mcMeta src) h;
       (spec, h2) \<leftarrow> RmdConfigSpec_DeepCopyInto (mcSpec src) h1;
       (status, h3) \<leftarrow> RmdConfigStatus_DeepCopyInto (mcStatus src) h2;
       Some (out\<lparr>mcMeta := meta, mcSpec := spec, mcStatus := status\<rparr>, h3)
     }"

definition RmdConfig_DeepCopy ::
  "'m meta_api \<Rightarrow> addr option \<Rightarrow> 'm mcell heap \<Rightarrow> (addr option \<times> 'm mcell heap) option"
where
  "RmdConfig_DeepCopy M = new_copy MConfig un_MConfig (RmdConfig_DeepCopyInto M)"

definition zero_TypeMeta :: TypeMeta where
  "zero_TypeMeta = \<lparr>Kind = '''', APIVersion = ''''\<rparr>"

definition zero_RmdConfigM :: "'m meta_api \<Rightarrow> 'm RmdConfigM" where
  "zero_RmdConfigM M =
     \<lparr>mcType = zero_TypeMeta, mcMeta = zeroMeta M,
      mcSpec = \<lparr>mRmdImage = '''', mDeployNodeAgent = False, mRmdNodeSelector = None\<rparr>,
      mcStatus = \<lparr>mStatusNodes = None\<rparr>\<rparr>"

definition RmdConfigList_DeepCopyInto ::
  "'m meta_api \<Rightarrow> 'm RmdConfigListM \<Rightarrow> 'm mcell heap \<Rightarrow> ('m RmdConfigListM \<times> 'm mcell heap) option"
where
  "RmdConfigList_DeepCopyInto M src h =
     do {
       let out = src\<lparr>mclType := mclType src\<rparr>;
       (meta, h1) \<leftarrow> copyListMeta M (mclMeta src) h;
       (items, h2) \<leftarrow> copy_slice MConfigs un_MConfigs (zero_RmdConfigM M) (RmdConfig_DeepCopyInto M)
                        (mclItems src) h1;
       Some (out\<lparr>mclMeta := meta, mclItems := items\<rparr>, h2)
     }"

definition RmdConfigList_DeepCopy ::
  "'m meta_api \<Rightarrow> addr option \<Rightarrow> 'm mcell heap \<Rightarrow> (addr option \<times> 'm mcell heap) option"
where
  "RmdConfigList_DeepCopy M = new_copy MConfigList un_MConfigList (RmdConfigList_DeepCopyInto M)"

subsection \<open>RmdNodeState\<close>

text \<open>
  A \<open>WorkloadMap\<close> is a map type with methods of its own: \<open>DeepCopyInto\<close>, whose receiver may be
  \<open>nil\<close>, always makes a map; \<open>DeepCopy\<close> keeps \<open>nil\<close>. The copy of a map of them does not call
  these methods but repeats their loop.
\<close>

definition WorkloadMap_DeepCopyInto :: "addr option \<Rightarrow> 'm mcell heap \<Rightarrow> (addr option \<times> 'm mcell heap) option" where
  "WorkloadMap_DeepCopyInto src h =
     do {
       let (p, h1) = alloc (MStringMap []) h;
       kvs \<leftarrow> (case src of None \<Rightarrow> Some [] | Some a \<Rightarrow> load un_MStringMap h a);
       h2 \<leftarrow> copy_loop AList.update MStringMap copy_string p [] kvs h1;
       Some (Some p, h2)
     }"

definition WorkloadMap_DeepCopy :: "addr option \<Rightarrow> 'm mcell heap \<Rightarrow> (addr option \<times> 'm mcell heap) option" where
  "WorkloadMap_DeepCopy src h =
     (case src of
        None \<Rightarrow> Some (None, h)
      | Some _ \<Rightarrow>
          do {
            let (out, h1) = alloc (MWorkloadMap None) h;
            (m, h2) \<leftarrow> WorkloadMap_DeepCopyInto src h1;
            let h3 = store out (MWorkloadMap m) h2;
            r \<leftarrow> load un_MWorkloadMap h3 out;
            Some (r, h3)
          })"

definition RmdNodeStateStatus_DeepCopyInto ::
  "RmdNodeStateStatusM \<Rightarrow> 'm mcell heap \<Rightarrow> (RmdNodeStateStatusM \<times> 'm mcell heap) option"
where
  "RmdNodeStateStatus_DeepCopyInto src h =
     do {
       let out = src;
       (ws, h1) \<leftarrow> copy_map MWorkloadMaps un_MWorkloadMaps copy_string_map (mNodeWorkloads src) h;
       Some (out\<lparr>mNodeWorkloads := ws\<rparr>, h1)
     }"

definition RmdNodeStateStatus_DeepCopy ::
  "addr option \<Rightarrow> 'm mcell heap \<Rightarrow> (addr option \<times> 'm mcell heap) option"
where
  "RmdNodeStateStatus_DeepCopy = new_copy MNodeStateStatus un_MNodeStateStatus RmdNodeStateStatus_DeepCopyInto"

definition RmdNodeState_DeepCopyInto ::
  "'m meta_api \<Rightarrow> 'm RmdNodeStateM \<Rightarrow> 'm mcell heap \<Rightarrow> ('m RmdNodeStateM \<times> 'm mcell heap) option"
where
  "RmdNodeState_DeepCopyInto M src h =
     do {
       let out = src\<lparr>mnType := mnType src\<rparr>;
       (meta, h1) \<leftarrow> copyObjectMeta M (mnMeta src) h;
       let out = out\<lparr>mnSpec := mnSpec src\<rparr>;
       (status, h2) \<leftarrow> RmdNodeStateStatus_DeepCopyInto (mnStatus src) h1;
       Some (out\<lparr>mnMeta := meta, mnStatus := status\<rparr>, h2)
     }"

definition RmdNodeState_DeepCopy ::
  "'m meta_api \<Rightarrow> addr option \<Rightarrow> 'm mcell heap \<Rightarrow> (addr option \<times> 'm mcell heap) option"
where
  "RmdNodeState_DeepCopy M = new_copy MNodeState un_MNodeState (RmdNodeState_DeepCopyInto M)"

definition zero_RmdNodeStateM :: "'m meta_api \<Rightarrow> 'm RmdNodeStateM" where
  "zero_RmdNodeStateM M =
     \<lparr>mnType = zero_TypeMeta, mnMeta = zeroMeta M, mnSpec = \<lparr>nsNode = '''', nsNodeUID = ''''\<rparr>,
      mnStatus = \<lparr>mNodeWorkloads = None\<rparr>\<rparr>"

definition RmdNodeStateList_DeepCopyInto ::
  "'m meta_api \<Rightarrow> 'm RmdNodeStateListM \<Rightarrow> 'm mcell heap \<Rightarrow> ('m RmdNodeStateListM \<times> 'm mcell heap) option"
where
  "RmdNodeStateList_DeepCopyInto M src h =
     do {
       let out = src\<lparr>mnlType := mnlType src\<rparr>;
       (meta, h1) \<leftarrow> copyListMeta M (mnlMeta src) h;
       (items, h2) \<leftarrow> copy_slice MNodeStates un_MNodeStates (zero_RmdNodeStateM M)
                        (RmdNodeState_DeepCopyInto M) (mnlItems src) h1;
       Some (out\<lparr>mnlMeta := meta, mnlItems := items\<rparr>, h2)
     }"

definition RmdNodeStateList_DeepCopy ::
  "'m meta_api \<Rightarrow> addr option \<Rightarrow> 'm mcell heap \<Rightarrow> (addr option \<times> 'm mcell heap) option"
where
  "RmdNodeStateList_DeepCopy M = new_copy MNodeStateList un_MNodeStateList (RmdNodeStateList_DeepCopyInto M)"


subsection \<open>RmdWorkload\<close>

definition WorkloadState_DeepCopyInto ::
  "WorkloadStateM \<Rightarrow> 'm mcell heap \<Rightarrow> (WorkloadStateM \<times> 'm mcell heap) option"
where
  "WorkloadState_DeepCopyInto src h =
     do {
       let out = src;
       (cores, h1) \<leftarrow> copy_strings (mStateCoreIds src) h;
       let out = out\<lparr>mStateCoreIds := cores\<rparr>;
       Some (out\<lparr>mStateRdt := mStateRdt src, mStatePlugins := mStatePlugins src\<rparr>, h1)
     }"

definition WorkloadState_DeepCopy ::
  "addr option \<Rightarrow> 'm mcell heap \<Rightarrow> (addr option \<times> 'm mcell heap) option"
where
  "WorkloadState_DeepCopy = new_copy MState un_MState WorkloadState_DeepCopyInto"

definition RmdWorkloadSpec_DeepCopyInto ::
  "RmdWorkloadSpecM \<Rightarrow> 'm mcell heap \<Rightarrow> (RmdWorkloadSpecM \<times> 'm mcell heap) option"
where
  "RmdWorkloadSpec_DeepCopyInto src h =
     do {
       let out = src;
       (cores, h1) \<leftarrow> copy_strings (mCoreIds src) h;
       (reserved, h2) \<leftarrow> copy_strings (mReservedCoreIds src) h1;
       let out = out\<lparr>mCoreIds := cores, mReservedCoreIds := reserved\<rparr>;
       let out = out\<lparr>mRdt := mRdt src, mPlugins := mPlugins src\<rparr>;
       (sel, h3) \<leftarrow> copy_string_map (mNodeSelector src) h2;
       (nodes, h4) \<leftarrow> copy_strings (mNodes src) h3;
       Some (out\<lparr>mNodeSelector := sel, mNodes := nodes\<rparr>, h4)
     }"

definition RmdWorkloadSpec_DeepCopy ::
  "addr option \<Rightarrow> 'm mcell heap \<Rightarrow> (addr option \<times> 'm mcell heap) option"
where
  "RmdWorkloadSpec_DeepCopy = new_copy MWorkloadSpec un_MWorkloadSpec RmdWorkloadSpec_DeepCopyInto"

definition RmdWorkloadStatus_DeepCopyInto ::
  "RmdWorkloadStatusM \<Rightarrow> 'm mcell heap \<Rightarrow> (RmdWorkloadStatusM \<times> 'm mcell heap) option"
where
  "RmdWorkloadStatus_DeepCopyInto src h =
     do {
       let out = src;
       (states, h1) \<leftarrow> copy_map MStates un_MStates
                         (deref_copy MState un_MState WorkloadState_DeepCopyInto) (mWorkloadStates src) h;
       Some (out\<lparr>mWorkloadStates := states\<rparr>, h1)
     }"

definition RmdWorkloadStatus_DeepCopy ::
  "addr option \<Rightarrow> 'm mcell heap \<Rightarrow> (addr option \<times> 'm mcell heap) option"
where
  "RmdWorkloadStatus_DeepCopy = new_copy MWorkloadStatus un_MWorkloadStatus RmdWorkloadStatus_DeepCopyInto"

definition RmdWorkload_DeepCopyInto ::
  "'m meta_api \<Rightarrow> 'm RmdWorkloadM \<Rightarrow> 'm mcell heap \<Rightarrow> ('m RmdWorkloadM \<times> 'm mcell heap) option"
where
  "RmdWorkload_DeepCopyInto M src h =
     do {
       let out = src\<lparr>mwType := mwType src\<rparr>;
       (meta, h1) \<leftarrow> copyObjectMeta M (mwMeta src) h;
       (spec, h2) \<leftarrow> RmdWorkloadSpec_DeepCopyInto (mwSpec src) h1;
       (status, h3) \<leftarrow> RmdWorkloadStatus_DeepCopyInto (mwStatus src) h2;
       Some (out\<lparr>mwMeta := meta, mwSpec := spec, mwStatus := status\<rparr>, h3)
     }"

definition RmdWorkload_DeepCopy ::
  "'m meta_api \<Rightarrow> addr option \<Rightarrow> 'm mcell heap \<Rightarrow> (addr option \<times> 'm mcell heap) option"
where
  "RmdWorkload_DeepCopy M = new_copy MWorkload un_MWorkload (RmdWorkload_DeepCopyInto M)"

definition zero_RmdWorkloadM :: "'m meta_api \<Rightarrow> 'm RmdWorkloadM" where
  "zero_RmdWorkloadM M =
     \<lparr>mwType = zero_TypeMeta, mwMeta = zeroMeta M,
      mwSpec = \<lparr>mAllCores = False, mCoreIds = None, mReservedCoreIds = None, mPolicy = '''',
        mRdt = zero_Rdt, mPlugins = zero_Plugins, mNodeSelector = None, mNodes = None\<rparr>,
      mwStatus = \<lparr>mWorkloadStates = None\<rparr>\<rparr>"

definition RmdWorkloadList_DeepCopyInto ::
  "'m meta_api \<Rightarrow> 'm RmdWorkloadListM \<Rightarrow> 'm mcell heap \<Rightarrow> ('m RmdWorkloadListM \<times> 'm mcell heap) option"
where
  "RmdWorkloadList_DeepCopyInto M src h =
     do {
       let out = src\<lparr>mwlType := mwlType src\<rparr>;
       (meta, h1) \<leftarrow> copyListMeta M (mwlMeta src) h;
       (items, h2) \<leftarrow> copy_slice MWorkloads un_MWorkloads (zero_RmdWorkloadM M)
                        (RmdWorkload_DeepCopyInto M) (mwlItems src) h1;
       Some (out\<lparr>mwlMeta := meta, mwlItems := items\<rparr>, h2)
     }"

definition RmdWorkloadList_DeepCopy ::
  "'m meta_api \<Rightarrow> addr option \<Rightarrow> 'm mcell heap \<Rightarrow> (addr option \<times> 'm mcell heap) option"
where
  "RmdWorkloadList_DeepCopy M = new_copy MWorkloadList un_MWorkloadList (RmdWorkloadList_DeepCopyInto M)"

subsection \<open>Objects of the API machinery\<close>

text \<open>
  A \<open>runtime.Object\<close> is an interface: \<open>nil\<close>, or a pointer with its type. A \<open>nil\<close> pointer
  with a type is a value of the interface too, and differs from \<open>nil\<close>.
\<close>

datatype runtime_object = NilObject | Object string "addr option"

definition copy_object ::
  "string \<Rightarrow> (addr option \<Rightarrow> 'm mcell heap \<Rightarrow> (addr option \<times> 'm mcell heap) option) \<Rightarrow> addr option
    \<Rightarrow> 'm mcell heap \<Rightarrow> (runtime_object \<times> 'm mcell heap) option"
where
  "copy_object type DeepCopy src h =
     do {
       (c, h1) \<leftarrow> DeepCopy src h;
       Some (if c \<noteq> None then Object type c else NilObject, h1)
     }"

definition RmdConfig_DeepCopyObject ::
  "'m meta_api \<Rightarrow> addr option \<Rightarrow> 'm mcell heap \<Rightarrow> (runtime_object \<times> 'm mcell heap) option"
where
  "RmdConfig_DeepCopyObject M = copy_object ''RmdConfig'' (RmdConfig_DeepCopy M)"

definition RmdConfigList_DeepCopyObject ::
  "'m meta_api \<Rightarrow> addr option \<Rightarrow> 'm mcell heap \<Rightarrow> (runtime_object \<times> 'm mcell heap) option"
where
  "RmdConfigList_DeepCopyObject M = copy_object ''RmdConfigList'' (RmdConfigList_DeepCopy M)"

definition RmdNodeState_DeepCopyObject ::
  "'m meta_api \<Rightarrow> addr option \<Rightarrow> 'm mcell heap \<Rightarrow> (runtime_object \<times> 'm mcell heap) option"
where
  "RmdNodeState_DeepCopyObject M = copy_object ''RmdNodeState'' (RmdNodeState_DeepCopy M)"

definition RmdNodeStateList_DeepCopyObject ::
  "'m meta_api \<Rightarrow> addr option \<Rightarrow> 'm mcell heap \<Rightarrow> (runtime_object \<times> 'm mcell heap) option"
where
  "RmdNodeStateList_DeepCopyObject M = copy_object ''RmdNodeStateList'' (RmdNodeStateList_DeepCopy M)"

definition RmdWorkload_DeepCopyObject ::
  "'m meta_api \<Rightarrow> addr option \<Rightarrow> 'm mcell heap \<Rightarrow> (runtime_object \<times> 'm mcell heap) option"
where
  "RmdWorkload_DeepCopyObject M = copy_object ''RmdWorkload'' (RmdWorkload_DeepCopy M)"

definition RmdWorkloadList_DeepCopyObject ::
  "'m meta_api \<Rightarrow> addr option \<Rightarrow> 'm mcell heap \<Rightarrow> (runtime_object \<times> 'm mcell heap) option"
where
  "RmdWorkloadList_DeepCopyObject M = copy_object ''RmdWorkloadList'' (RmdWorkloadList_DeepCopy M)"

end
