(* ===== verification/Deep_Copy_Props.thy ===== *)
theory Deep_Copy_Props
  imports Deep_Copy
begin

text \<open>
  Every deep copy of the API types meets the contract \<open>deep_copier\<close>, hence reads like its
  original and shares no memory with it. For each struct, \<open>_ok\<close> says that its references lead
  to cells of the right kind, \<open>_refs\<close> collects the cells it reaches and \<open>_view\<close> is the struct
  with every reference resolved: a slice as \<open>nil\<close> or a list, a map as \<open>nil\<close> or a partial
  function.
\<close>

section \<open>What the structs refer to\<close>

abbreviation strings_ok :: "'m mcell heap \<Rightarrow> slice_header option \<Rightarrow> bool" where
  "strings_ok \<equiv> slice_ok un_MStrings (\<lambda>h x. True)"

abbreviation strings_refs :: "'m mcell heap \<Rightarrow> slice_header option \<Rightarrow> addr set" where
  "strings_refs \<equiv> slice_refs un_MStrings (\<lambda>h x. {})"

abbreviation strings_view :: "'m mcell heap \<Rightarrow> slice_header option \<Rightarrow> string list option" where
  "strings_view \<equiv> slice_view un_MStrings (\<lambda>h x. x)"

abbreviation smap_ok :: "'m mcell heap \<Rightarrow> addr option \<Rightarrow> bool" where
  "smap_ok \<equiv> map_ok un_MStringMap (\<lambda>h x. True)"

abbreviation smap_refs :: "'m mcell heap \<Rightarrow> addr option \<Rightarrow> addr set" where
  "smap_refs \<equiv> map_refs un_MStringMap (\<lambda>h x. {})"

abbreviation smap_view :: "'m mcell heap \<Rightarrow> addr option \<Rightarrow> (string \<rightharpoonup> string) option" where
  "smap_view \<equiv> map_view un_MStringMap (\<lambda>h x. x)"

named_theorems copier \<open>the deep copies that meet the contract\<close>

lemma copier_strings [copier]: "deep_copier strings_ok strings_refs strings_view copy_strings"
proof -
  have [simp]: "copy_string = (\<lambda>x h. Some (x, h))" by (simp add: fun_eq_iff copy_string_def)
  show ?thesis
    unfolding copy_strings_def
    by (simp add: deep_copier.copier_slice [OF deep_copier_plain kind_strings.cell_kind_axioms])
qed

lemma copier_string_map [copier]: "deep_copier smap_ok smap_refs smap_view copy_string_map"
proof -
  have [simp]: "copy_string = (\<lambda>x h. Some (x, h))" by (simp add: fun_eq_iff copy_string_def)
  show ?thesis
    unfolding copy_string_map_def
    by (simp add: deep_copier.copier_map [OF deep_copier_plain kind_stringmap.cell_kind_axioms])
qed

lemmas pair_simps =
  pair_ok_def pair_refs_def pair_view_def pair_copy_def case_prod_unfold Let_def

definition RmdConfigSpec_ok :: "'m mcell heap \<Rightarrow> RmdConfigSpecM \<Rightarrow> bool" where
  "RmdConfigSpec_ok h x \<longleftrightarrow> smap_ok h (mRmdNodeSelector x)"

definition RmdConfigSpec_refs :: "'m mcell heap \<Rightarrow> RmdConfigSpecM \<Rightarrow> addr set" where
  "RmdConfigSpec_refs h x = smap_refs h (mRmdNodeSelector x)"

definition RmdConfigSpec_view where
  "RmdConfigSpec_view h x =
     (mRmdImage x, mDeployNodeAgent x, smap_view h (mRmdNodeSelector x))"

lemma copier_RmdConfigSpec [copier]:
  "deep_copier RmdConfigSpec_ok RmdConfigSpec_refs RmdConfigSpec_view RmdConfigSpec_DeepCopyInto"
  by (rule deep_copier_struct [OF copier_string_map,
        where f = "\<lambda>x. mRmdNodeSelector x"
          and g = "\<lambda>x t0. x\<lparr>mRmdNodeSelector := t0\<rparr>"
          and v = "\<lambda>x w. (mRmdImage x, (mDeployNodeAgent x, w))"])
    (auto simp: RmdConfigSpec_ok_def RmdConfigSpec_refs_def RmdConfigSpec_view_def
      RmdConfigSpec_DeepCopyInto_def pair_simps Un_assoc)

definition RmdConfigStatus_ok :: "'m mcell heap \<Rightarrow> RmdConfigStatusM \<Rightarrow> bool" where
  "RmdConfigStatus_ok h x \<longleftrightarrow> strings_ok h (mStatusNodes x)"

definition RmdConfigStatus_refs :: "'m mcell heap \<Rightarrow> RmdConfigStatusM \<Rightarrow> addr set" where
  "RmdConfigStatus_refs h x = strings_refs h (mStatusNodes x)"

definition RmdConfigStatus_view where
  "RmdConfigStatus_view h x = strings_view h (mStatusNodes x)"

lemma copier_RmdConfigStatus [copier]:
  "deep_copier RmdConfigStatus_ok RmdConfigStatus_refs RmdConfigStatus_view RmdConfigStatus_DeepCopyInto"
  by (rule deep_copier_struct [OF copier_strings,
        where f = "\<lambda>x. mStatusNodes x"
          and g = "\<lambda>x t0. x\<lparr>mStatusNodes := t0\<rparr>"
          and v = "\<lambda>x w. w"])
    (auto simp: RmdConfigStatus_ok_def RmdConfigStatus_refs_def RmdConfigStatus_view_def
      RmdConfigStatus_DeepCopyInto_def pair_simps Un_assoc)

definition RmdNodeStateStatus_ok :: "'m mcell heap \<Rightarrow> RmdNodeStateStatusM \<Rightarrow> bool" where
  "RmdNodeStateStatus_ok h x \<longleftrightarrow> map_ok un_MWorkloadMaps smap_ok h (mNodeWorkloads x)"

definition RmdNodeStateStatus_refs :: "'m mcell heap \<Rightarrow> RmdNodeStateStatusM \<Rightarrow> addr set" where
  "RmdNodeStateStatus_refs h x = map_refs un_MWorkloadMaps smap_refs h (mNodeWorkloads x)"

definition RmdNodeStateStatus_view where
  "RmdNodeStateStatus_view h x = map_view un_MWorkloadMaps smap_view h (mNodeWorkloads x)"

lemma copier_RmdNodeStateStatus [copier]:
  "deep_copier RmdNodeStateStatus_ok RmdNodeStateStatus_refs RmdNodeStateStatus_view RmdNodeStateStatus_DeepCopyInto"
  by (rule deep_copier_struct [OF deep_copier.copier_map [OF copier_string_map kind_workloadmaps.cell_kind_axioms],
        where f = "\<lambda>x. mNodeWorkloads x"
          and g = "\<lambda>x t0. x\<lparr>mNodeWorkloads := t0\<rparr>"
          and v = "\<lambda>x w. w"])
    (auto simp: RmdNodeStateStatus_ok_def RmdNodeStateStatus_refs_def RmdNodeStateStatus_view_def
      RmdNodeStateStatus_DeepCopyInto_def pair_simps Un_assoc)

definition WorkloadState_ok :: "'m mcell heap \<Rightarrow> WorkloadStateM \<Rightarrow> bool" where
  "WorkloadState_ok h x \<longleftrightarrow> strings_ok h (mStateCoreIds x)"

definition WorkloadState_refs :: "'m mcell heap \<Rightarrow> WorkloadStateM \<Rightarrow> addr set" where
  "WorkloadState_refs h x = strings_refs h (mStateCoreIds x)"

definition WorkloadState_view where
  "WorkloadState_view h x =
     (mResponse x, mID x, mCosName x, mStatus x, mStatePolicy x, mStateRdt x,
      mStatePlugins x, strings_view h (mStateCoreIds x))"

lemma copier_WorkloadState [copier]:
  "deep_copier WorkloadState_ok WorkloadState_refs WorkloadState_view WorkloadState_DeepCopyInto"
  by (rule deep_copier_struct [OF copier_strings,
        where f = "\<lambda>x. mStateCoreIds x"
          and g = "\<lambda>x t0. x\<lparr>mStateCoreIds := t0\<rparr>"
          and v = "\<lambda>x w. (mResponse x, (mID x, (mCosName x, (mStatus x, (mStatePolicy x, (mStateRdt x, (mStatePlugins x, w)))))))"])
    (auto simp: WorkloadState_ok_def WorkloadState_refs_def WorkloadState_view_def
      WorkloadState_DeepCopyInto_def pair_simps Un_assoc)

definition RmdWorkloadSpec_ok :: "'m mcell heap \<Rightarrow> RmdWorkloadSpecM \<Rightarrow> bool" where
  "RmdWorkloadSpec_ok h x \<longleftrightarrow>
     strings_ok h (mCoreIds x) \<and>
     strings_ok h (mReservedCoreIds x) \<and>
     smap_ok h (mNodeSelector x) \<and>
     strings_ok h (mNodes x)"

definition RmdWorkloadSpec_refs :: "'m mcell heap \<Rightarrow> RmdWorkloadSpecM \<Rightarrow> addr set" where
  "RmdWorkloadSpec_refs h x =
     strings_refs h (mCoreIds x) \<union>
     strings_refs h (mReservedCoreIds x) \<union>
     smap_refs h (mNodeSelector x) \<union>
     strings_refs h (mNodes x)"

definition RmdWorkloadSpec_view where
  "RmdWorkloadSpec_view h x =
     (mAllCores x, mPolicy x, mRdt x, mPlugins x, strings_view h (mCoreIds x),
      strings_view h (mReservedCoreIds x), smap_view h (mNodeSelector x),
      strings_view h (mNodes x))"

lemma copier_RmdWorkloadSpec [copier]:
  "deep_copier RmdWorkloadSpec_ok RmdWorkloadSpec_refs RmdWorkloadSpec_view RmdWorkloadSpec_DeepCopyInto"
  by (rule deep_copier_struct [OF deep_copier_pair [OF copier_strings deep_copier_pair [OF copier_strings deep_copier_pair [OF copier_string_map copier_strings]]],
        where f = "\<lambda>x. (mCoreIds x, (mReservedCoreIds x, (mNodeSelector x, mNodes x)))"
          and g = "\<lambda>x (t0, (t1, (t2, t3))). x\<lparr>mCoreIds := t0, mReservedCoreIds := t1, mNodeSelector := t2, mNodes := t3\<rparr>"
          and v = "\<lambda>x w. (mAllCores x, (mPolicy x, (mRdt x, (mPlugins x, w))))"])
    (auto simp: RmdWorkloadSpec_ok_def RmdWorkloadSpec_refs_def RmdWorkloadSpec_view_def
      RmdWorkloadSpec_DeepCopyInto_def pair_simps Un_assoc)

definition RmdWorkloadStatus_ok :: "'m mcell heap \<Rightarrow> RmdWorkloadStatusM \<Rightarrow> bool" where
  "RmdWorkloadStatus_ok h x \<longleftrightarrow> map_ok un_MStates WorkloadState_ok h (mWorkloadStates x)"

definition RmdWorkloadStatus_refs :: "'m mcell heap \<Rightarrow> RmdWorkloadStatusM \<Rightarrow> addr set" where
  "RmdWorkloadStatus_refs h x = map_refs un_MStates WorkloadState_refs h (mWorkloadStates x)"

definition RmdWorkloadStatus_view where
  "RmdWorkloadStatus_view h x = map_view un_MStates WorkloadState_view h (mWorkloadStates x)"

lemma copier_RmdWorkloadStatus [copier]:
  "deep_copier RmdWorkloadStatus_ok RmdWorkloadStatus_refs RmdWorkloadStatus_view RmdWorkloadStatus_DeepCopyInto"
  by (rule deep_copier_struct [OF deep_copier.copier_map [OF deep_copier.copier_deref [OF copier_WorkloadState kind_state.cell_kind_axioms] kind_states.cell_kind_axioms],
        where f = "\<lambda>x. mWorkloadStates x"
          and g = "\<lambda>x t0. x\<lparr>mWorkloadStates := t0\<rparr>"
          and v = "\<lambda>x w. w"])
    (auto simp: RmdWorkloadStatus_ok_def RmdWorkloadStatus_refs_def RmdWorkloadStatus_view_def
      RmdWorkloadStatus_DeepCopyInto_def pair_simps Un_assoc)

definition RmdConfig_ok ::
  "('m mcell heap \<Rightarrow> 'm \<Rightarrow> bool) \<Rightarrow> 'm mcell heap \<Rightarrow> 'm RmdConfigM \<Rightarrow> bool"
where
  "RmdConfig_ok mok h x \<longleftrightarrow>
     mok h (mcMeta x) \<and>
     RmdConfigSpec_ok h (mcSpec x) \<and>
     RmdConfigStatus_ok h (mcStatus x)"

definition RmdConfig_refs ::
  "('m mcell heap \<Rightarrow> 'm \<Rightarrow> addr set) \<Rightarrow> 'm mcell heap \<Rightarrow> 'm RmdConfigM \<Rightarrow> addr set"
where
  "RmdConfig_refs mrefs h x =
     mrefs h (mcMeta x) \<union>
     RmdConfigSpec_refs h (mcSpec x) \<union>
     RmdConfigStatus_refs h (mcStatus x)"

definition RmdConfig_view where
  "RmdConfig_view mview h x =
     (mcType x, mview h (mcMeta x), RmdConfigSpec_view h (mcSpec x),
      RmdConfigStatus_view h (mcStatus x))"

lemma copier_RmdConfig [copier]:
  assumes "deep_copier mok mrefs mview (copyObjectMeta M)"
  shows "deep_copier (RmdConfig_ok mok) (RmdConfig_refs mrefs) (RmdConfig_view mview) (RmdConfig_DeepCopyInto M)"
  by (rule deep_copier_struct [OF deep_copier_pair [OF assms deep_copier_pair [OF copier_RmdConfigSpec copier_RmdConfigStatus]],
        where f = "\<lambda>x. (mcMeta x, (mcSpec x, mcStatus x))"
          and g = "\<lambda>x (t0, (t1, t2)). x\<lparr>mcMeta := t0, mcSpec := t1, mcStatus := t2\<rparr>"
          and v = "\<lambda>x w. (mcType x, w)"])
    (auto simp: RmdConfig_ok_def RmdConfig_refs_def RmdConfig_view_def
      RmdConfig_DeepCopyInto_def pair_simps Un_assoc)

definition RmdNodeState_ok ::
  "('m mcell heap \<Rightarrow> 'm \<Rightarrow> bool) \<Rightarrow> 'm mcell heap \<Rightarrow> 'm RmdNodeStateM \<Rightarrow> bool"
where
  "RmdNodeState_ok mok h x \<longleftrightarrow>
     mok h (mnMeta x) \<and> RmdNodeStateStatus_ok h (mnStatus x)"

definition RmdNodeState_refs ::
  "('m mcell heap \<Rightarrow> 'm \<Rightarrow> addr set) \<Rightarrow> 'm mcell heap \<Rightarrow> 'm RmdNodeStateM \<Rightarrow> addr set"
where
  "RmdNodeState_refs mrefs h x =
     mrefs h (mnMeta x) \<union> RmdNodeStateStatus_refs h (mnStatus x)"

definition RmdNodeState_view where
  "RmdNodeState_view mview h x =
     (mnType x, mnSpec x, mview h (mnMeta x), RmdNodeStateStatus_view h (mnStatus x))"

lemma copier_RmdNodeState [copier]:
  assumes "deep_copier mok mrefs mview (copyObjectMeta M)"
  shows "deep_copier (RmdNodeState_ok mok) (RmdNodeState_refs mrefs) (RmdNodeState_view mview) (RmdNodeState_DeepCopyInto M)"
  by (rule deep_copier_struct [OF deep_copier_pair [OF assms copier_RmdNodeStateStatus],
        where f = "\<lambda>x. (mnMeta x, mnStatus x)"
          and g = "\<lambda>x (t0, t1). x\<lparr>mnMeta := t0, mnStatus := t1\<rparr>"
          and v = "\<lambda>x w. (mnType x, (mnSpec x, w))"])
    (auto simp: RmdNodeState_ok_def RmdNodeState_refs_def RmdNodeState_view_def
      RmdNodeState_DeepCopyInto_def pair_simps Un_assoc)

definition RmdWorkload_ok ::
  "('m mcell heap \<Rightarrow> 'm \<Rightarrow> bool) \<Rightarrow> 'm mcell heap \<Rightarrow> 'm RmdWorkloadM \<Rightarrow> bool"
where
  "RmdWorkload_ok mok h x \<longleftrightarrow>
     mok h (mwMeta x) \<and>
     RmdWorkloadSpec_ok h (mwSpec x) \<and>
     RmdWorkloadStatus_ok h (mwStatus x)"

definition RmdWorkload_refs ::
  "('m mcell heap \<Rightarrow> 'm \<Rightarrow> addr set) \<Rightarrow> 'm mcell heap \<Rightarrow> 'm RmdWorkloadM \<Rightarrow> addr set"
where
  "RmdWorkload_refs mrefs h x =
     mrefs h (mwMeta x) \<union>
     RmdWorkloadSpec_refs h (mwSpec x) \<union>
     RmdWorkloadStatus_refs h (mwStatus x)"

definition RmdWorkload_view where
  "RmdWorkload_view mview h x =
     (mwType x, mview h (mwMeta x), RmdWorkloadSpec_view h (mwSpec x),
      RmdWorkloadStatus_view h (mwStatus x))"

lemma copier_RmdWorkload [copier]:
  assumes "deep_copier mok mrefs mview (copyObjectMeta M)"
  shows "deep_copier (RmdWorkload_ok mok) (RmdWorkload_refs mrefs) (RmdWorkload_view mview) (RmdWorkload_DeepCopyInto M)"
  by (rule deep_copier_struct [OF deep_copier_pair [OF assms deep_copier_pair [OF copier_RmdWorkloadSpec copier_RmdWorkloadStatus]],
        where f = "\<lambda>x. (mwMeta x, (mwSpec x, mwStatus x))"
          and g = "\<lambda>x (t0, (t1, t2)). x\<lparr>mwMeta := t0, mwSpec := t1, mwStatus := t2\<rparr>"
          and v = "\<lambda>x w. (mwType x, w)"])
    (auto simp: RmdWorkload_ok_def RmdWorkload_refs_def RmdWorkload_view_def
      RmdWorkload_DeepCopyInto_def pair_simps Un_assoc)

section \<open>The lists\<close>

definition RmdConfigList_ok where
  "RmdConfigList_ok lok mok h x \<longleftrightarrow>
     lok h (mclMeta x) \<and> slice_ok un_MConfigs (RmdConfig_ok mok) h (mclItems x)"

definition RmdConfigList_refs where
  "RmdConfigList_refs lrefs mrefs h x =
     lrefs h (mclMeta x) \<union> slice_refs un_MConfigs (RmdConfig_refs mrefs) h (mclItems x)"

definition RmdConfigList_view where
  "RmdConfigList_view lview mview h x =
     (mclType x, lview h (mclMeta x), slice_view un_MConfigs (RmdConfig_view mview) h (mclItems x))"

lemma copier_RmdConfigList [copier]:
  assumes "deep_copier lok lrefs lview (copyListMeta M)"
    and "deep_copier mok mrefs mview (copyObjectMeta M)"
  shows "deep_copier (RmdConfigList_ok lok mok) (RmdConfigList_refs lrefs mrefs)
    (RmdConfigList_view lview mview) (RmdConfigList_DeepCopyInto M)"
  by (rule deep_copier_struct [OF deep_copier_pair [OF assms(1)
          deep_copier.copier_slice [OF copier_RmdConfig [OF assms(2)] kind_configs.cell_kind_axioms]],
        where f = "\<lambda>x. (mclMeta x, mclItems x)"
          and g = "\<lambda>x (t0, t1). x\<lparr>mclMeta := t0, mclItems := t1\<rparr>"
          and v = "\<lambda>x w. (mclType x, w)"])
    (auto simp: RmdConfigList_ok_def RmdConfigList_refs_def RmdConfigList_view_def
      RmdConfigList_DeepCopyInto_def pair_simps)

definition RmdNodeStateList_ok where
  "RmdNodeStateList_ok lok mok h x \<longleftrightarrow>
     lok h (mnlMeta x) \<and> slice_ok un_MNodeStates (RmdNodeState_ok mok) h (mnlItems x)"

definition RmdNodeStateList_refs where
  "RmdNodeStateList_refs lrefs mrefs h x =
     lrefs h (mnlMeta x) \<union> slice_refs un_MNodeStates (RmdNodeState_refs mrefs) h (mnlItems x)"

definition RmdNodeStateList_view where
  "RmdNodeStateList_view lview mview h x =
     (mnlType x, lview h (mnlMeta x), slice_view un_MNodeStates (RmdNodeState_view mview) h (mnlItems x))"

lemma copier_RmdNodeStateList [copier]:
  assumes "deep_copier lok lrefs lview (copyListMeta M)"
    and "deep_copier mok mrefs mview (copyObjectMeta M)"
  shows "deep_copier (RmdNodeStateList_ok lok mok) (RmdNodeStateList_refs lrefs mrefs)
    (RmdNodeStateList_view lview mview) (RmdNodeStateList_DeepCopyInto M)"
  by (rule deep_copier_struct [OF deep_copier_pair [OF assms(1)
          deep_copier.copier_slice [OF copier_RmdNodeState [OF assms(2)] kind_nodestates.cell_kind_axioms]],
        where f = "\<lambda>x. (mnlMeta x, mnlItems x)"
          and g = "\<lambda>x (t0, t1). x\<lparr>mnlMeta := t0, mnlItems := t1\<rparr>"
          and v = "\<lambda>x w. (mnlType x, w)"])
    (auto simp: RmdNodeStateList_ok_def RmdNodeStateList_refs_def RmdNodeStateList_view_def
      RmdNodeStateList_DeepCopyInto_def pair_simps)

definition RmdWorkloadList_ok where
  "RmdWorkloadList_ok lok mok h x \<longleftrightarrow>
     lok h (mwlMeta x) \<and> slice_ok un_MWorkloads (RmdWorkload_ok mok) h (mwlItems x)"

definition RmdWorkloadList_refs where
  "RmdWorkloadList_refs lrefs mrefs h x =
     lrefs h (mwlMeta x) \<union> slice_refs un_MWorkloads (RmdWorkload_refs mrefs) h (mwlItems x)"

definition RmdWorkloadList_view where
  "RmdWorkloadList_view lview mview h x =
     (mwlType x, lview h (mwlMeta x), slice_view un_MWorkloads (RmdWorkload_view mview) h (mwlItems x))"

lemma copier_RmdWorkloadList [copier]:
  assumes "deep_copier lok lrefs lview (copyListMeta M)"
    and "deep_copier mok mrefs mview (copyObjectMeta M)"
  shows "deep_copier (RmdWorkloadList_ok lok mok) (RmdWorkloadList_refs lrefs mrefs)
    (RmdWorkloadList_view lview mview) (RmdWorkloadList_DeepCopyInto M)"
  by (rule deep_copier_struct [OF deep_copier_pair [OF assms(1)
          deep_copier.copier_slice [OF copier_RmdWorkload [OF assms(2)] kind_workloads.cell_kind_axioms]],
        where f = "\<lambda>x. (mwlMeta x, mwlItems x)"
          and g = "\<lambda>x (t0, t1). x\<lparr>mwlMeta := t0, mwlItems := t1\<rparr>"
          and v = "\<lambda>x w. (mwlType x, w)"])
    (auto simp: RmdWorkloadList_ok_def RmdWorkloadList_refs_def RmdWorkloadList_view_def
      RmdWorkloadList_DeepCopyInto_def pair_simps)

section \<open>The contract on the types of the API\<close>

text \<open>The values a struct holds without third-party metadata.\<close>

interpretation spec_copy: deep_copier RmdWorkloadSpec_ok RmdWorkloadSpec_refs RmdWorkloadSpec_view
    RmdWorkloadSpec_DeepCopyInto
  by (rule copier_RmdWorkloadSpec)

interpretation state_copy: deep_copier WorkloadState_ok WorkloadState_refs WorkloadState_view
    WorkloadState_DeepCopyInto
  by (rule copier_WorkloadState)

interpretation node_status_copy: deep_copier RmdNodeStateStatus_ok RmdNodeStateStatus_refs
    RmdNodeStateStatus_view RmdNodeStateStatus_DeepCopyInto
  by (rule copier_RmdNodeStateStatus)

interpretation smap_copy: deep_copier smap_ok smap_refs smap_view copy_string_map
  by (rule copier_string_map)

text \<open>
  What \<open>deep_copier.isolated\<close> says of a pointer that is not \<open>nil\<close>, with the address of the
  copy.
\<close>

lemma new_copy_isolated:
  assumes "deep_copier ok refs view into" and "cell_kind wrap unwrap"
    and "wf_heap h" and "ptr_ok unwrap ok h (Some a)"
  shows "\<exists>b h'. new_copy wrap unwrap into (Some a) h = Some (Some b, h')
     \<and> limit h \<le> b \<and> (\<forall>c<limit h. cells h' c = cells h c)
     \<and> ptr_view unwrap view h' (Some b) = ptr_view unwrap view h (Some a)
     \<and> ptr_refs unwrap refs h' (Some a) \<inter> ptr_refs unwrap refs h' (Some b) = {}
     \<and> (\<forall>c v. c \<in> ptr_refs unwrap refs h' (Some b)
          \<longrightarrow> ptr_view unwrap view (store c v h') (Some a) = ptr_view unwrap view h (Some a))
     \<and> (\<forall>c v. c \<in> ptr_refs unwrap refs h' (Some a)
          \<longrightarrow> ptr_view unwrap view (store c v h') (Some b) = ptr_view unwrap view h (Some a))"
proof -
  note P = deep_copier.copier_ptr [OF assms(1,2)]
  from deep_copier.copyE [OF P assms(3,4)] obtain r h' where
    r: "new_copy wrap unwrap into (Some a) h = Some (r, h')" "grows h h'" "ptr_ok unwrap ok h' r"
      "ptr_view unwrap view h' r = ptr_view unwrap view h (Some a)"
      "ptr_refs unwrap refs h' r \<subseteq> {limit h..}" .
  obtain b where b: "r = Some b"
    using r(1) by (auto simp: new_copy_def alloc_def bind_eq_Some_conv)
  have "b \<in> ptr_refs unwrap refs h' (Some b)" by (simp add: ptr_refs_def)
  moreover note iso = deep_copier.isolated [OF P assms(3,4) r(1)]
  ultimately show ?thesis
    using r(1,2,5) iso unfolding b by (intro exI [of _ b] exI [of _ h']) (auto simp: grows_def agree_def)
qed


text \<open>\<open>DeepCopyObject\<close> of a pointer copied by \<open>new_copy\<close>.\<close>

lemma copy_object_works:
  assumes "deep_copier ok refs view into" and "cell_kind wrap unwrap"
    and "wf_heap h" and "ptr_ok unwrap ok h src"
  shows "\<exists>obj h'. copy_object t (new_copy wrap unwrap into) src h = Some (obj, h')
     \<and> (src = None \<longrightarrow> obj = NilObject \<and> h' = h)
     \<and> (src \<noteq> None \<longrightarrow> (\<exists>b\<ge>limit h. obj = Object t (Some b)
          \<and> ptr_view unwrap view h' (Some b) = ptr_view unwrap view h src))"
proof (cases src)
  case None
  then show ?thesis by (simp add: copy_object_def new_copy_def)
next
  case (Some a)
  with new_copy_isolated [OF assms(1-3), of a] assms(4) show ?thesis
    by (force simp: copy_object_def)
qed

text \<open>\<open>WorkloadMap.DeepCopyInto\<close>: the loop of a map on a \<open>nil\<close> map too.\<close>

lemma WorkloadMap_into:
  assumes "wf_heap h" and "smap_ok h r"
  shows "\<exists>p h'. WorkloadMap_DeepCopyInto r h = Some (Some p, h') \<and> grows h h' \<and> smap_ok h' (Some p)
     \<and> smap_view h' (Some p) = Some (case smap_view h r of None \<Rightarrow> Map.empty | Some m \<Rightarrow> m)
     \<and> smap_refs h' (Some p) \<subseteq> {limit h..}"
proof (cases r)
  case None
  then show ?thesis
    using alloc_grows [OF assms(1)]
    by (auto simp: WorkloadMap_DeepCopyInto_def alloc_def map_ok_def map_view_def map_refs_def entries_def
        load_def un_MStringMap_def)
next
  case (Some a)
  from smap_copy.copyE [OF assms] obtain q h' where q: "copy_string_map r h = Some (q, h')"
    "grows h h'" "smap_ok h' q" "smap_view h' q = smap_view h r" "smap_refs h' q \<subseteq> {limit h..}" .
  from q(1) obtain p where p: "q = Some p" "WorkloadMap_DeepCopyInto r h = Some (Some p, h')"
    by (auto simp: Some WorkloadMap_DeepCopyInto_def copy_string_map_def copy_map_def alloc_def
        bind_eq_Some_conv)
  show ?thesis
    using q(2-5) p by (auto simp: Some map_view_def)
qed

section \<open>Properties\<close>

abbreviation workload_reach where
  "workload_reach mrefs \<equiv> ptr_refs un_MWorkload (RmdWorkload_refs mrefs)"

abbreviation workload_seen where
  "workload_seen mview \<equiv> ptr_view un_MWorkload (RmdWorkload_view mview)"

text \<open>
  (C18) \<open>DeepCopy\<close> of an \<open>RmdWorkload\<close> returns the address of a new object that reads like the
  original through every slice and map, \<open>nil\<close> ones included, and leaves memory as it was. The
  two share no cell: whatever is later stored into a cell that one of them reaches, the other
  reads as before. Of the metadata it is assumed that their own copy is deep.
\<close>

theorem RmdWorkload_DeepCopy_isolated:
  assumes "deep_copier mok mrefs mview (copyObjectMeta M)"
    and "wf_heap h" and "ptr_ok un_MWorkload (RmdWorkload_ok mok) h (Some a)"
  shows "\<exists>b h'. RmdWorkload_DeepCopy M (Some a) h = Some (Some b, h')
     \<and> limit h \<le> b \<and> (\<forall>c<limit h. cells h' c = cells h c)
     \<and> workload_seen mview h' (Some b) = workload_seen mview h (Some a)
     \<and> workload_reach mrefs h' (Some a) \<inter> workload_reach mrefs h' (Some b) = {}
     \<and> (\<forall>c v. c \<in> workload_reach mrefs h' (Some b)
          \<longrightarrow> workload_seen mview (store c v h') (Some a) = workload_seen mview h (Some a))
     \<and> (\<forall>c v. c \<in> workload_reach mrefs h' (Some a)
          \<longrightarrow> workload_seen mview (store c v h') (Some b) = workload_seen mview h (Some a))"
  unfolding RmdWorkload_DeepCopy_def
  by (rule new_copy_isolated [OF copier_RmdWorkload [OF assms(1)] kind_workload.cell_kind_axioms assms(2,3)])

text \<open>An object whose metadata are a map of labels, and the heap it lies in.\<close>

definition label_meta :: "addr option meta_api" where
  "label_meta = \<lparr>copyObjectMeta = copy_string_map, copyListMeta = copy_string_map, zeroMeta = None\<rparr>"

definition example_workload :: "addr option RmdWorkloadM" where
  "example_workload = (zero_RmdWorkloadM label_meta)
     \<lparr>mwMeta := Some 1,
      mwSpec := (mwSpec (zero_RmdWorkloadM label_meta))
        \<lparr>mCoreIds := Some \<lparr>hdr_array = 2, hdr_off = 1, hdr_len = 2\<rparr>\<rparr>,
      mwStatus := \<lparr>mWorkloadStates = Some 3\<rparr>\<rparr>"

definition example_state :: WorkloadStateM where
  "example_state =
     \<lparr>mResponse = ''Success: 200'', mID = ''1'', mCosName = '''', mStatus = '''',
      mStateCoreIds = Some \<lparr>hdr_array = 2, hdr_off = 0, hdr_len = 1\<rparr>, mStatePolicy = '''',
      mStateRdt = zero_Rdt, mStatePlugins = zero_Plugins\<rparr>"

definition example_heap :: "addr option mcell heap" where
  "example_heap =
     \<lparr>cells = [0 \<mapsto> MWorkload example_workload, 1 \<mapsto> MStringMap [(''app'', ''rmd'')],
               2 \<mapsto> MStrings [''0'', ''1'', ''2''], 3 \<mapsto> MStates [(''node-1'', example_state)]],
      limit = 4\<rparr>"

lemma example_heap_ok:
  "wf_heap example_heap" "ptr_ok un_MWorkload (RmdWorkload_ok smap_ok) example_heap (Some 0)"
  by (auto simp: example_heap_def example_workload_def example_state_def wf_heap_def ptr_ok_def load_def
      un_MWorkload_def RmdWorkload_ok_def map_ok_def entries_def un_MStringMap_def RmdWorkloadSpec_ok_def
      slice_ok_def un_MStrings_def RmdWorkloadStatus_ok_def un_MStates_def WorkloadState_ok_def
      window_def zero_RmdWorkloadM_def split: if_splits)

lemma label_meta_copier: "deep_copier smap_ok smap_refs smap_view (copyObjectMeta label_meta)"
  by (simp add: label_meta_def copier_string_map)

theorem RmdWorkload_DeepCopy_isolated_witness:
  "\<exists>b h'. RmdWorkload_DeepCopy label_meta (Some 0) example_heap = Some (Some b, h') \<and> 4 \<le> b
     \<and> workload_seen smap_view h' (Some b) = workload_seen smap_view example_heap (Some 0)
     \<and> workload_reach smap_refs h' (Some 0) \<inter> workload_reach smap_refs h' (Some b) = {}"
  using RmdWorkload_DeepCopy_isolated [OF label_meta_copier example_heap_ok]
  by (auto simp: example_heap_def)

text \<open>
  \<open>DeepCopyObject\<close> of the three list kinds gives the interface \<open>nil\<close>, not a typed \<open>nil\<close>
  pointer, for a \<open>nil\<close> receiver. Otherwise it gives a pointer of its own kind to a list at a
  new address whose metadata and items, with all they refer to, read like the original ones.
\<close>

theorem RmdWorkloadList_DeepCopyObject_spec:
  assumes "deep_copier lok lrefs lview (copyListMeta M)"
    and "deep_copier mok mrefs mview (copyObjectMeta M)"
    and "wf_heap h" and "ptr_ok un_MWorkloadList (RmdWorkloadList_ok lok mok) h src"
  shows "\<exists>obj h'. RmdWorkloadList_DeepCopyObject M src h = Some (obj, h')
     \<and> (src = None \<longrightarrow> obj = NilObject \<and> h' = h)
     \<and> (src \<noteq> None \<longrightarrow> (\<exists>b\<ge>limit h. obj = Object ''RmdWorkloadList'' (Some b)
          \<and> ptr_view un_MWorkloadList (RmdWorkloadList_view lview mview) h' (Some b)
            = ptr_view un_MWorkloadList (RmdWorkloadList_view lview mview) h src))"
  unfolding RmdWorkloadList_DeepCopyObject_def RmdWorkloadList_DeepCopy_def
  by (rule copy_object_works [OF copier_RmdWorkloadList [OF assms(1,2)] kind_workloadlist.cell_kind_axioms
        assms(3,4)])

definition example_list_heap :: "addr option mcell heap" where
  "example_list_heap =
     \<lparr>cells = [0 \<mapsto> MWorkloadList \<lparr>mwlType = zero_TypeMeta, mwlMeta = None,
                 mwlItems = Some \<lparr>hdr_array = 1, hdr_off = 0, hdr_len = 1\<rparr>\<rparr>,
               1 \<mapsto> MWorkloads [zero_RmdWorkloadM label_meta]],
      limit = 2\<rparr>"

lemma example_list_heap_ok:
  "wf_heap example_list_heap"
  "ptr_ok un_MWorkloadList (RmdWorkloadList_ok smap_ok smap_ok) example_list_heap (Some 0)"
  by (auto simp: example_list_heap_def wf_heap_def ptr_ok_def load_def un_MWorkloadList_def
      RmdWorkloadList_ok_def map_ok_def slice_ok_def un_MWorkloads_def entries_def window_def
      RmdWorkload_ok_def RmdWorkloadSpec_ok_def RmdWorkloadStatus_ok_def zero_RmdWorkloadM_def
      label_meta_def split: if_splits)

theorem RmdWorkloadList_DeepCopyObject_spec_witness:
  "(\<exists>b h'. RmdWorkloadList_DeepCopyObject label_meta (Some 0) example_list_heap
       = Some (Object ''RmdWorkloadList'' (Some b), h') \<and> 2 \<le> b)
   \<and> RmdWorkloadList_DeepCopyObject label_meta None example_list_heap = Some (NilObject, example_list_heap)"
proof -
  have l: "deep_copier smap_ok smap_refs smap_view (copyListMeta label_meta)"
    by (simp add: label_meta_def copier_string_map)
  note spec = RmdWorkloadList_DeepCopyObject_spec [OF l label_meta_copier example_list_heap_ok(1)]
  show ?thesis
    using spec [OF example_list_heap_ok(2)] spec [of None]
    by (auto simp: ptr_ok_def example_list_heap_def)
qed

text \<open>
  The two copies of a \<open>WorkloadMap\<close> differ on \<open>nil\<close>: \<open>DeepCopy\<close> keeps a \<open>nil\<close> map and
  copies any other to a map of its own, while \<open>DeepCopyInto\<close> makes an empty map out of \<open>nil\<close>.
\<close>

theorem WorkloadMap_copies:
  assumes "wf_heap h" and "smap_ok h r"
  shows "(\<exists>r' h'. WorkloadMap_DeepCopy r h = Some (r', h') \<and> smap_view h' r' = smap_view h r
      \<and> smap_refs h' r' \<subseteq> {limit h..} \<and> (\<forall>c<limit h. cells h' c = cells h c))
    \<and> (\<exists>p h'. WorkloadMap_DeepCopyInto r h = Some (Some p, h')
      \<and> smap_view h' (Some p) = Some (case smap_view h r of None \<Rightarrow> Map.empty | Some m \<Rightarrow> m))"
proof
  show "\<exists>p h'. WorkloadMap_DeepCopyInto r h = Some (Some p, h')
      \<and> smap_view h' (Some p) = Some (case smap_view h r of None \<Rightarrow> Map.empty | Some m \<Rightarrow> m)"
    using WorkloadMap_into [OF assms] by blast
  show "\<exists>r' h'. WorkloadMap_DeepCopy r h = Some (r', h') \<and> smap_view h' r' = smap_view h r
      \<and> smap_refs h' r' \<subseteq> {limit h..} \<and> (\<forall>c<limit h. cells h' c = cells h c)"
  proof (cases r)
    case None
    then show ?thesis by (simp add: WorkloadMap_DeepCopy_def map_view_def map_refs_def)
  next
    case (Some a)
    obtain out h1 where o: "alloc (MWorkloadMap None) h = (out, h1)" by force
    note e = alloc_grows [OF assms(1) o]
    note r1 = smap_copy.stays [OF assms e]
    from WorkloadMap_into [OF grows_wf [OF e] r1(1)] obtain p h2 where
      p: "WorkloadMap_DeepCopyInto r h1 = Some (Some p, h2)" "grows h1 h2" "smap_ok h2 (Some p)"
        "smap_view h2 (Some p) = Some (case smap_view h1 r of None \<Rightarrow> Map.empty | Some m \<Rightarrow> m)"
        "smap_refs h2 (Some p) \<subseteq> {limit h1..}" by blast
    have out: "out = limit h" "limit h1 = Suc out" using o by (auto simp: alloc_def)
    have "out \<notin> smap_refs h2 (Some p)" using p(5) out(2) by auto
    note s = smap_copy.frame_store [OF p(3) this, of "MWorkloadMap (Some p)"]
    let ?h = "store out (MWorkloadMap (Some p)) h2"
    have "WorkloadMap_DeepCopy r h = Some (Some p, ?h)"
      by (simp add: WorkloadMap_DeepCopy_def Some o p(1) [unfolded Some] load_def un_MWorkloadMap_def)
    moreover have "smap_view ?h (Some p) = smap_view h r"
      unfolding s(3) p(4) r1(3) by (simp add: Some map_view_def)
    moreover have "smap_refs ?h (Some p) \<subseteq> {limit h..}"
      unfolding s(2) using p(5) grows_limit [OF e] by auto
    moreover have "\<forall>c<limit h. cells ?h c = cells h c"
      using e p(2) out by (auto simp: grows_def agree_def)
    ultimately show ?thesis by blast
  qed
qed

theorem WorkloadMap_copies_witness:
  "(\<exists>r' h'. WorkloadMap_DeepCopy (Some 1) example_heap = Some (r', h')
      \<and> smap_view h' r' = Some [''app'' \<mapsto> ''rmd'']
      \<and> smap_refs h' r' \<subseteq> {4..} \<and> (\<forall>c<4. cells h' c = cells example_heap c))
   \<and> (\<exists>p h'. WorkloadMap_DeepCopyInto None example_heap = Some (Some p, h')
      \<and> smap_view h' (Some p) = Some Map.empty)"
proof -
  have ok: "smap_ok example_heap (Some 1)" "smap_ok example_heap None"
    "smap_view example_heap (Some 1) = Some [''app'' \<mapsto> ''rmd'']" "smap_view example_heap None = None"
    "limit example_heap = 4"
    by (simp_all add: map_ok_def map_view_def entries_def load_def example_heap_def un_MStringMap_def)
  show ?thesis
    using WorkloadMap_copies [OF example_heap_ok(1) ok(1)] WorkloadMap_copies [OF example_heap_ok(1) ok(2)]
    by (simp add: ok del: One_nat_def)
qed

end
