(* ===== verification/Registry_Race.thy ===== *)
theory Registry_Race
  imports Go_Heap Node_Data
begin

text \<open>
  The registry of \<open>pkg/state/state.go\<close> while three goroutines use it. The manager runs each
  controller in a goroutine of its own and the registry has no lock: the \<open>RmdConfig\<close>
  controller calls \<open>UpdateRmdNodeData\<close>, the \<open>RmdNodeState\<close> controller \<open>DeleteRmdNodeData\<close>,
  and the \<open>RmdWorkload\<close> controller ranges over the list. Here each of them is a machine whose
  steps are single accesses to what they share: a load or a store of the slice header, the
  read of one cell, the write of \<open>append\<close> into an array. The steps interleave in any order.

  This is the most benign reading of the program: a slice header is loaded and stored as a
  whole, \<open>append\<close> writes its cells at once, and all goroutines see the accesses in one order.
  None of this is promised by Go for a program with data races.
\<close>

section \<open>Shared memory\<close>

text \<open>A header is the address of the array and the length; every slice of the registry starts at cell 0.\<close>

type_synonym header = "addr \<times> nat"

record registry_mem =
  nodes :: header
  mem :: "string list heap"

definition array :: "registry_mem \<Rightarrow> addr \<Rightarrow> string list" where
  "array s a = (case cells (mem s) a of None \<Rightarrow> [] | Some xs \<Rightarrow> xs)"

text \<open>The list a goroutine would see that reads the registry without interruption.\<close>

definition node_list :: "registry_mem \<Rightarrow> string list" where
  "node_list s = (case nodes s of (a, len) \<Rightarrow> take len (array s a))"

definition new_registry :: registry_mem where
  "new_registry = (let (a, m) = alloc [] \<lparr>cells = Map.empty, limit = 0\<rparr> in \<lparr>nodes = (a, 0), mem = m\<rparr>)"

section \<open>UpdateRmdNodeData\<close>

text \<open>
  \<open>UpdScan n h i\<close> is about to compare cell \<open>i\<close> of the header \<open>h\<close> that \<open>range\<close> loaded; \<open>UpdLoad\<close>
  to load the header for \<open>append\<close>; \<open>UpdWrite\<close> to write the name behind the last cell, or, when
  the array is full, to copy the cells into a new array with \<open>g\<close> spare ones; \<open>UpdStore\<close> to
  store the header.
\<close>

datatype upd_pc =
    UpdIdle
  | UpdScan string header nat
  | UpdLoad string
  | UpdWrite string header
  | UpdStore header

fun upd_step :: "nat \<Rightarrow> upd_pc \<Rightarrow> registry_mem \<Rightarrow> upd_pc \<times> registry_mem" where
  "upd_step g UpdIdle s = (UpdIdle, s)"
| "upd_step g (UpdScan n (a, len) i) s =
     (if i < len
      then (if n = array s a ! i then (UpdIdle, s) else (UpdScan n (a, len) (Suc i), s))
      else (UpdLoad n, s))"
| "upd_step g (UpdLoad n) s = (UpdWrite n (nodes s), s)"
| "upd_step g (UpdWrite n (a, len)) s =
     (if len < length (array s a)
      then (UpdStore (a, Suc len), s\<lparr>mem := store a ((array s a)[len := n]) (mem s)\<rparr>)
      else let (b, m) = alloc (take len (array s a) @ n # replicate g []) (mem s)
           in (UpdStore (b, Suc len), s\<lparr>mem := m\<rparr>))"
| "upd_step g (UpdStore h) s = (UpdIdle, s\<lparr>nodes := h\<rparr>)"

section \<open>DeleteRmdNodeData\<close>

text \<open>
  \<open>DelScan\<close> compares a cell of the header \<open>h\<close> that \<open>range\<close> loaded; \<open>DelLow\<close> loads the header
  for \<open>[:index]\<close>, which panics beyond the capacity, \<open>DelHigh\<close> for \<open>[index+1:]\<close>, which panics
  beyond the length; \<open>DelMove\<close> is \<open>append\<close>, in place unless the first array is too short;
  \<open>DelStore\<close> stores the header and goes on with the next index.
\<close>

datatype del_pc =
    DelIdle
  | DelScan string header nat
  | DelLow string header nat
  | DelHigh string header nat addr
  | DelMove string header nat addr header
  | DelStore string header nat header
  | DelPanic

fun del_step :: "nat \<Rightarrow> del_pc \<Rightarrow> registry_mem \<Rightarrow> del_pc \<times> registry_mem" where
  "del_step g DelIdle s = (DelIdle, s)"
| "del_step g (DelScan n (a, len) i) s =
     (if i < len
      then (if array s a ! i = n then (DelLow n (a, len) i, s) else (DelScan n (a, len) (Suc i), s))
      else (DelIdle, s))"
| "del_step g (DelLow n h i) s =
     (case nodes s of (a1, len1) \<Rightarrow>
        if i \<le> length (array s a1) then (DelHigh n h i a1, s) else (DelPanic, s))"
| "del_step g (DelHigh n h i a1) s =
     (case nodes s of (a2, len2) \<Rightarrow>
        if i + 1 \<le> len2 then (DelMove n h i a1 (a2, len2), s) else (DelPanic, s))"
| "del_step g (DelMove n h i a1 (a2, len2)) s =
     (let src = drop (i + 1) (take len2 (array s a2)); last = i + length src in
      if last \<le> length (array s a1)
      then (DelStore n h i (a1, last),
            s\<lparr>mem := store a1 (take i (array s a1) @ src @ drop last (array s a1)) (mem s)\<rparr>)
      else let (b, m) = alloc (take i (array s a1) @ src @ replicate g []) (mem s)
           in (DelStore n h i (b, last), s\<lparr>mem := m\<rparr>))"
| "del_step g (DelStore n h i h') s = (DelScan n h (Suc i), s\<lparr>nodes := h'\<rparr>)"
| "del_step g DelPanic s = (DelPanic, s)"

section \<open>The range loop of the RmdWorkload controller\<close>

datatype read_pc = ReadIdle | ReadScan header nat

fun read_step :: "read_pc \<Rightarrow> registry_mem \<Rightarrow> read_pc \<times> string list" where
  "read_step ReadIdle s = (ReadIdle, [])"
| "read_step (ReadScan (a, len) i) s =
     (if i < len then (ReadScan (a, len) (Suc i), [array s a ! i]) else (ReadIdle, []))"

section \<open>Interleavings\<close>

record race_state =
  shared :: registry_mem
  upd :: upd_pc
  del :: del_pc
  rd :: read_pc
  seen :: "string list"

text \<open>
  A schedule lists the steps in the order they happen. A start, where the header of the
  \<open>range\<close> loop is loaded, is only possible when the goroutine is idle: each controller
  reconciles one request at a time.
\<close>

datatype event =
    CallUpdate string
  | UpdateStep nat
  | CallDelete string
  | DeleteStep nat
  | CallRange
  | RangeStep

fun race_step :: "event \<Rightarrow> race_state \<Rightarrow> race_state" where
  "race_step (CallUpdate n) s =
     (if upd s = UpdIdle then s\<lparr>upd := UpdScan n (nodes (shared s)) 0\<rparr> else s)"
| "race_step (UpdateStep g) s =
     (let (pc, m) = upd_step g (upd s) (shared s) in s\<lparr>upd := pc, shared := m\<rparr>)"
| "race_step (CallDelete n) s =
     (if del s = DelIdle then s\<lparr>del := DelScan n (nodes (shared s)) 0\<rparr> else s)"
| "race_step (DeleteStep g) s =
     (let (pc, m) = del_step g (del s) (shared s) in s\<lparr>del := pc, shared := m\<rparr>)"
| "race_step CallRange s =
     (if rd s = ReadIdle then s\<lparr>rd := ReadScan (nodes (shared s)) 0\<rparr> else s)"
| "race_step RangeStep s =
     (let (pc, xs) = read_step (rd s) (shared s) in s\<lparr>rd := pc, seen := seen s @ xs\<rparr>)"

definition run_race :: "event list \<Rightarrow> race_state \<Rightarrow> race_state" where
  "run_race sched s = fold race_step sched s"

definition race_start :: "registry_mem \<Rightarrow> race_state" where
  "race_start m = \<lparr>shared = m, upd = UpdIdle, del = DelIdle, rd = ReadIdle, seen = []\<rparr>"

text \<open>No operation is under way.\<close>

definition quiet :: "race_state \<Rightarrow> bool" where
  "quiet s \<longleftrightarrow> upd s = UpdIdle \<and> del s = DelIdle"


section \<open>Every access is inside its array\<close>

definition hdr_ok :: "registry_mem \<Rightarrow> header \<Rightarrow> bool" where
  "hdr_ok m h \<longleftrightarrow> fst h < limit (mem m) \<and> snd h \<le> length (array m (fst h))"

definition mem_ok :: "string set \<Rightarrow> registry_mem \<Rightarrow> bool" where
  "mem_ok N m \<longleftrightarrow> wf_heap (mem m) \<and> (\<forall>a. set (array m a) \<subseteq> N) \<and> hdr_ok m (nodes m)"

fun upd_ok :: "string set \<Rightarrow> registry_mem \<Rightarrow> upd_pc \<Rightarrow> bool" where
  "upd_ok N m UpdIdle \<longleftrightarrow> True"
| "upd_ok N m (UpdScan n h i) \<longleftrightarrow> n \<in> N \<and> hdr_ok m h"
| "upd_ok N m (UpdLoad n) \<longleftrightarrow> n \<in> N"
| "upd_ok N m (UpdWrite n h) \<longleftrightarrow> n \<in> N \<and> hdr_ok m h"
| "upd_ok N m (UpdStore h) \<longleftrightarrow> hdr_ok m h"

fun del_ok :: "registry_mem \<Rightarrow> del_pc \<Rightarrow> bool" where
  "del_ok m (DelScan n h i) \<longleftrightarrow> hdr_ok m h"
| "del_ok m (DelLow n h i) \<longleftrightarrow> hdr_ok m h"
| "del_ok m (DelHigh n h i a1) \<longleftrightarrow> hdr_ok m h \<and> hdr_ok m (a1, i)"
| "del_ok m (DelMove n h i a1 h2) \<longleftrightarrow> hdr_ok m h \<and> hdr_ok m (a1, i) \<and> hdr_ok m h2"
| "del_ok m (DelStore n h i h') \<longleftrightarrow> hdr_ok m h \<and> hdr_ok m h'"
| "del_ok m pc \<longleftrightarrow> True"

fun read_ok :: "registry_mem \<Rightarrow> read_pc \<Rightarrow> bool" where
  "read_ok m ReadIdle \<longleftrightarrow> True"
| "read_ok m (ReadScan h i) \<longleftrightarrow> hdr_ok m h"

definition race_ok :: "string set \<Rightarrow> race_state \<Rightarrow> bool" where
  "race_ok N s \<longleftrightarrow> mem_ok N (shared s) \<and> upd_ok N (shared s) (upd s) \<and> del_ok (shared s) (del s)
     \<and> read_ok (shared s) (rd s) \<and> set (seen s) \<subseteq> N"

text \<open>
  What a step of one goroutine may do to the memory as far as the others are concerned: no
  array gets shorter. Then every header they hold stays good.
\<close>

definition keeps :: "registry_mem \<Rightarrow> registry_mem \<Rightarrow> bool" where
  "keeps m m' \<longleftrightarrow> limit (mem m) \<le> limit (mem m')
     \<and> (\<forall>a<limit (mem m). length (array m' a) = length (array m a))"

lemma keeps_refl [simp]: "keeps m m"
  by (simp add: keeps_def)

lemma keeps_hdr: "keeps m m' \<Longrightarrow> hdr_ok m h \<Longrightarrow> hdr_ok m' h"
  by (auto simp: keeps_def hdr_ok_def)

lemma keeps_upd: "keeps m m' \<Longrightarrow> upd_ok N m pc \<Longrightarrow> upd_ok N m' pc"
  by (cases pc) (auto intro: keeps_hdr)

lemma keeps_del: "keeps m m' \<Longrightarrow> del_ok m pc \<Longrightarrow> del_ok m' pc"
  by (cases pc) (auto intro: keeps_hdr)

lemma keeps_read: "keeps m m' \<Longrightarrow> read_ok m pc \<Longrightarrow> read_ok m' pc"
  by (cases pc) (auto intro: keeps_hdr)

lemma array_nodes [simp]: "array (m\<lparr>nodes := h\<rparr>) = array m"
  by (simp add: array_def fun_eq_iff)

lemma array_store [simp]:
  "array (m\<lparr>mem := store a xs (mem m)\<rparr>) b = (if b = a then xs else array m b)"
  by (simp add: array_def)

lemma array_alloc:
  "alloc xs (mem m) = (p, h) \<Longrightarrow> array (m\<lparr>mem := h\<rparr>) b = (if b = limit (mem m) then xs else array m b)"
  by (auto simp: array_def alloc_def)

lemma store_ok:
  assumes "mem_ok N m" "a < limit (mem m)" "length xs = length (array m a)" "set xs \<subseteq> N"
  shows "mem_ok N (m\<lparr>mem := store a xs (mem m)\<rparr>)" "keeps m (m\<lparr>mem := store a xs (mem m)\<rparr>)"
  using assms by (auto simp: mem_ok_def keeps_def hdr_ok_def wf_store)

lemma alloc_ok:
  assumes "mem_ok N m" "alloc xs (mem m) = (p, h)" "set xs \<subseteq> N"
  shows "mem_ok N (m\<lparr>mem := h\<rparr>)" "keeps m (m\<lparr>mem := h\<rparr>)" "len \<le> length xs \<Longrightarrow> hdr_ok (m\<lparr>mem := h\<rparr>) (p, len)"
proof -
  have "wf_heap h"
    using alloc_grows [OF _ assms(2)] assms(1) grows_wf by (simp add: mem_ok_def)
  moreover have "limit h = Suc (limit (mem m))" "p = limit (mem m)"
    using assms(2) by (auto simp: alloc_def)
  ultimately show "mem_ok N (m\<lparr>mem := h\<rparr>)" "keeps m (m\<lparr>mem := h\<rparr>)"
    "len \<le> length xs \<Longrightarrow> hdr_ok (m\<lparr>mem := h\<rparr>) (p, len)"
    using assms(1,3) by (auto simp: mem_ok_def keeps_def hdr_ok_def array_alloc [OF assms(2)])
qed

lemma nodes_ok:
  assumes "mem_ok N m" "hdr_ok m h"
  shows "mem_ok N (m\<lparr>nodes := h\<rparr>)" "keeps m (m\<lparr>nodes := h\<rparr>)"
  using assms by (simp_all add: mem_ok_def keeps_def hdr_ok_def)

lemma upd_step_ok:
  assumes "mem_ok N m" "upd_ok N m pc" "[] \<in> N" "upd_step g pc m = (pc', m')"
  shows "mem_ok N m' \<and> upd_ok N m' pc' \<and> keeps m m'"
proof (cases pc)
  case (UpdScan n h i)
  then show ?thesis using assms by (cases h) (auto split: if_splits)
next
  case (UpdLoad n)
  then show ?thesis using assms by (auto simp: mem_ok_def)
next
  case (UpdStore h)
  then show ?thesis using assms nodes_ok [OF assms(1), of h] by auto
next
  case (UpdWrite n h)
  obtain a len where h: "h = (a, len)" by force
  have ok: "n \<in> N" "a < limit (mem m)" "len \<le> length (array m a)" "set (array m a) \<subseteq> N"
    using assms(1,2) UpdWrite h by (auto simp: hdr_ok_def mem_ok_def)
  show ?thesis
  proof (cases "len < length (array m a)")
    case True
    have "set ((array m a)[len := n]) \<subseteq> N" using ok(1,4) set_update_subset_insert by fastforce
    from store_ok [OF assms(1) ok(2) _ this] True show ?thesis
      using assms(4) UpdWrite h ok(2) by (auto simp: hdr_ok_def)
  next
    case False
    obtain b hp where b: "alloc (take len (array m a) @ n # replicate g []) (mem m) = (b, hp)" by force
    have "set (take len (array m a) @ n # replicate g []) \<subseteq> N"
      using ok(1,4) assms(3) set_take_subset [of len "array m a"] by auto
    note al = alloc_ok [OF assms(1) b this]
    have "hdr_ok (m\<lparr>mem := hp\<rparr>) (b, Suc len)" by (rule al(3)) (use ok(3) in simp)
    then show ?thesis using assms(4) UpdWrite h b False al(1,2) by auto
  qed
qed (use assms in auto)

lemma del_step_ok:
  assumes "mem_ok N m" "del_ok m pc" "[] \<in> N" "del_step g pc m = (pc', m')"
  shows "mem_ok N m' \<and> del_ok m' pc' \<and> keeps m m'"
proof (cases pc)
  case (DelScan n h i)
  then show ?thesis using assms by (cases h) (auto split: if_splits)
next
  case (DelLow n h i)
  then show ?thesis
    using assms by (cases "nodes m") (auto simp: mem_ok_def hdr_ok_def split: if_splits)
next
  case (DelHigh n h i a1)
  then show ?thesis using assms by (cases "nodes m") (auto simp: mem_ok_def split: if_splits)
next
  case (DelStore n h i h')
  then show ?thesis using assms nodes_ok [OF assms(1), of h'] keeps_hdr [of m _ h] by auto
next
  case (DelMove n h i a1 h2)
  obtain a2 len2 where h2: "h2 = (a2, len2)" by force
  define src where "src = drop (i + 1) (take len2 (array m a2))"
  have ok: "hdr_ok m h" "a1 < limit (mem m)" "i \<le> length (array m a1)" "set (array m a1) \<subseteq> N"
    using assms(1,2) DelMove by (auto simp: hdr_ok_def mem_ok_def)
  have src: "set src \<subseteq> N"
    using assms(1) unfolding src_def mem_ok_def
    by (meson order_trans set_drop_subset set_take_subset)
  have low: "set (take i (array m a1)) \<subseteq> N" using ok(4) set_take_subset by fastforce
  show ?thesis
  proof (cases "i + length src \<le> length (array m a1)")
    case True
    let ?xs = "take i (array m a1) @ src @ drop (i + length src) (array m a1)"
    have "length ?xs = length (array m a1)" using True by simp
    moreover have "set ?xs \<subseteq> N" using low src ok(4) set_drop_subset by fastforce
    ultimately have st: "mem_ok N (m\<lparr>mem := store a1 ?xs (mem m)\<rparr>)" "keeps m (m\<lparr>mem := store a1 ?xs (mem m)\<rparr>)"
      using store_ok [OF assms(1) ok(2)] by blast+
    have "hdr_ok (m\<lparr>mem := store a1 ?xs (mem m)\<rparr>) (a1, i + length src)"
      using True ok(2) by (simp add: hdr_ok_def)
    moreover have "del_step g pc m =
        (DelStore n h i (a1, i + length src), m\<lparr>mem := store a1 ?xs (mem m)\<rparr>)"
      by (simp only: DelMove h2 del_step.simps Let_def src_def [symmetric] True if_True)
    ultimately show ?thesis using st keeps_hdr [OF st(2) ok(1)] assms(4) by simp
  next
    case False
    obtain b hp where b: "alloc (take i (array m a1) @ src @ replicate g []) (mem m) = (b, hp)" by force
    have "set (take i (array m a1) @ src @ replicate g []) \<subseteq> N" using low src assms(3) by auto
    note al = alloc_ok [OF assms(1) b this]
    have "hdr_ok (m\<lparr>mem := hp\<rparr>) (b, i + length src)" by (rule al(3)) (use ok(3) in simp)
    moreover have "del_step g pc m = (DelStore n h i (b, i + length src), m\<lparr>mem := hp\<rparr>)"
      by (simp only: DelMove h2 del_step.simps Let_def src_def [symmetric] False if_False b prod.case)
    ultimately show ?thesis using al(1,2) keeps_hdr [OF al(2) ok(1)] assms(4) by simp
  qed
qed (use assms in auto)


text \<open>The names the schedule passes to \<open>UpdateRmdNodeData\<close>.\<close>

fun added :: "event list \<Rightarrow> string list" where
  "added [] = []"
| "added (CallUpdate n # es) = n # added es"
| "added (_ # es) = added es"

lemma race_ok_step:
  assumes "race_ok N s" "[] \<in> N" "set (added [e]) \<subseteq> N"
  shows "race_ok N (race_step e s)"
proof (cases e)
  case (UpdateStep g)
  obtain pc m where st: "upd_step g (upd s) (shared s) = (pc, m)" by force
  with assms(1) have "mem_ok N m \<and> upd_ok N m pc \<and> keeps (shared s) m"
    using upd_step_ok [OF _ _ assms(2) st] by (simp add: race_ok_def)
  then show ?thesis
    using assms(1) keeps_del [of "shared s" m] keeps_read [of "shared s" m]
    by (simp add: UpdateStep st race_ok_def)
next
  case (DeleteStep g)
  obtain pc m where st: "del_step g (del s) (shared s) = (pc, m)" by force
  with assms(1) have "mem_ok N m \<and> del_ok m pc \<and> keeps (shared s) m"
    using del_step_ok [OF _ _ assms(2) st] by (simp add: race_ok_def)
  then show ?thesis
    using assms(1) keeps_upd [of "shared s" m] keeps_read [of "shared s" m]
    by (simp add: DeleteStep st race_ok_def)
next
  case RangeStep
  show ?thesis
  proof (cases "rd s")
    case (ReadScan h i)
    obtain a len where h: "h = (a, len)" by force
    have "array (shared s) a ! i \<in> N" if "i < len"
    proof -
      have "i < length (array (shared s) a)" "set (array (shared s) a) \<subseteq> N"
        using that assms(1) ReadScan h by (auto simp: race_ok_def mem_ok_def hdr_ok_def)
      then show ?thesis using nth_mem by blast
    qed
    then show ?thesis using assms(1) RangeStep ReadScan h by (auto simp: race_ok_def)
  qed (use assms(1) RangeStep in \<open>simp add: race_ok_def\<close>)
qed (use assms in \<open>auto simp: race_ok_def mem_ok_def\<close>)

lemma race_ok_run:
  "race_ok N s \<Longrightarrow> [] \<in> N \<Longrightarrow> set (added sched) \<subseteq> N \<Longrightarrow> race_ok N (run_race sched s)"
  unfolding run_race_def
proof (induction sched arbitrary: s)
  case (Cons e es)
  have "set (added [e]) \<subseteq> N" "set (added es) \<subseteq> N" using Cons.prems(3) by (cases e; auto)+
  with Cons show ?case by (simp add: race_ok_step)
qed simp

lemma new_registry_ok: "race_ok (insert [] N) (race_start new_registry)"
  by (auto simp: race_ok_def race_start_def new_registry_def mem_ok_def hdr_ok_def array_def alloc_def
      wf_heap_def)

text \<open>The cells the next step of each goroutine reads are cells of an array.\<close>

fun reads_inside :: "registry_mem \<Rightarrow> header \<Rightarrow> nat \<Rightarrow> bool" where
  "reads_inside m (a, len) i \<longleftrightarrow> (i < len \<longrightarrow> i < length (array m a))"

definition accesses_inside :: "race_state \<Rightarrow> bool" where
  "accesses_inside s \<longleftrightarrow>
     (case upd s of UpdScan n h i \<Rightarrow> reads_inside (shared s) h i
        | UpdWrite n (a, len) \<Rightarrow> len \<le> length (array (shared s) a) | _ \<Rightarrow> True)
     \<and> (case del s of DelScan n h i \<Rightarrow> reads_inside (shared s) h i
        | DelMove n h i a1 (a2, len2) \<Rightarrow>
            i \<le> length (array (shared s) a1) \<and> len2 \<le> length (array (shared s) a2) | _ \<Rightarrow> True)
     \<and> (case rd s of ReadScan h i \<Rightarrow> reads_inside (shared s) h i | _ \<Rightarrow> True)"

lemma hdr_ok_reads: "hdr_ok m h \<Longrightarrow> reads_inside m h i"
  by (cases h) (simp add: hdr_ok_def)

lemma race_ok_accesses:
  assumes "race_ok N s"
  shows "accesses_inside s"
proof -
  have "upd_ok N (shared s) (upd s)" "del_ok (shared s) (del s)" "read_ok (shared s) (rd s)"
    using assms by (simp_all add: race_ok_def)
  then have "case upd s of UpdScan n h i \<Rightarrow> reads_inside (shared s) h i
        | UpdWrite n (a, len) \<Rightarrow> len \<le> length (array (shared s) a) | _ \<Rightarrow> True"
    "case del s of DelScan n h i \<Rightarrow> reads_inside (shared s) h i
        | DelMove n h i a1 (a2, len2) \<Rightarrow>
            i \<le> length (array (shared s) a1) \<and> len2 \<le> length (array (shared s) a2) | _ \<Rightarrow> True"
    "case rd s of ReadScan h i \<Rightarrow> reads_inside (shared s) h i | _ \<Rightarrow> True"
    by (auto simp: hdr_ok_reads hdr_ok_def split: upd_pc.splits del_pc.splits read_pc.splits)
  then show ?thesis by (simp add: accesses_inside_def)
qed

section \<open>Without interference\<close>

text \<open>The steps of one goroutine while the others stand still.\<close>

definition upd_steps :: "nat \<Rightarrow> nat \<Rightarrow> upd_pc \<times> registry_mem \<Rightarrow> upd_pc \<times> registry_mem" where
  "upd_steps g k = (\<lambda>(pc, m). upd_step g pc m) ^^ k"

definition del_steps :: "nat \<Rightarrow> nat \<Rightarrow> del_pc \<times> registry_mem \<Rightarrow> del_pc \<times> registry_mem" where
  "del_steps g k = (\<lambda>(pc, m). del_step g pc m) ^^ k"

lemma upd_steps_Suc [simp]: "upd_steps g (Suc k) (pc, m) = upd_steps g k (upd_step g pc m)"
  by (simp add: upd_steps_def funpow_swap1)

lemma upd_steps_0 [simp]: "upd_steps g 0 x = x"
  by (simp add: upd_steps_def)

lemma del_steps_Suc [simp]: "del_steps g (Suc k) (pc, m) = del_steps g k (del_step g pc m)"
  by (simp add: del_steps_def funpow_swap1)

lemma del_steps_0 [simp]: "del_steps g 0 x = x"
  by (simp add: del_steps_def)

lemma del_steps_add: "del_steps g (j + k) x = del_steps g k (del_steps g j x)"
  by (simp add: del_steps_def add.commute [of j] funpow_add)

lemma run_upd_steps:
  "run_race (replicate k (UpdateStep g)) s =
     s\<lparr>upd := fst (upd_steps g k (upd s, shared s)), shared := snd (upd_steps g k (upd s, shared s))\<rparr>"
  unfolding run_race_def
proof (induction k arbitrary: s)
  case (Suc k)
  then show ?case by (cases "upd_step g (upd s) (shared s)") simp
qed simp

lemma run_del_steps:
  "run_race (replicate k (DeleteStep g)) s =
     s\<lparr>del := fst (del_steps g k (del s, shared s)), shared := snd (del_steps g k (del s, shared s))\<rparr>"
  unfolding run_race_def
proof (induction k arbitrary: s)
  case (Suc k)
  then show ?case by (cases "del_step g (del s) (shared s)") simp
qed simp


text \<open>\<open>UpdateRmdNodeData\<close>: the scan, and the three steps of \<open>append\<close>.\<close>

lemma upd_scan_absent:
  assumes "nodes m = (a, len)" "len = i + k" "n \<notin> set (drop i (take len (array m a)))"
    "len \<le> length (array m a)"
  shows "upd_steps g (Suc k) (UpdScan n (a, len) i, m) = (UpdLoad n, m)"
  using assms
proof (induction k arbitrary: i)
  case (Suc k)
  have "drop i (take len (array m a)) = array m a ! i # drop (Suc i) (take len (array m a))"
    using Suc.prems by (simp add: Cons_nth_drop_Suc [symmetric])
  with Suc.prems have "array m a ! i \<noteq> n" "n \<notin> set (drop (Suc i) (take len (array m a)))" by auto
  with Suc.IH [of "Suc i"] Suc.prems show ?case by (simp add: eq_commute [of n])
qed simp

lemma upd_scan_present:
  assumes "nodes m = (a, len)" "len = i + k" "n \<in> set (drop i (take len (array m a)))"
    "len \<le> length (array m a)"
  shows "\<exists>j. upd_steps g j (UpdScan n (a, len) i, m) = (UpdIdle, m)"
  using assms
proof (induction k arbitrary: i)
  case (Suc k)
  have split: "drop i (take len (array m a)) = array m a ! i # drop (Suc i) (take len (array m a))"
    using Suc.prems by (simp add: Cons_nth_drop_Suc [symmetric])
  show ?case
  proof (cases "array m a ! i = n")
    case True
    have "upd_steps g 1 (UpdScan n (a, len) i, m) = (UpdIdle, m)" using Suc.prems(2) True by simp
    then show ?thesis by blast
  next
    case False
    with split Suc.prems have "n \<in> set (drop (Suc i) (take len (array m a)))" by auto
    with Suc.IH [of "Suc i"] Suc.prems obtain j where
      "upd_steps g j (UpdScan n (a, len) (Suc i), m) = (UpdIdle, m)" by auto
    then have "upd_steps g (Suc j) (UpdScan n (a, len) i, m) = (UpdIdle, m)"
      using Suc.prems(2) False by (simp add: eq_commute [of n])
    then show ?thesis by blast
  qed
qed simp

lemma upd_steps_add: "upd_steps g (j + k) x = upd_steps g k (upd_steps g j x)"
  by (simp add: upd_steps_def add.commute [of j] funpow_add)

lemma upd_append:
  assumes "hdr_ok m (nodes m)"
  shows "\<exists>m'. upd_steps g 3 (UpdLoad n, m) = (UpdIdle, m') \<and> node_list m' = node_list m @ [n]"
proof -
  obtain a len where h: "nodes m = (a, len)" by force
  have len: "len \<le> length (array m a)" using assms h by (simp add: hdr_ok_def)
  obtain b hp where b: "alloc (take len (array m a) @ n # replicate g []) (mem m) = (b, hp)" by force
  have bl: "b = limit (mem m)" using b by (simp add: alloc_def)
  show ?thesis
    using h len b bl array_alloc [OF b]
    by (auto simp: numeral_3_eq_3 node_list_def take_Suc_conv_app_nth)
qed

lemma solo_update:
  assumes "hdr_ok m (nodes m)"
  shows "\<exists>k m'. upd_steps g k (UpdScan n (nodes m) 0, m) = (UpdIdle, m')
    \<and> RmdNodeList (UpdateRmdNodeData n \<lparr>RmdNodeList = node_list m\<rparr>) = node_list m'"
proof -
  obtain a len where h: "nodes m = (a, len)" by force
  have len: "len \<le> length (array m a)" using assms h by (simp add: hdr_ok_def)
  show ?thesis
  proof (cases "n \<in> set (node_list m)")
    case True
    then show ?thesis
      using upd_scan_present [of m a len 0 len n g] h len
      by (fastforce simp: node_list_def UpdateRmdNodeData_def update_loop_eq)
  next
    case False
    have "upd_steps g (Suc len) (UpdScan n (a, len) 0, m) = (UpdLoad n, m)"
      by (rule upd_scan_absent) (use h len False in \<open>auto simp: node_list_def\<close>)
    moreover obtain m' where "upd_steps g 3 (UpdLoad n, m) = (UpdIdle, m')" "node_list m' = node_list m @ [n]"
      using upd_append [OF assms] by blast
    ultimately have "upd_steps g (Suc len + 3) (UpdScan n (nodes m) 0, m) = (UpdIdle, m')"
      unfolding upd_steps_add h by simp
    then show ?thesis
      using \<open>node_list m' = _\<close> False by (fastforce simp: UpdateRmdNodeData_def update_loop_eq)
  qed
qed


text \<open>
  \<open>DeleteRmdNodeData\<close>: the state of its loop is a header at the array \<open>a\<close>, whose first cells
  are the backing array of the sequential model. \<open>extra\<close> is spare capacity. Where the cell
  holds the name, five steps do what \<open>append_delete\<close> does, or panic in the third.
\<close>

lemma del_found_panics:
  assumes "nodes m = (a, slen t)" "array m a = backing t @ extra" "i < length (backing t)"
    and "backing t ! i = n" "append_delete i t = None"
  shows "del_steps g 3 (DelScan n (a, length (backing t)) i, m) = (DelPanic, m)"
  using assms by (simp add: numeral_3_eq_3 nth_append append_delete_def split: if_splits)

lemma del_found:
  assumes "nodes m = (a, slen t)" "array m a = backing t @ extra" "i < length (backing t)"
    and "slen t \<le> length (backing t)" "backing t ! i = n" "append_delete i t = Some t1"
  shows "\<exists>m1. nodes m1 = (a, slen t1) \<and> array m1 a = backing t1 @ extra
    \<and> length (backing t1) = length (backing t) \<and> slen t1 \<le> length (backing t)
    \<and> del_steps g 5 (DelScan n (a, length (backing t)) i, m) = (DelScan n (a, length (backing t)) (Suc i), m1)"
proof -
  let ?len = "length (backing t)"
  have t: "i + 1 \<le> slen t" "slen t1 = slen t - 1"
    "backing t1 = take i (backing t) @ drop (i + 1) (take (slen t) (backing t)) @ drop (slen t - 1) (backing t)"
    using assms(6) by (auto simp: append_delete_def split: if_splits)
  define m1 where "m1 = m\<lparr>mem := store a (backing t1 @ extra) (mem m), nodes := (a, slen t1)\<rparr>"
  have src: "drop (i + 1) (take (slen t) (array m a)) = drop (i + 1) (take (slen t) (backing t))"
    "i + length (drop (i + 1) (take (slen t) (backing t))) = slen t1"
    using assms(2,4) t(1) by (auto simp: t(2))
  have xs: "take i (array m a) @ drop (i + 1) (take (slen t) (backing t)) @ drop (slen t1) (array m a)
      = backing t1 @ extra"
    using assms(2-4) t(1) by (simp add: t(2,3))
  have len: "length (backing t1) = ?len" "slen t1 \<le> ?len" using assms(4) t(1) by (simp_all add: t(2,3))
  then have "slen t1 \<le> length (array m a)" using assms(2) by simp
  then have move: "del_step g (DelMove n (a, ?len) i a (a, slen t)) m =
      (DelStore n (a, ?len) i (a, slen t1), m\<lparr>mem := store a (backing t1 @ extra) (mem m)\<rparr>)"
    by (simp only: del_step.simps Let_def src xs if_True)
  have "del_steps g 5 (DelScan n (a, ?len) i, m) =
      del_steps g 2 (DelMove n (a, ?len) i a (a, slen t), m)"
    using assms(1-3,5) t(1) by (simp add: eval_nat_numeral nth_append)
  also have "\<dots> = (DelScan n (a, ?len) (Suc i), m1)"
    by (simp only: numeral_2_eq_2 del_steps_Suc move) (simp add: m1_def)
  finally show ?thesis
    using len by (intro exI [of _ m1]) (simp add: m1_def array_def)
qed

lemma solo_delete_loop:
  assumes "nodes m = (a, slen t)" "array m a = backing t @ extra" "i + k = length (backing t)"
    and "slen t \<le> length (backing t)"
  shows "\<exists>j m'. del_steps g j (DelScan n (a, length (backing t)) i, m) =
      ((if delete_loop n i k t = None then DelPanic else DelIdle), m')
    \<and> (\<forall>t'. delete_loop n i k t = Some t' \<longrightarrow> node_list m' = slice_list t')"
  using assms
proof (induction k arbitrary: i m t)
  case 0
  have "del_steps g 1 (DelScan n (a, length (backing t)) i, m) = (DelIdle, m)" using 0 by simp
  moreover have "node_list m = slice_list t" using 0 by (simp add: node_list_def slice_list_def)
  ultimately show ?case by (intro exI [of _ 1] exI [of _ m]) simp
next
  case (Suc k)
  let ?len = "length (backing t)"
  have i: "i < ?len" using Suc.prems(3) by simp
  consider "backing t ! i \<noteq> n" | "backing t ! i = n" "append_delete i t = None"
    | t1 where "backing t ! i = n" "append_delete i t = Some t1" by blast
  then show ?case
  proof cases
    case 1
    then have "del_steps g 1 (DelScan n (a, ?len) i, m) = (DelScan n (a, ?len) (Suc i), m)"
      using i Suc.prems(2) by (simp add: nth_append)
    moreover from Suc.IH [of m t "Suc i"] Suc.prems obtain j m' where
      "del_steps g j (DelScan n (a, ?len) (Suc i), m) =
        ((if delete_loop n (Suc i) k t = None then DelPanic else DelIdle), m')"
      "\<forall>t'. delete_loop n (Suc i) k t = Some t' \<longrightarrow> node_list m' = slice_list t'" by auto
    ultimately show ?thesis
      using 1 by (intro exI [of _ "1 + j"] exI [of _ m']) (simp only: del_steps_add, simp)
  next
    case 2
    with del_found_panics [OF Suc.prems(1,2) i this] show ?thesis
      by (intro exI [of _ 3] exI [of _ m]) simp
  next
    case (3 t1)
    from del_found [OF Suc.prems(1,2) i Suc.prems(4) 3] obtain m1 where m1:
      "nodes m1 = (a, slen t1)" "array m1 a = backing t1 @ extra" "length (backing t1) = ?len"
      "slen t1 \<le> ?len" "del_steps g 5 (DelScan n (a, ?len) i, m) = (DelScan n (a, ?len) (Suc i), m1)" by blast
    moreover from Suc.IH [of m1 t1 "Suc i"] m1 Suc.prems(3) obtain j m' where
      "del_steps g j (DelScan n (a, ?len) (Suc i), m1) =
        ((if delete_loop n (Suc i) k t1 = None then DelPanic else DelIdle), m')"
      "\<forall>t'. delete_loop n (Suc i) k t1 = Some t' \<longrightarrow> node_list m' = slice_list t'" by auto
    ultimately show ?thesis
      using 3 by (intro exI [of _ "5 + j"] exI [of _ m']) (simp only: del_steps_add, simp)
  qed
qed

lemma solo_delete:
  assumes "hdr_ok m (nodes m)"
  shows "\<exists>k m'. del_steps g k (DelScan n (nodes m) 0, m) =
      ((if DeleteRmdNodeData n \<lparr>RmdNodeList = node_list m\<rparr> = None then DelPanic else DelIdle), m')
    \<and> (\<forall>nd. DeleteRmdNodeData n \<lparr>RmdNodeList = node_list m\<rparr> = Some nd \<longrightarrow> node_list m' = RmdNodeList nd)"
proof -
  obtain a len where h: "nodes m = (a, len)" by force
  let ?t = "\<lparr>backing = node_list m, slen = length (node_list m)\<rparr>"
  have nl: "length (node_list m) = len" "array m a = node_list m @ drop len (array m a)"
    using assms h by (simp_all add: node_list_def hdr_ok_def)
  from solo_delete_loop [of m a ?t "drop len (array m a)" 0 len g n] nl h obtain j m' where
    "del_steps g j (DelScan n (a, len) 0, m) =
      ((if delete_loop n 0 len ?t = None then DelPanic else DelIdle), m')"
    "\<forall>t'. delete_loop n 0 len ?t = Some t' \<longrightarrow> node_list m' = slice_list t'" by auto
  then show ?thesis
    using h nl(1)
    by (intro exI [of _ j] exI [of _ m'])
      (auto simp: DeleteRmdNodeData_def bind_eq_None_conv bind_eq_Some_conv)
qed


section \<open>Every call ends\<close>

text \<open>The steps a call has left at most; a call that ended, or panicked, has none.\<close>

fun upd_left :: "upd_pc \<Rightarrow> nat" where
  "upd_left UpdIdle = 0"
| "upd_left (UpdScan n h i) = snd h - i + 4"
| "upd_left (UpdLoad n) = 3"
| "upd_left (UpdWrite n h) = 2"
| "upd_left (UpdStore h) = 1"

fun del_left :: "del_pc \<Rightarrow> nat" where
  "del_left DelIdle = 0"
| "del_left DelPanic = 0"
| "del_left (DelScan n h i) = 5 * (snd h - i) + 1"
| "del_left (DelLow n h i) = 5 * (snd h - Suc i) + 5"
| "del_left (DelHigh n h i a) = 5 * (snd h - Suc i) + 4"
| "del_left (DelMove n h i a h') = 5 * (snd h - Suc i) + 3"
| "del_left (DelStore n h i h') = 5 * (snd h - Suc i) + 2"

fun read_left :: "read_pc \<Rightarrow> nat" where
  "read_left ReadIdle = 0"
| "read_left (ReadScan h i) = snd h - i + 1"

text \<open>Whose step it is.\<close>

fun is_UpdateStep :: "event \<Rightarrow> bool" where
  "is_UpdateStep (UpdateStep g) = True"
| "is_UpdateStep _ = False"

fun is_DeleteStep :: "event \<Rightarrow> bool" where
  "is_DeleteStep (DeleteStep g) = True"
| "is_DeleteStep _ = False"

fun is_RangeStep :: "event \<Rightarrow> bool" where
  "is_RangeStep RangeStep = True"
| "is_RangeStep _ = False"

lemma left_0_iff:
  "upd_left p = 0 \<longleftrightarrow> p = UpdIdle" "del_left q = 0 \<longleftrightarrow> q = DelIdle \<or> q = DelPanic"
  "read_left r = 0 \<longleftrightarrow> r = ReadIdle"
  by ((cases p; simp), (cases q; simp), (cases r; simp))

lemma upd_step_left: "upd_left p \<noteq> 0 \<Longrightarrow> upd_left (fst (upd_step g p m)) < upd_left p"
  by (induction g p m rule: upd_step.induct) (auto simp: Let_def split: prod.splits)

lemma del_step_left: "del_left p \<noteq> 0 \<Longrightarrow> del_left (fst (del_step g p m)) < del_left p"
  by (induction g p m rule: del_step.induct) (auto simp: Let_def split: prod.splits)

lemma read_step_left: "read_left p \<noteq> 0 \<Longrightarrow> read_left (fst (read_step p m)) < read_left p"
  by (induction p m rule: read_step.induct) auto

text \<open>A count that a goroutine's own steps lower, and no other step raises, comes to zero.\<close>

lemma reaches_zero:
  assumes own: "\<And>e s. left s \<noteq> 0 \<Longrightarrow> own e \<Longrightarrow> left (race_step e s) < (left s :: nat)"
    and others: "\<And>e s. left s \<noteq> 0 \<Longrightarrow> \<not> own e \<Longrightarrow> left (race_step e s) \<le> left s"
  shows "left s \<le> length (filter own es) \<Longrightarrow> \<exists>k \<le> length es. left (run_race (take k es) s) = 0"
proof (induction es arbitrary: s)
  case Nil
  then show ?case by (simp add: run_race_def)
next
  case (Cons e es)
  show ?case
  proof (cases "left s = 0")
    case True
    then show ?thesis by (intro exI [of _ 0]) (simp add: run_race_def)
  next
    case False
    with Cons.prems own [OF False, of e] others [OF False, of e]
    have "left (race_step e s) \<le> length (filter own es)" by (cases "own e") fastforce+
    from Cons.IH [OF this] obtain k where "k \<le> length es" "left (run_race (take k es) (race_step e s)) = 0" by blast
    then show ?thesis by (intro exI [of _ "Suc k"]) (simp add: run_race_def)
  qed
qed

lemma upd_reaches_idle:
  assumes "upd_left (upd s) \<le> length (filter is_UpdateStep es)"
  shows "\<exists>k \<le> length es. upd (run_race (take k es) s) = UpdIdle"
proof -
  have own: "upd_left (upd (race_step e t)) < upd_left (upd t)" if "upd_left (upd t) \<noteq> 0" "is_UpdateStep e" for e t
    using that upd_step_left by (cases e) (auto simp: split_beta)
  have others: "upd_left (upd (race_step e t)) \<le> upd_left (upd t)" if "upd_left (upd t) \<noteq> 0" "\<not> is_UpdateStep e" for e t
    using that by (cases e) (auto simp: split_beta)
  show ?thesis
    using reaches_zero [of "\<lambda>s. upd_left (upd s)" is_UpdateStep, OF own others assms] by (simp add: left_0_iff)
qed

lemma del_reaches_end:
  assumes "del_left (del s) \<le> length (filter is_DeleteStep es)"
  shows "\<exists>k \<le> length es. del (run_race (take k es) s) \<in> {DelIdle, DelPanic}"
proof -
  have own: "del_left (del (race_step e t)) < del_left (del t)" if "del_left (del t) \<noteq> 0" "is_DeleteStep e" for e t
    using that del_step_left by (cases e) (auto simp: split_beta)
  have others: "del_left (del (race_step e t)) \<le> del_left (del t)" if "del_left (del t) \<noteq> 0" "\<not> is_DeleteStep e" for e t
    using that by (cases e) (auto simp: split_beta)
  show ?thesis
    using reaches_zero [of "\<lambda>s. del_left (del s)" is_DeleteStep, OF own others assms] by (simp add: left_0_iff)
qed

lemma read_reaches_idle:
  assumes "read_left (rd s) \<le> length (filter is_RangeStep es)"
  shows "\<exists>k \<le> length es. rd (run_race (take k es) s) = ReadIdle"
proof -
  have own: "read_left (rd (race_step e t)) < read_left (rd t)" if "read_left (rd t) \<noteq> 0" "is_RangeStep e" for e t
    using that read_step_left by (cases e) (auto simp: split_beta)
  have others: "read_left (rd (race_step e t)) \<le> read_left (rd t)" if "read_left (rd t) \<noteq> 0" "\<not> is_RangeStep e" for e t
    using that by (cases e) (auto simp: split_beta)
  show ?thesis
    using reaches_zero [of "\<lambda>s. read_left (rd s)" is_RangeStep, OF own others assms] by (simp add: left_0_iff)
qed


section \<open>Properties\<close>

text \<open>
  (C16) A call that nothing interrupts does what the sequential model of \<open>Node_Data\<close> says, for
  every capacity of the array: \<open>UpdateRmdNodeData\<close> ends with its list, \<open>DeleteRmdNodeData\<close> ends
  with its list or panics when it panics.
\<close>

theorem solo_registry_calls:
  assumes "hdr_ok m (nodes m)"
  shows "(\<exists>k. let s = run_race (CallUpdate n # replicate k (UpdateStep g)) (race_start m) in
      quiet s \<and> node_list (shared s) = RmdNodeList (UpdateRmdNodeData n \<lparr>RmdNodeList = node_list m\<rparr>))
    \<and> (\<exists>k. let s = run_race (CallDelete n # replicate k (DeleteStep g)) (race_start m) in
      case DeleteRmdNodeData n \<lparr>RmdNodeList = node_list m\<rparr> of
        None \<Rightarrow> del s = DelPanic
      | Some nd \<Rightarrow> quiet s \<and> node_list (shared s) = RmdNodeList nd)"
proof
  have start: "run_race (CallUpdate n # es) (race_start m)
      = run_race es ((race_start m)\<lparr>upd := UpdScan n (nodes m) 0\<rparr>)"
    "run_race (CallDelete n # es) (race_start m)
      = run_race es ((race_start m)\<lparr>del := DelScan n (nodes m) 0\<rparr>)" for es
    by (simp_all add: run_race_def race_start_def)
  obtain k m' where "upd_steps g k (UpdScan n (nodes m) 0, m) = (UpdIdle, m')"
    "RmdNodeList (UpdateRmdNodeData n \<lparr>RmdNodeList = node_list m\<rparr>) = node_list m'"
    using solo_update [OF assms, of g n] by blast
  then show "\<exists>k. let s = run_race (CallUpdate n # replicate k (UpdateStep g)) (race_start m) in
      quiet s \<and> node_list (shared s) = RmdNodeList (UpdateRmdNodeData n \<lparr>RmdNodeList = node_list m\<rparr>)"
    by (intro exI [of _ k], unfold start run_upd_steps) (simp add: race_start_def quiet_def)
  obtain k m' where "del_steps g k (DelScan n (nodes m) 0, m) =
      ((if DeleteRmdNodeData n \<lparr>RmdNodeList = node_list m\<rparr> = None then DelPanic else DelIdle), m')"
    "\<forall>nd. DeleteRmdNodeData n \<lparr>RmdNodeList = node_list m\<rparr> = Some nd \<longrightarrow> node_list m' = RmdNodeList nd"
    using solo_delete [OF assms, of g n] by blast
  then show "\<exists>k. let s = run_race (CallDelete n # replicate k (DeleteStep g)) (race_start m) in
      case DeleteRmdNodeData n \<lparr>RmdNodeList = node_list m\<rparr> of
        None \<Rightarrow> del s = DelPanic
      | Some nd \<Rightarrow> quiet s \<and> node_list (shared s) = RmdNodeList nd"
    by (intro exI [of _ k], unfold start run_del_steps)
      (auto simp: race_start_def quiet_def split: option.splits)
qed

theorem solo_registry_calls_witness:
  "\<exists>k. let s = run_race (CallUpdate ''n1'' # replicate k (UpdateStep 0)) (race_start new_registry) in
     quiet s \<and> node_list (shared s) = [''n1'']"
proof -
  have "hdr_ok new_registry (nodes new_registry)"
    by (simp add: new_registry_def hdr_ok_def alloc_def)
  from solo_registry_calls [OF this, of "''n1''" 0] show ?thesis
    by (simp add: new_registry_def node_list_def alloc_def UpdateRmdNodeData_def)
qed

text \<open>
  (C15) However the calls of the three controllers interleave from the registry the operator
  starts with, every cell a goroutine is about to read or to copy lies in its array, and
  every name the \<open>RmdWorkload\<close> controller reads has been passed to \<open>UpdateRmdNodeData\<close>, or is
  the empty string of a spare cell.
\<close>

theorem race_stays_inside:
  "let s = run_race sched (race_start new_registry) in
     accesses_inside s \<and> snd (nodes (shared s)) \<le> length (array (shared s) (fst (nodes (shared s))))
     \<and> set (node_list (shared s)) \<subseteq> insert [] (set (added sched))
     \<and> set (seen s) \<subseteq> insert [] (set (added sched))"
proof -
  let ?N = "insert [] (set (added sched))"
  have ok: "race_ok ?N (run_race sched (race_start new_registry))"
    by (rule race_ok_run [OF new_registry_ok]) auto
  then show ?thesis
    using race_ok_accesses [OF ok] set_take_subset
    by (fastforce simp: Let_def race_ok_def mem_ok_def hdr_ok_def node_list_def split: prod.splits)
qed

text \<open>
  (C17) Every call ends, whatever the other goroutines do meanwhile to the list it ranges over: the
  header is loaded once, so that with \<open>len\<close> names at the start of the call, \<open>len + 4\<close> steps of
  its own are enough for \<open>UpdateRmdNodeData\<close>, \<open>5 * len + 1\<close> for \<open>DeleteRmdNodeData\<close>, which may
  panic instead, and \<open>len + 1\<close> for the loop of the \<open>RmdWorkload\<close> controller.
\<close>

theorem registry_calls_end:
  assumes "upd s = UpdIdle" "del s = DelIdle" "rd s = ReadIdle"
  shows "let len = snd (nodes (shared s)) in
      (len + 4 \<le> length (filter is_UpdateStep es) \<longrightarrow>
         (\<exists>k \<le> length es. upd (run_race (CallUpdate n # take k es) s) = UpdIdle))
    \<and> (5 * len + 1 \<le> length (filter is_DeleteStep es) \<longrightarrow>
         (\<exists>k \<le> length es. del (run_race (CallDelete n # take k es) s) \<in> {DelIdle, DelPanic}))
    \<and> (len + 1 \<le> length (filter is_RangeStep es) \<longrightarrow>
         (\<exists>k \<le> length es. rd (run_race (CallRange # take k es) s) = ReadIdle))"
proof -
  have cons: "run_race (e # es) s = run_race es (race_step e s)" for e es
    by (simp add: run_race_def)
  have left: "upd_left (upd (race_step (CallUpdate n) s)) = snd (nodes (shared s)) + 4"
    "del_left (del (race_step (CallDelete n) s)) = 5 * snd (nodes (shared s)) + 1"
    "read_left (rd (race_step CallRange s)) = snd (nodes (shared s)) + 1"
    by (simp_all add: assms)
  show ?thesis
    unfolding cons Let_def
    using upd_reaches_idle [of "race_step (CallUpdate n) s" es, unfolded left]
      del_reaches_end [of "race_step (CallDelete n) s" es, unfolded left]
      read_reaches_idle [of "race_step CallRange s" es, unfolded left] by blast
qed

text \<open>
  Four steps of its own let a call end that adds a node to the empty list, while the other
  two goroutines are at work.
\<close>

theorem registry_calls_end_witness:
  "\<exists>k \<le> 9. upd (run_race (CallUpdate ''n1'' # take k
      [UpdateStep 0, CallDelete ''n1'', UpdateStep 0, DeleteStep 0, CallRange, UpdateStep 0, RangeStep, UpdateStep 0, UpdateStep 0])
      (race_start new_registry)) = UpdIdle"
proof -
  have idle: "upd (race_start new_registry) = UpdIdle" "del (race_start new_registry) = DelIdle"
    "rd (race_start new_registry) = ReadIdle" "snd (nodes (shared (race_start new_registry))) = 0"
    by (simp_all add: race_start_def new_registry_def alloc_def)
  let ?es = "[UpdateStep 0, CallDelete ''n1'', UpdateStep 0, DeleteStep 0, CallRange, UpdateStep 0, RangeStep,
      UpdateStep 0, UpdateStep 0]"
  from registry_calls_end [OF idle(1-3), of ?es "''n1''", unfolded Let_def idle(4), THEN conjunct1]
  have "\<exists>k \<le> length ?es. upd (run_race (CallUpdate ''n1'' # take k ?es) (race_start new_registry)) = UpdIdle"
    by (rule mp) simp
  moreover have "length ?es = 9" by simp
  ultimately show ?thesis by (simp only:)
qed

text \<open>The calls of a schedule, in the order they start.\<close>

fun calls :: "event list \<Rightarrow> registry_op list" where
  "calls [] = []"
| "calls (CallUpdate n # es) = AddNode n # calls es"
| "calls (CallDelete n # es) = DelNode n # calls es"
| "calls (_ # es) = calls es"

lemma calls_append [simp]: "calls (xs @ ys) = calls xs @ calls ys"
  by (induction xs rule: calls.induct) simp_all

lemma calls_steps [simp]:
  "calls (replicate k (UpdateStep g)) = []" "calls (replicate k (DeleteStep g)) = []"
  by (induction k) simp_all

lemma run_race_append: "run_race (xs @ ys) s = run_race ys (run_race xs s)"
  by (simp add: run_race_def)

section \<open>Overlapping calls\<close>

lemma del_skip:
  assumes "\<And>j. i \<le> j \<Longrightarrow> j < i + k \<Longrightarrow> j < len \<and> array m a ! j \<noteq> n"
  shows "del_steps g k (DelScan n (a, len) i, m) = (DelScan n (a, len) (i + k), m)"
  using assms
proof (induction k arbitrary: i)
  case (Suc k)
  from Suc.prems [of i] have "i < len" "array m a ! i \<noteq> n" by simp_all
  moreover have "del_steps g k (DelScan n (a, len) (Suc i), m) = (DelScan n (a, len) (Suc i + k), m)"
    by (rule Suc.IH) (rule Suc.prems, auto)
  ultimately show ?case by simp
qed simp

text \<open>A deletion up to the store of its header, and from there to its end.\<close>

lemma del_until_store:
  assumes "nodes m = (a, Suc (length us + length vs))" "array m a = us @ n # vs @ ex" "n \<notin> set us"
  shows "del_steps g (length us + 4) (DelScan n (nodes m) 0, m) =
    (DelStore n (nodes m) (length us) (a, length us + length vs),
     m\<lparr>mem := store a (us @ vs @ last (n # vs) # ex) (mem m)\<rparr>)"
proof -
  let ?h = "(a, Suc (length us + length vs))"
  have "del_steps g (length us) (DelScan n ?h 0, m) = (DelScan n ?h (0 + length us), m)"
    by (rule del_skip) (use assms(2,3) in \<open>auto simp: nth_append in_set_conv_nth\<close>)
  then have "del_steps g (length us + 4) (DelScan n ?h 0, m) = del_steps g 4 (DelScan n ?h (length us), m)"
    unfolding del_steps_add by simp
  also have "\<dots> = del_step g (DelMove n ?h (length us) a ?h) m"
    using assms(1,2) by (simp add: eval_nat_numeral nth_append)
  also have "\<dots> = (DelStore n ?h (length us) (a, length us + length vs),
      m\<lparr>mem := store a (us @ vs @ last (n # vs) # ex) (mem m)\<rparr>)"
  proof -
    have "drop (length us + length vs) (us @ n # vs @ ex) = last (n # vs) # ex"
      by (cases vs rule: rev_cases) simp_all
    then show ?thesis by (simp add: assms(2) Let_def)
  qed
  finally show ?thesis using assms(1) by simp
qed

lemma del_from_store:
  assumes "take (length us + Suc (length vs)) (array m a) = us @ vs @ [z]" "n \<notin> set vs"
    and "vs \<noteq> [] \<longrightarrow> z \<in> set vs"
  shows "del_steps g (length vs + 2) (DelStore n (a, Suc (length us + length vs)) (length us) h', m) =
    (DelIdle, m\<lparr>nodes := h'\<rparr>)"
proof -
  let ?h = "(a, Suc (length us + length vs))"
  have cell: "array m a ! j \<noteq> n" if "Suc (length us) \<le> j" "j < Suc (length us) + length vs" for j
  proof -
    have "array m a ! j = take (length us + Suc (length vs)) (array m a) ! j" using that by simp
    also have "\<dots> = (vs @ [z]) ! (j - length us)" unfolding assms(1) using that by (simp add: nth_append)
    also have "\<dots> \<in> set vs"
      using that assms(3) by (cases "j - length us < length vs") (auto simp: nth_append)
    finally show ?thesis using assms(2) by auto
  qed
  have "del_steps g (length vs + 2) (DelStore n ?h (length us) h', m) =
      del_steps g (length vs + 1) (DelScan n ?h (Suc (length us)), m\<lparr>nodes := h'\<rparr>)"
    by simp
  also have "\<dots> = del_steps g 1 (DelScan n ?h (Suc (length us) + length vs), m\<lparr>nodes := h'\<rparr>)"
    unfolding del_steps_add by (subst del_skip) (use cell in auto)
  finally show ?thesis by simp
qed

lemma del_alone:
  assumes "nodes m = (a, Suc (length us + length vs))" "array m a = us @ n # vs @ ex" "n \<notin> set us" "n \<notin> set vs"
  shows "del_steps g (length us + 4 + (length vs + 2)) (DelScan n (nodes m) 0, m) =
    (DelIdle, m\<lparr>mem := store a (us @ vs @ last (n # vs) # ex) (mem m), nodes := (a, length us + length vs)\<rparr>)"
proof -
  let ?m = "m\<lparr>mem := store a (us @ vs @ last (n # vs) # ex) (mem m)\<rparr>"
  have "del_steps g (length vs + 2) (DelStore n (a, Suc (length us + length vs)) (length us) (a, length us + length vs), ?m) =
      (DelIdle, ?m\<lparr>nodes := (a, length us + length vs)\<rparr>)"
    by (rule del_from_store) (use assms(4) in auto)
  with del_until_store [OF assms(1-3), of g] assms(1) show ?thesis
    by (simp only: del_steps_add [of g "length us + 4"])
qed

text \<open>The append of an addition, which leaves the cells below its length, in every array, as they are.\<close>

lemma upd_append_keeps:
  assumes "hdr_ok m (nodes m)"
  shows "\<exists>m'. upd_steps g 3 (UpdLoad n, m) = (UpdIdle, m') \<and>
    take (snd (nodes m)) (array m' (fst (nodes m))) = node_list m"
proof -
  obtain a len where h: "nodes m = (a, len)" by force
  have len: "len \<le> length (array m a)" "a < limit (mem m)" using assms h by (simp_all add: hdr_ok_def)
  obtain b hp where b: "alloc (take len (array m a) @ n # replicate g []) (mem m) = (b, hp)" by force
  have bl: "b = limit (mem m)" using b by (simp add: alloc_def)
  show ?thesis
    using h len b bl array_alloc [OF b] by (auto simp: numeral_3_eq_3 node_list_def)
qed

text \<open>The states of a run with no range loop, and the steps of one of the two calls.\<close>

definition two_calls :: "registry_mem \<Rightarrow> upd_pc \<Rightarrow> del_pc \<Rightarrow> race_state" where
  "two_calls m u d = \<lparr>shared = m, upd = u, del = d, rd = ReadIdle, seen = []\<rparr>"

lemma two_calls_simps [simp]:
  "shared (two_calls m u d) = m" "upd (two_calls m u d) = u" "del (two_calls m u d) = d"
  by (simp_all add: two_calls_def)

lemma two_calls_upd:
  "upd_steps g k (u, m) = (u', m') \<Longrightarrow> run_race (replicate k (UpdateStep g)) (two_calls m u d) = two_calls m' u' d"
  by (simp add: run_upd_steps two_calls_def)

lemma two_calls_del:
  "del_steps g k (d, m) = (d', m') \<Longrightarrow> run_race (replicate k (DeleteStep g)) (two_calls m u d) = two_calls m' u d'"
  by (simp add: run_del_steps two_calls_def)

text \<open>Both calls have loaded the header they range over.\<close>

definition both_called :: "string \<Rightarrow> string \<Rightarrow> registry_mem \<Rightarrow> race_state" where
  "both_called n a m = two_calls m (UpdScan n (nodes m) 0) (DelScan a (nodes m) 0)"

lemma run_both_called: "run_race [CallUpdate n, CallDelete a] (race_start m) = both_called n a m"
  by (simp add: run_race_def race_start_def both_called_def two_calls_def)

lemma addition_lost:
  assumes h: "nodes m = (p, Suc (length us + length vs))" "p < limit (mem m)"
    and cells: "array m p = us @ a # vs @ ex"
    and a: "a \<notin> set us" "a \<notin> set vs" and n: "n \<notin> set (us @ a # vs)"
  shows "\<exists>es. calls es = [] \<and> quiet (run_race es (both_called n a m)) \<and>
    node_list (shared (run_race es (both_called n a m))) = us @ vs"
proof -
  let ?len = "Suc (length us + length vs)"
  define m1 where "m1 = m\<lparr>mem := store p (us @ vs @ last (a # vs) # ex) (mem m)\<rparr>"
  have del1: "del_steps 0 (length us + 4) (DelScan a (p, ?len) 0, m) =
      (DelStore a (p, ?len) (length us) (p, length us + length vs), m1)"
    using del_until_store [OF h(1) cells a(1), of 0] by (simp add: m1_def h(1))
  have m1: "nodes m1 = (p, ?len)" "array m1 p = us @ vs @ last (a # vs) # ex" "hdr_ok m1 (nodes m1)"
    using h by (simp_all add: m1_def hdr_ok_def)
  have "last (a # vs) \<in> set (a # vs)" by (rule last_in_set) simp
  then have "n \<notin> set (take ?len (array m1 p))" using n by (auto simp: m1(2))
  then have upd1: "upd_steps 0 (Suc ?len) (UpdScan n (p, ?len) 0, m1) = (UpdLoad n, m1)"
    using m1 by (intro upd_scan_absent) (auto simp: hdr_ok_def)
  from upd_append_keeps [OF m1(3), of 0 n] obtain m2 where
    upd2: "upd_steps 0 3 (UpdLoad n, m1) = (UpdIdle, m2)"
    and m2: "take ?len (array m2 p) = us @ vs @ [last (a # vs)]"
    by (auto simp: m1(1,2) node_list_def)
  have del2: "del_steps 0 (length vs + 2) (DelStore a (p, ?len) (length us) (p, length us + length vs), m2) =
      (DelIdle, m2\<lparr>nodes := (p, length us + length vs)\<rparr>)"
    using m2 a(2) by (intro del_from_store) auto
  let ?es = "replicate (length us + 4) (DeleteStep 0) @ replicate (Suc ?len) (UpdateStep 0) @
    replicate 3 (UpdateStep 0) @ replicate (length vs + 2) (DeleteStep 0)"
  have "run_race ?es (both_called n a m) =
      two_calls (m2\<lparr>nodes := (p, length us + length vs)\<rparr>) UpdIdle DelIdle"
    by (simp only: run_race_append both_called_def two_calls_del [OF del1] h(1) two_calls_upd [OF upd1]
        two_calls_upd [OF upd2] two_calls_del [OF del2])
  moreover have "take (length us + length vs) (array m2 p) = us @ vs"
    using arg_cong [OF m2, of "take (length us + length vs)"] by (simp add: min_def)
  ultimately show ?thesis
    by (intro exI [of _ ?es]) (simp add: quiet_def node_list_def)
qed

lemma addition_overtaken:
  assumes h: "nodes m = (p, Suc (length us + length vs))" "p < limit (mem m)"
    and cells: "array m p = us @ a # vs @ ex"
    and a: "a \<notin> set us" "a \<notin> set vs" and n: "n \<notin> set (us @ a # vs)"
  shows "\<exists>es. calls es = [] \<and> quiet (run_race es (both_called n a m)) \<and>
    node_list (shared (run_race es (both_called n a m))) =
      (if ex = [] then us @ a # vs @ [n] else us @ vs @ [last (a # vs), n])"
proof -
  let ?len = "Suc (length us + length vs)"
  have ok: "hdr_ok m (nodes m)" using h cells by (simp add: hdr_ok_def)
  have upd1: "upd_steps 0 (Suc ?len) (UpdScan n (p, ?len) 0, m) = (UpdLoad n, m)"
    using h(1) cells n by (intro upd_scan_absent) auto
  obtain h' m1 where upd2: "upd_steps 0 2 (UpdLoad n, m) = (UpdStore h', m1)" and m1: "nodes m1 = (p, ?len)"
    and written: "if ex = [] then fst h' \<noteq> p \<and> array m1 p = us @ a # vs \<and> array m1 (fst h') = us @ a # vs @ [n]
      else fst h' = p \<and> array m1 p = us @ a # vs @ n # tl ex" and len: "snd h' = Suc ?len"
  proof (cases ex)
    case Nil
    obtain b hp where b: "alloc (take ?len (array m p) @ [n]) (mem m) = (b, hp)" by force
    have bl: "b = limit (mem m)" using b by (simp add: alloc_def)
    have "upd_steps 0 2 (UpdLoad n, m) = (UpdStore (b, Suc ?len), m\<lparr>mem := hp\<rparr>)"
      using h(1) cells b Nil by (simp add: numeral_2_eq_2)
    then show thesis
      by (rule that) (use h cells bl Nil array_alloc [OF b] in \<open>auto\<close>)
  next
    case (Cons x xs)
    have upd: "(us @ a # vs @ ex)[?len := n] = us @ a # vs @ n # xs"
      by (simp add: Cons list_update_append)
    have "upd_steps 0 2 (UpdLoad n, m) =
        (UpdStore (p, Suc ?len), m\<lparr>mem := store p ((us @ a # vs @ ex)[?len := n]) (mem m)\<rparr>)"
      using h(1) cells Cons by (simp add: numeral_2_eq_2)
    then show thesis
      by (rule that) (use h Cons upd in \<open>auto\<close>)
  qed
  define ex' where "ex' = (if ex = [] then [] else n # tl ex)"
  have cells1: "array m1 p = us @ a # vs @ ex'" using written by (simp add: ex'_def split: if_splits)
  define m2 where "m2 = m1\<lparr>mem := store p (us @ vs @ last (a # vs) # ex') (mem m1), nodes := (p, length us + length vs)\<rparr>"
  have del1: "del_steps 0 (length us + 4 + (length vs + 2)) (DelScan a (p, ?len) 0, m1) = (DelIdle, m2)"
    using del_alone [OF m1 cells1 a, of 0] m1 by (simp add: m2_def)
  have upd3: "upd_steps 0 1 (UpdStore h', m2) = (UpdIdle, m2\<lparr>nodes := h'\<rparr>)" by simp
  let ?es = "replicate (Suc ?len) (UpdateStep 0) @ replicate 2 (UpdateStep 0) @
    replicate (length us + 4 + (length vs + 2)) (DeleteStep 0) @ replicate 1 (UpdateStep 0)"
  have "run_race ?es (both_called n a m) =
      two_calls (m2\<lparr>nodes := h'\<rparr>) UpdIdle DelIdle"
    by (simp only: run_race_append both_called_def h(1) two_calls_upd [OF upd1] two_calls_upd [OF upd2]
        two_calls_del [OF del1] two_calls_upd [OF upd3])
  moreover have "node_list (m2\<lparr>nodes := h'\<rparr>) =
      (if ex = [] then us @ a # vs @ [n] else us @ vs @ [last (a # vs), n])"
    using written len by (cases h') (auto simp: node_list_def m2_def ex'_def split: if_splits)
  ultimately show ?thesis
    by (intro exI [of _ ?es]) (simp add: quiet_def)
qed

text \<open>A deletion that nothing interrupts, from any state with no call under way.\<close>

lemma quiet_delete:
  assumes "quiet s" "hdr_ok (shared s) (nodes (shared s))"
  shows "\<exists>k. let t = run_race (CallDelete n # replicate k (DeleteStep 0)) s in
    case DeleteRmdNodeData n \<lparr>RmdNodeList = node_list (shared s)\<rparr> of
      None \<Rightarrow> del t = DelPanic
    | Some nd \<Rightarrow> quiet t \<and> node_list (shared t) = RmdNodeList nd"
proof -
  have start: "run_race (CallDelete n # es) s = run_race es (s\<lparr>del := DelScan n (nodes (shared s)) 0\<rparr>)" for es
    using assms(1) by (simp add: run_race_def quiet_def)
  obtain k m' where "del_steps 0 k (DelScan n (nodes (shared s)) 0, shared s) =
      ((if DeleteRmdNodeData n \<lparr>RmdNodeList = node_list (shared s)\<rparr> = None then DelPanic else DelIdle), m')"
    "\<forall>nd. DeleteRmdNodeData n \<lparr>RmdNodeList = node_list (shared s)\<rparr> = Some nd \<longrightarrow> node_list m' = RmdNodeList nd"
    using solo_delete [OF assms(2), of 0 n] by blast
  then show ?thesis
    using assms(1) by (intro exI [of _ k], unfold start run_del_steps) (auto simp: quiet_def split: option.splits)
qed

lemma duplicate_panics:
  assumes "mem_ok UNIV m" "quiet (run_race es (race_start m))"
    and list: "node_list (shared (run_race es (race_start m))) = xs @ [z, n]" and "n \<notin> set (xs @ [z])" "z \<in> set xs"
  shows "\<exists>more. calls more = [DelNode n, DelNode z] \<and> del (run_race (es @ more) (race_start m)) = DelPanic"
proof -
  have ok: "hdr_ok (shared (run_race es' (race_start m))) (nodes (shared (run_race es' (race_start m))))" for es'
  proof -
    have "race_ok UNIV (race_start m)" using assms(1) by (simp add: race_ok_def race_start_def)
    then have "race_ok UNIV (run_race es' (race_start m))" by (rule race_ok_run) simp_all
    then show ?thesis by (simp add: race_ok_def mem_ok_def)
  qed
  have first: "DeleteRmdNodeData n \<lparr>RmdNodeList = (xs @ [z]) @ [n]\<rparr> = Some \<lparr>RmdNodeList = xs @ [z]\<rparr>"
    using assms(4) DeleteRmdNodeData_once [of "\<lparr>RmdNodeList = (xs @ [z]) @ [n]\<rparr>" "xs @ [z]" n "[]"] by simp
  from quiet_delete [OF assms(2) ok, of n] obtain k where
    k: "quiet (run_race (es @ CallDelete n # replicate k (DeleteStep 0)) (race_start m))"
      "node_list (shared (run_race (es @ CallDelete n # replicate k (DeleteStep 0)) (race_start m))) = xs @ [z]"
    using first by (auto simp: Let_def list run_race_append)
  have "DeleteRmdNodeData z \<lparr>RmdNodeList = xs @ [z]\<rparr> = None"
    using assms(5) by (auto simp: DeleteRmdNodeData_None_iff)
  with quiet_delete [OF k(1) ok, of z] k(2) obtain j where
    "del (run_race (CallDelete z # replicate j (DeleteStep 0))
       (run_race (es @ CallDelete n # replicate k (DeleteStep 0)) (race_start m))) = DelPanic"
    by (auto simp: Let_def)
  then show ?thesis
    by (intro exI [of _ "(CallDelete n # replicate k (DeleteStep 0)) @ (CallDelete z # replicate j (DeleteStep 0))"] conjI)
      (simp, simp only: run_race_append)
qed

text \<open>
  (C14) The operations of the registry are not atomic, whatever it holds. Let one call add a node
  that is not in the registry while another deletes one that is, in any array: one after the
  other they leave the same list in either order. Some schedule in which both calls end loses
  the addition. Another loses the deletion, if the array is full; with spare capacity it leaves
  the last name once more before the added node, or, if the deleted name is the last, it is the
  deletion that is lost. After a duplicate the operator panics: of two further deletions,
  which nothing interrupts, the second slices out of range.
\<close>

theorem registry_calls_race:
  assumes ok: "mem_ok UNIV m" and list: "distinct (node_list m)" "a \<in> set (node_list m)" "n \<notin> set (node_list m)"
  shows "let xs = node_list m; z = last xs; spare = snd (nodes m) < length (array m (fst (nodes m)));
      both = [CallUpdate n, CallDelete a] in
    fold spec_op [AddNode n, DelNode a] xs = remove1 a xs @ [n] \<and>
    fold spec_op [DelNode a, AddNode n] xs = remove1 a xs @ [n] \<and>
    (\<exists>es. calls es = [] \<and> (let s = run_race (both @ es) (race_start m) in
       quiet s \<and> node_list (shared s) = remove1 a xs)) \<and>
    (\<exists>es. calls es = [] \<and> (let s = run_race (both @ es) (race_start m) in
       quiet s \<and> node_list (shared s) = (if spare then remove1 a xs @ [z, n] else xs @ [n]) \<and>
       (spare \<and> a \<noteq> z \<longrightarrow> \<not> distinct (node_list (shared s)) \<and>
          (\<exists>more. calls more = [DelNode n, DelNode z] \<and> del (run_race (both @ es @ more) (race_start m)) = DelPanic))))"
proof -
  obtain p len where h: "nodes m = (p, len)" by force
  have inside: "p < limit (mem m)" "len \<le> length (array m p)" using ok h by (simp_all add: mem_ok_def hdr_ok_def)
  define ex where "ex = drop len (array m p)"
  have cells: "array m p = node_list m @ ex" and length: "length (node_list m) = len"
    using inside(2) h by (simp_all add: node_list_def ex_def)
  from list(2) obtain us vs where xs: "node_list m = us @ a # vs" and us: "a \<notin> set us" by (meson split_list_first)
  have vs: "a \<notin> set vs" and n: "n \<notin> set (us @ a # vs)" and dist: "distinct (us @ vs)"
    using list(1,3) xs by auto
  have h': "nodes m = (p, Suc (length us + length vs))" using h length by (simp add: xs)
  have cells': "array m p = us @ a # vs @ ex" using cells by (simp add: xs)
  have spare: "snd (nodes m) < length (array m (fst (nodes m))) \<longleftrightarrow> ex \<noteq> []"
    using h length cells by simp
  have rem: "remove1 a (us @ a # vs) = us @ vs" using us by (simp add: remove1_append)
  have both: "run_race ([CallUpdate n, CallDelete a] @ es) (race_start m) = run_race es (both_called n a m)" for es
    unfolding run_race_append run_both_called ..
  have lost: "\<exists>es. calls es = [] \<and> (let s = run_race ([CallUpdate n, CallDelete a] @ es) (race_start m) in
      quiet s \<and> node_list (shared s) = us @ vs)"
    using addition_lost [OF h' inside(1) cells' us vs n] unfolding both Let_def by blast
  from addition_overtaken [OF h' inside(1) cells' us vs n] obtain es where es: "calls es = []"
    "quiet (run_race ([CallUpdate n, CallDelete a] @ es) (race_start m))"
    "node_list (shared (run_race ([CallUpdate n, CallDelete a] @ es) (race_start m))) =
      (if ex = [] then us @ a # vs @ [n] else us @ vs @ [last (a # vs), n])" unfolding both by blast
  have dup: "\<not> distinct (us @ vs @ [last (a # vs), n]) \<and> (\<exists>more. calls more = [DelNode n, DelNode (last (a # vs))] \<and>
      del (run_race (([CallUpdate n, CallDelete a] @ es) @ more) (race_start m)) = DelPanic)"
    if "ex \<noteq> []" "a \<noteq> last (a # vs)"
  proof
    from that(2) have "vs \<noteq> []" "last (a # vs) \<in> set vs" by auto
    then show "\<not> distinct (us @ vs @ [last (a # vs), n])" by auto
    have "n \<notin> set ((us @ vs) @ [last (a # vs)])" using n \<open>last (a # vs) \<in> set vs\<close> by auto
    from duplicate_panics [OF ok es(2) _ this] es(3) that(1) \<open>last (a # vs) \<in> set vs\<close>
    show "\<exists>more. calls more = [DelNode n, DelNode (last (a # vs))] \<and>
      del (run_race (([CallUpdate n, CallDelete a] @ es) @ more) (race_start m)) = DelPanic" by auto
  qed
  have last: "last (us @ a # vs) = last (a # vs)" by simp
  have spec: "fold spec_op [AddNode n, DelNode a] (us @ a # vs) = us @ vs @ [n]"
    "fold spec_op [DelNode a, AddNode n] (us @ a # vs) = us @ vs @ [n]"
    using us n by (auto simp: remove1_append)
  show ?thesis
    unfolding Let_def spare xs rem last
  proof (intro conjI)
    show "\<exists>es. calls es = [] \<and> quiet (run_race ([CallUpdate n, CallDelete a] @ es) (race_start m)) \<and>
        node_list (shared (run_race ([CallUpdate n, CallDelete a] @ es) (race_start m))) = us @ vs"
      using lost unfolding Let_def .
  next
    show "\<exists>es. calls es = [] \<and> quiet (run_race ([CallUpdate n, CallDelete a] @ es) (race_start m)) \<and>
        node_list (shared (run_race ([CallUpdate n, CallDelete a] @ es) (race_start m))) =
          (if ex \<noteq> [] then (us @ vs) @ [last (a # vs), n] else (us @ a # vs) @ [n]) \<and>
        (ex \<noteq> [] \<and> a \<noteq> last (a # vs) \<longrightarrow>
          \<not> distinct (node_list (shared (run_race ([CallUpdate n, CallDelete a] @ es) (race_start m)))) \<and>
          (\<exists>more. calls more = [DelNode n, DelNode (last (a # vs))] \<and>
             del (run_race ([CallUpdate n, CallDelete a] @ es @ more) (race_start m)) = DelPanic))"
      using es dup by (intro exI [of _ es]) auto
  qed (use spec in simp_all)
qed

text \<open>Two nodes added one after the other lie in a full array; a third one brings spare capacity.\<close>

definition three_nodes :: registry_mem where
  "three_nodes = shared (run_race (CallUpdate ''a'' # replicate 4 (UpdateStep 0) @
     CallUpdate ''b'' # replicate 5 (UpdateStep 0) @ CallUpdate ''c'' # replicate 6 (UpdateStep 1))
     (race_start new_registry))"

theorem registry_calls_race_witness:
  "\<exists>es. let s = run_race ([CallUpdate ''n'', CallDelete ''a''] @ es) (race_start three_nodes) in
     quiet s \<and> node_list (shared s) = [''b'', ''c'', ''c'', ''n'']"
proof -
  have "race_ok UNIV (run_race es (race_start new_registry))" for es
    by (rule race_ok_run) (use new_registry_ok [of UNIV] in simp_all)
  then have ok: "mem_ok UNIV three_nodes" unfolding three_nodes_def race_ok_def by blast
  have eval: "node_list three_nodes = [''a'', ''b'', ''c'']"
    "snd (nodes three_nodes) < length (array three_nodes (fst (nodes three_nodes)))" by code_simp+
  from registry_calls_race [OF ok, of "''a''" "''n''", unfolded eval(1) Let_def, THEN conjunct2, THEN conjunct2, THEN conjunct2]
    eval(2) show ?thesis unfolding Let_def by auto
qed

end
