(* ===== verification/Scheme.thy ===== *)
theory Scheme
  imports Go_Base
begin

text \<open>
  The registration of the API types: the \<open>init\<close> functions of
  \<open>pkg/apis/intel/v1alpha1/rmd*_types.go\<close>, \<open>register.go\<close>, \<open>pkg/apis/apis.go\<close> and
  \<open>pkg/apis/addtoscheme_intel_v1alpha1.go\<close>. The builders of controller-runtime (\<open>'b\<close>) and of
  apimachinery and the scheme (\<open>'s\<close>) are third-party code and arguments.
\<close>

type_synonym 's add_func = "'s \<Rightarrow> gerr option \<times> 's"

record ('b, 's) scheme_api =
  newBuilder :: "string \<Rightarrow> string \<Rightarrow> 'b"
  builderRegister :: "'b \<Rightarrow> string list \<Rightarrow> 'b"
  builderAddToScheme :: "'b \<Rightarrow> 's add_func"
  addAll :: "'s add_func list \<Rightarrow> 's add_func"

definition SchemeBuilder :: "('b, 's) scheme_api \<Rightarrow> 'b" where
  "SchemeBuilder api = newBuilder api ''intel.com'' ''v1alpha1''"

text \<open>Go runs the \<open>init\<close> functions of a package in the order of the names of their files.\<close>

definition init_rmdconfig :: "('b, 's) scheme_api \<Rightarrow> 'b \<Rightarrow> 'b" where
  "init_rmdconfig api b = builderRegister api b [''RmdConfig'', ''RmdConfigList'']"

definition init_rmdnodestate :: "('b, 's) scheme_api \<Rightarrow> 'b \<Rightarrow> 'b" where
  "init_rmdnodestate api b = builderRegister api b [''RmdNodeState'', ''RmdNodeStateList'']"

definition init_rmdworkload :: "('b, 's) scheme_api \<Rightarrow> 'b \<Rightarrow> 'b" where
  "init_rmdworkload api b = builderRegister api b [''RmdWorkload'', ''RmdWorkloadList'']"

definition init_v1alpha1 :: "('b, 's) scheme_api \<Rightarrow> 'b" where
  "init_v1alpha1 api =
     init_rmdworkload api (init_rmdnodestate api (init_rmdconfig api (SchemeBuilder api)))"

definition init_apis :: "('b, 's) scheme_api \<Rightarrow> 's add_func list \<Rightarrow> 's add_func list" where
  "init_apis api AddToSchemes = AddToSchemes @ [builderAddToScheme api (init_v1alpha1 api)]"

definition AddToScheme :: "('b, 's) scheme_api \<Rightarrow> 's add_func" where
  "AddToScheme api s = addAll api (init_apis api []) s"

text \<open>
  The documented behaviour of the builders: a builder adds what was registered with it, under
  its group and version, to the kinds the scheme knows, or fails; a list of one function runs
  that function.
\<close>

definition kinds :: "string \<times> string \<Rightarrow> string list \<Rightarrow> ((string \<times> string) \<times> string) set" where
  "kinds gv ts = Pair gv ` set ts"

definition builder_laws ::
  "('b, 's) scheme_api \<Rightarrow> ('b \<Rightarrow> (string \<times> string) \<times> ((string \<times> string) \<times> string) set)
    \<Rightarrow> ('s \<Rightarrow> ((string \<times> string) \<times> string) set) \<Rightarrow> bool"
where
  "builder_laws api content known \<longleftrightarrow>
     (\<forall>g v. content (newBuilder api g v) = ((g, v), {}))
     \<and> (\<forall>b ts. content (builderRegister api b ts)
          = (fst (content b), snd (content b) \<union> kinds (fst (content b)) ts))
     \<and> (\<forall>b s s'. builderAddToScheme api b s = (None, s') \<longrightarrow> known s' = known s \<union> snd (content b))
     \<and> (\<forall>f s. addAll api [f] s = f s)"

text \<open>The types the \<open>init\<close> functions register: the three kinds the controllers watch, and their lists.\<close>

definition api_types :: "string list" where
  "api_types = [''RmdConfig'', ''RmdConfigList'', ''RmdNodeState'', ''RmdNodeStateList'',
                ''RmdWorkload'', ''RmdWorkloadList'']"

lemma init_v1alpha1_content:
  assumes "builder_laws api content known"
  shows "content (init_v1alpha1 api) = ((''intel.com'', ''v1alpha1''), kinds (''intel.com'', ''v1alpha1'') api_types)"
proof -
  have new: "content (newBuilder api g v) = ((g, v), {})" for g v
    using assms by (simp add: builder_laws_def)
  have reg: "content (builderRegister api b ts) = (fst (content b), snd (content b) \<union> kinds (fst (content b)) ts)"
    for b ts using assms by (simp add: builder_laws_def)
  have types: "kinds gv api_types = kinds gv [''RmdConfig'', ''RmdConfigList'']
      \<union> (kinds gv [''RmdNodeState'', ''RmdNodeStateList''] \<union> kinds gv [''RmdWorkload'', ''RmdWorkloadList''])"
    for gv by (simp only: kinds_def api_types_def image_Un [symmetric] set_append [symmetric] append.simps)
  show ?thesis
    by (simp only: init_v1alpha1_def init_rmdworkload_def init_rmdnodestate_def init_rmdconfig_def
        SchemeBuilder_def reg new types fst_conv snd_conv Un_empty_left Un_assoc)
qed

text \<open>
  When \<open>AddToScheme\<close> succeeds, the scheme knows all types of the API in addition to what it
  knew.
\<close>

theorem AddToScheme_all_kinds:
  assumes "builder_laws api content known" and "AddToScheme api s = (None, s')"
  shows "known s' = known s \<union> kinds (''intel.com'', ''v1alpha1'') api_types"
proof -
  have "builderAddToScheme api (init_v1alpha1 api) s = (None, s')"
    using assms by (simp add: AddToScheme_def init_apis_def builder_laws_def)
  then have "known s' = known s \<union> snd (content (init_v1alpha1 api))"
    using assms(1) unfolding builder_laws_def by blast
  then show ?thesis by (simp only: init_v1alpha1_content [OF assms(1)] snd_conv)
qed

text \<open>Builders and schemes as plain sets of kinds.\<close>

definition set_api ::
  "((string \<times> string) \<times> ((string \<times> string) \<times> string) set, ((string \<times> string) \<times> string) set) scheme_api"
where
  "set_api =
     \<lparr>newBuilder = (\<lambda>g v. ((g, v), {})),
      builderRegister = (\<lambda>b ts. (fst b, snd b \<union> kinds (fst b) ts)),
      builderAddToScheme = (\<lambda>b s. (None, s \<union> snd b)),
      addAll = (\<lambda>fs s. fold (\<lambda>f r. case r of (None, s) \<Rightarrow> f s | (Some e, s) \<Rightarrow> r) fs (None, s))\<rparr>"

theorem AddToScheme_all_kinds_witness:
  "snd (AddToScheme set_api {}) = kinds (''intel.com'', ''v1alpha1'') api_types"
proof -
  have laws: "builder_laws set_api (\<lambda>b. b) (\<lambda>s. s)" by (simp add: builder_laws_def set_api_def)
  have "fst (AddToScheme set_api {}) = None" by (simp add: AddToScheme_def init_apis_def set_api_def)
  then have "AddToScheme set_api {} = (None, snd (AddToScheme set_api {}))"
    by (metis prod.collapse)
  from AddToScheme_all_kinds [OF laws this] show ?thesis by simp
qed

end
