(* ===== verification/Test_Vectors.thy ===== *)
theory Test_Vectors
  imports Reference_Env
begin

text \<open>
  The test vectors of the RMD client, \<open>pkg/rmd/test_cases.go\<close>: nine workloads and the nine
  requests they should be translated to, and the host they are translated on. The model of
  \<open>formatWorkload\<close> is run on them.
\<close>

section \<open>The expected requests\<close>

text \<open>
  The ratio is the float 1.5. The source gives workload 6 the plugin map of workload 5 and
  sets the mode again in it, to the same value.
\<close>

definition test_plugins :: plugins where
  "test_plugins =
     [(''pstate'', [(''ratio'', JNum (FFin False 6755399441055744 (-52))), (''monitoring'', JStr ''on'')])]"

definition rdt_case_1 :: RDTWorkLoad where
  "rdt_case_1 = zero_RDTWorkLoad
     \<lparr>UUID := ''rmd-workload-pod-1'', rdtCacheMax := Some 2, rdtCacheMin := Some 2\<rparr>"

definition rdt_case_2 :: RDTWorkLoad where
  "rdt_case_2 = zero_RDTWorkLoad
     \<lparr>UUID := ''rmd-workload-pod-2'', rdtCacheMax := Some 2, rdtCacheMin := Some 1,
      rdtPercentage := Some 50\<rparr>"

definition rdt_case_3 :: RDTWorkLoad where
  "rdt_case_3 = zero_RDTWorkLoad
     \<lparr>UUID := ''rmd-workload-pod-3'', rdtCacheMax := Some 1, rdtCacheMin := Some 1,
      rdtMbps := Some 100\<rparr>"

definition rdt_case_4 :: RDTWorkLoad where
  "rdt_case_4 = zero_RDTWorkLoad
     \<lparr>UUID := ''rmd-workload-pod-4'', rdtCacheMax := Some 2, rdtCacheMin := Some 2,
      rdtPercentage := Some 50, rdtMbps := Some 100, rdtPlugins := test_plugins\<rparr>"

definition rdt_case_5 :: RDTWorkLoad where
  "rdt_case_5 = zero_RDTWorkLoad
     \<lparr>UUID := ''rmd-workload-pod-5'', CoreIDs := [''0'', ''20''], rdtPolicy := ''gold'',
      rdtCacheMax := Some 2, rdtCacheMin := Some 2, rdtPercentage := Some 25,
      rdtMbps := Some 150, rdtPlugins := test_plugins\<rparr>"

definition rdt_case_6 :: RDTWorkLoad where
  "rdt_case_6 = zero_RDTWorkLoad
     \<lparr>UUID := ''rmd-workload-pod-6'', CoreIDs := [''0-95''], rdtPolicy := ''gold'',
      rdtCacheMax := Some 2, rdtCacheMin := Some 2, rdtPercentage := Some 25,
      rdtMbps := Some 150, rdtPlugins := test_plugins\<rparr>"

definition rdt_case_7 :: RDTWorkLoad where
  "rdt_case_7 = zero_RDTWorkLoad
     \<lparr>UUID := ''rmd-workload-pod-7'', CoreIDs := [''0-95''], rdtPolicy := ''gold'',
      rdtCacheMax := Some 2, rdtCacheMin := Some 2, rdtPercentage := Some 25,
      rdtMbps := Some 150, rdtPlugins := test_plugins\<rparr>"

definition rdt_case_8 :: RDTWorkLoad where
  "rdt_case_8 = zero_RDTWorkLoad
     \<lparr>UUID := ''rmd-workload-pod-8'', CoreIDs := [''10-95''], rdtPolicy := ''gold'',
      rdtCacheMax := Some 2, rdtCacheMin := Some 2, rdtPercentage := Some 25,
      rdtMbps := Some 150, rdtPlugins := test_plugins\<rparr>"

definition rdt_case_9 :: RDTWorkLoad where
  "rdt_case_9 = zero_RDTWorkLoad
     \<lparr>UUID := ''rmd-workload-pod-9'', CoreIDs := [''0,3,8-95''], rdtPolicy := ''gold'',
      rdtCacheMax := Some 2, rdtCacheMin := Some 2, rdtPercentage := Some 25,
      rdtMbps := Some 150, rdtPlugins := test_plugins\<rparr>"

definition rdtWorkLoadTestCases :: "RDTWorkLoad list" where
  "rdtWorkLoadTestCases =
     [rdt_case_1, rdt_case_2, rdt_case_3, rdt_case_4, rdt_case_5, rdt_case_6, rdt_case_7, rdt_case_8, rdt_case_9]"

section \<open>The workloads\<close>

definition rmd_case_1 :: RmdWorkload where
  "rmd_case_1 = zero_RmdWorkload
     \<lparr>wlName := ''rmd-workload-pod-1'',
      wlSpec := (wlSpec zero_RmdWorkload)
        \<lparr>specRdt := \<lparr>rdtCache = \<lparr>cacheMax = 2, cacheMin = 2\<rparr>, rdtMba = \<lparr>Percentage = 0, Mbps = 0\<rparr>\<rparr>\<rparr>\<rparr>"

definition rmd_case_2 :: RmdWorkload where
  "rmd_case_2 = zero_RmdWorkload
     \<lparr>wlName := ''rmd-workload-pod-2'',
      wlSpec := (wlSpec zero_RmdWorkload)
        \<lparr>specRdt := \<lparr>rdtCache = \<lparr>cacheMax = 2, cacheMin = 1\<rparr>, rdtMba = \<lparr>Percentage = 50, Mbps = 0\<rparr>\<rparr>\<rparr>\<rparr>"

definition rmd_case_3 :: RmdWorkload where
  "rmd_case_3 = zero_RmdWorkload
     \<lparr>wlName := ''rmd-workload-pod-3'',
      wlSpec := (wlSpec zero_RmdWorkload)
        \<lparr>specRdt := \<lparr>rdtCache = \<lparr>cacheMax = 1, cacheMin = 1\<rparr>, rdtMba = \<lparr>Percentage = 0, Mbps = 100\<rparr>\<rparr>\<rparr>\<rparr>"

definition rmd_case_4 :: RmdWorkload where
  "rmd_case_4 = zero_RmdWorkload
     \<lparr>wlName := ''rmd-workload-pod-4'',
      wlSpec := (wlSpec zero_RmdWorkload)
        \<lparr>specRdt := \<lparr>rdtCache = \<lparr>cacheMax = 2, cacheMin = 2\<rparr>, rdtMba = \<lparr>Percentage = 50, Mbps = 100\<rparr>\<rparr>,
         specPlugins := \<lparr>pstate = \<lparr>Ratio = ''1.5'', Monitoring = ''on''\<rparr>\<rparr>\<rparr>\<rparr>"

definition rmd_case_5 :: RmdWorkload where
  "rmd_case_5 = zero_RmdWorkload
     \<lparr>wlName := ''rmd-workload-pod-5'',
      wlSpec := (wlSpec zero_RmdWorkload)
        \<lparr>CoreIds := [''0'', ''20''],
         Policy := ''gold'',
         specRdt := \<lparr>rdtCache = \<lparr>cacheMax = 2, cacheMin = 2\<rparr>, rdtMba = \<lparr>Percentage = 25, Mbps = 150\<rparr>\<rparr>,
         specPlugins := \<lparr>pstate = \<lparr>Ratio = ''1.5'', Monitoring = ''on''\<rparr>\<rparr>\<rparr>\<rparr>"

definition rmd_case_6 :: RmdWorkload where
  "rmd_case_6 = zero_RmdWorkload
     \<lparr>wlName := ''rmd-workload-pod-6'',
      wlSpec := (wlSpec zero_RmdWorkload)
        \<lparr>AllCores := True,
         Policy := ''gold'',
         specRdt := \<lparr>rdtCache = \<lparr>cacheMax = 2, cacheMin = 2\<rparr>, rdtMba = \<lparr>Percentage = 25, Mbps = 150\<rparr>\<rparr>,
         specPlugins := \<lparr>pstate = \<lparr>Ratio = ''1.5'', Monitoring = ''on''\<rparr>\<rparr>\<rparr>\<rparr>"

definition rmd_case_7 :: RmdWorkload where
  "rmd_case_7 = zero_RmdWorkload
     \<lparr>wlName := ''rmd-workload-pod-7'',
      wlSpec := (wlSpec zero_RmdWorkload)
        \<lparr>AllCores := True,
         CoreIds := [''1-2'', ''5'', ''11''],
         Policy := ''gold'',
         specRdt := \<lparr>rdtCache = \<lparr>cacheMax = 2, cacheMin = 2\<rparr>, rdtMba = \<lparr>Percentage = 25, Mbps = 150\<rparr>\<rparr>,
         specPlugins := \<lparr>pstate = \<lparr>Ratio = ''1.5'', Monitoring = ''on''\<rparr>\<rparr>\<rparr>\<rparr>"

definition rmd_case_8 :: RmdWorkload where
  "rmd_case_8 = zero_RmdWorkload
     \<lparr>wlName := ''rmd-workload-pod-8'',
      wlSpec := (wlSpec zero_RmdWorkload)
        \<lparr>AllCores := True,
         ReservedCoreIds := [''0-9''],
         Policy := ''gold'',
         specRdt := \<lparr>rdtCache = \<lparr>cacheMax = 2, cacheMin = 2\<rparr>, rdtMba = \<lparr>Percentage = 25, Mbps = 150\<rparr>\<rparr>,
         specPlugins := \<lparr>pstate = \<lparr>Ratio = ''1.5'', Monitoring = ''on''\<rparr>\<rparr>\<rparr>\<rparr>"

definition rmd_case_9 :: RmdWorkload where
  "rmd_case_9 = zero_RmdWorkload
     \<lparr>wlName := ''rmd-workload-pod-9'',
      wlSpec := (wlSpec zero_RmdWorkload)
        \<lparr>AllCores := True,
         ReservedCoreIds := [''1'', ''2'', ''4-7''],
         Policy := ''gold'',
         specRdt := \<lparr>rdtCache = \<lparr>cacheMax = 2, cacheMin = 2\<rparr>, rdtMba = \<lparr>Percentage = 25, Mbps = 150\<rparr>\<rparr>,
         specPlugins := \<lparr>pstate = \<lparr>Ratio = ''1.5'', Monitoring = ''on''\<rparr>\<rparr>\<rparr>\<rparr>"

definition rmdWorkloadTestCases :: "RmdWorkload list" where
  "rmdWorkloadTestCases =
     [rmd_case_1, rmd_case_2, rmd_case_3, rmd_case_4, rmd_case_5, rmd_case_6, rmd_case_7, rmd_case_8, rmd_case_9]"


section \<open>The host\<close>

text \<open>
  The host of the tests has two caches with 48 CPUs each. A \<open>CPUSet\<close> is written as ranges:
  \<open>Parse\<close> accepts numbers and ranges between commas, \<open>String\<close> prints the maximal runs.
\<close>

definition parse_range :: "string \<Rightarrow> gerr + int64 list" where
  "parse_range s =
     (let lo = takeWhile (\<lambda>c. c \<noteq> CHR ''-'') s; rest = dropWhile (\<lambda>c. c \<noteq> CHR ''-'') s in
      case (Atoi lo, Atoi (if rest = [] then lo else drop 1 rest)) of
        (Inr a, Inr b) \<Rightarrow> Inr (List.map word_of_int [sint a..sint b])
      | _ \<Rightarrow> Inl (GoError ''strconv.Atoi: parsing''))"

definition ranges_parse :: "string \<Rightarrow> gerr + int64 list" where
  "ranges_parse s =
     (if s = '''' then Inr []
      else case all_Inr (List.map parse_range (split_commas s)) of Inl e \<Rightarrow> Inl e | Inr xs \<Rightarrow> Inr (concat xs))"

fun runs :: "int \<Rightarrow> int \<Rightarrow> int list \<Rightarrow> (int \<times> int) list" where
  "runs lo hi [] = [(lo, hi)]"
| "runs lo hi (x # xs) = (if x \<le> hi + 1 then runs lo x xs else (lo, hi) # runs x x xs)"

definition ranges_string :: "int64 list \<Rightarrow> string" where
  "ranges_string xs =
     (case sort (List.map sint xs) of
        [] \<Rightarrow> ''''
      | y # ys \<Rightarrow> Join (List.map (\<lambda>(a, b). if a = b then show_int a else show_int a @ ''-'' @ show_int b)
                          (runs y y ys)) '','')"

definition test_env :: "int64 list env" where
  "test_env = ref_env
     \<lparr>http_get := \<lambda>h u. Inr '''',
      decode_infos := \<lambda>s. Inr
        [\<lparr>cacheNode = '''', ShareCPUList = ''0-23,48-71'', AvailableWays = '''', AvailableWaysPool = []\<rparr>,
         \<lparr>cacheNode = '''', ShareCPUList = ''24-47,72-95'', AvailableWays = '''', AvailableWaysPool = []\<rparr>],
      cpu_parse := ranges_parse,
      cpu_union := (\<lambda>a b. a @ b),
      cpu_difference := (\<lambda>a b. filter (\<lambda>x. x \<notin> set b) a),
      cpu_string := ranges_string\<rparr>"

section \<open>The model on the test vectors\<close>

lemma parse_1_5: "ParseFloat ''1.5'' = Inr (FFin False 6755399441055744 (- 52))"
proof -
  have s: "special_float ''1.5'' = None" by (simp add: special_float_def strip_sign_def lower_def)
  have b: "bitlen 15 = 4" "bitlen 10 = 4" by (simp_all add: bitlen.simps)
  have r: "round_ratio False 15 10 = Some (FFin False 6755399441055744 (- 52))"
    by (simp add: round_ratio_def ratio_log2_def b scaled_def div_half_even_def)
  have m: "scan_mantissa 10 ''1.5'' False False False 0 0 = (15, 1, True, False, [])"
    by (simp add: digit_value_def)
  have h: "is_hex_float ''1.5'' = False" by (simp add: is_hex_float_def lower_def)
  show ?thesis
    by (simp add: ParseFloat_def s strip_sign_def h m read_exponent_def r
        del: scan_mantissa.simps)
qed

lemma test_format_plugins:
  "format_plugins \<lparr>Ratio = ''1.5'', Monitoring = ''on''\<rparr> = Inr test_plugins"
  by (simp add: format_plugins_def parse_1_5 test_plugins_def)


definition cpus :: "int \<Rightarrow> int \<Rightarrow> int64 list" where
  "cpus a b = List.map word_of_int [a..b]"

definition reserved_cpus :: "int64 list" where
  "reserved_cpus = [1, 2] @ cpus 4 7"

lemma test_parse:
  "ranges_parse ''0-23,48-71'' = Inr (cpus 0 23 @ cpus 48 71)"
  "ranges_parse ''24-47,72-95'' = Inr (cpus 24 47 @ cpus 72 95)"
  "ranges_parse ''0-95'' = Inr (cpus 0 95)"
  "ranges_parse ''0-9'' = Inr (cpus 0 9)"
  "ranges_parse ''1,2,4-7'' = Inr reserved_cpus"
  by code_simp+

lemma test_string:
  "ranges_string ((cpus 0 23 @ cpus 48 71) @ (cpus 24 47 @ cpus 72 95)) = ''0-95''"
  "ranges_string (filter (\<lambda>x. x \<notin> set (cpus 0 9)) (cpus 0 95)) = ''10-95''"
  "ranges_string (filter (\<lambda>x. x \<notin> set reserved_cpus) (cpus 0 95)) = ''0,3,8-95''"
  by code_simp+

lemma test_all_cpus: "getAllCPUs test_env address h = (Inr ''0-95'', h @ [HttpGet (infos_url address)])"
  using test_string(1) by (simp add: getAllCPUs_def GetInfos_def test_env_def Let_def test_parse(1,2))

lemma test_final_cpus:
  "final_cpus test_env [] s = Some s"
  "final_cpus test_env [''0-9''] ''0-95'' = Some ''10-95''"
  "final_cpus test_env [''1'', ''2'', ''4-7''] ''0-95'' = Some ''0,3,8-95''"
  by (simp_all add: final_cpus_def test_env_def test_parse(3-5) test_string(2,3))

lemma test_no_plugins: "format_plugins \<lparr>Ratio = '''', Monitoring = ''''\<rparr> = Inr []"
  by (simp add: format_plugins_def)

text \<open>
  Every workload of the test vectors is translated to the request the vectors expect, on the
  host of the tests.
\<close>

theorem formatWorkload_test_vectors:
  "List.map (\<lambda>wl. map_option fst (formatWorkload test_env wl address h)) rmdWorkloadTestCases
     = List.map (\<lambda>w. Some (Inr w)) rdtWorkLoadTestCases"
  by (simp add: rmdWorkloadTestCases_def rdtWorkLoadTestCases_def formatWorkload_def Let_def core_ids_def
      test_all_cpus test_final_cpus test_format_plugins test_no_plugins to_uint32_def nonzero_uint32_def
      rmd_case_1_def rmd_case_2_def rmd_case_3_def rmd_case_4_def rmd_case_5_def
      rmd_case_6_def rmd_case_7_def rmd_case_8_def rmd_case_9_def
      rdt_case_1_def rdt_case_2_def rdt_case_3_def rdt_case_4_def rdt_case_5_def
      rdt_case_6_def rdt_case_7_def rdt_case_8_def rdt_case_9_def
      zero_RmdWorkload_def zero_RDTWorkLoad_def zero_Rdt_def zero_Plugins_def)

end
